theory Spec2Isabelle
  imports Complex_Main
begin

section \<open>Sparse EM kernels of pLSA (enstop/plsa.py)\<close>

text \<open>
  The embedding follows \<^verbatim>\<open>src/enstop/plsa.py\<close>. Conventions:
  \<^item> The entries of the arrays are idealised as \<^typ>\<open>real\<close>: rounding and overflow are
    not modelled. The kernels divide only behind a test that the divisor is positive, so
    no entry leaves the reals.
  \<^item> The log-likelihood does leave them: \<^verbatim>\<open>np.log\<close> of a non-positive number is \<^verbatim>\<open>-inf\<close>
    or \<^verbatim>\<open>nan\<close>, the source raises nothing there and the loops go on. The log-likelihood
    and the values computed from it are therefore values of the type \<open>float64\<close> below,
    which keeps \<^verbatim>\<open>inf\<close>, \<^verbatim>\<open>-inf\<close> and \<^verbatim>\<open>nan\<close>.
  \<^item> In the NNDSVD initialisation a numpy array divided by a zero scalar and the square
    root of a negative number give \<^verbatim>\<open>inf\<close> or \<^verbatim>\<open>nan\<close> entries without raising; the
    embedding reports these as the outcome \<open>NonFinite\<close>, which is not an exception, and
    says nothing more about the arrays of such a run.
  \<^item> The kernels are compiled by numba with its default error model, in which a scalar
    division or a modulo by zero raises \<^verbatim>\<open>ZeroDivisionError\<close>.
  \<^item> An index outside an array's shape is the outcome \<open>IndexError\<close>, as Python raises
    it. The index arrays of a COO matrix hold non-negative integers, so they are
    \<^typ>\<open>nat list\<close>.
  \<^item> A two-dimensional array is a record of its column count and its list of rows; the
    arrays numpy builds are rectangular (\<open>wf_matrix\<close>).
  \<^item> Arrays mutated in place are passed in and returned updated.
\<close>

subsection \<open>Outcomes, arrays and loops\<close>

datatype error =
  IndexError | ZeroDivisionError | ValueError | AttributeError | TypeError | NonFinite

definition and_then :: "error + 'a \<Rightarrow> ('a \<Rightarrow> error + 'b) \<Rightarrow> error + 'b" where
  "and_then r f = (case r of Inl e \<Rightarrow> Inl e | Inr x \<Rightarrow> f x)"

text \<open>\<^verbatim>\<open>for i in xs: s = body(i, s)\<close>, stopping at the first exception.\<close>

fun for_each :: "'i list \<Rightarrow> ('i \<Rightarrow> 's \<Rightarrow> error + 's) \<Rightarrow> 's \<Rightarrow> error + 's" where
  "for_each [] body s = Inr s"
| "for_each (i # is) body s =
     (case body i s of Inl e \<Rightarrow> Inl e | Inr s' \<Rightarrow> for_each is body s')"

record matrix =
  ncols :: nat
  rws :: "real list list"

definition nrows :: "matrix \<Rightarrow> nat" where
  "nrows M = length (rws M)"

definition wf_matrix :: "matrix \<Rightarrow> bool" where
  "wf_matrix M = list_all (\<lambda>r. length r = ncols M) (rws M)"

text \<open>\<^verbatim>\<open>np.zeros((r, c))\<close> and \<^verbatim>\<open>M[:] = 0.0\<close>.\<close>

definition zeros :: "nat \<Rightarrow> nat \<Rightarrow> matrix" where
  "zeros r c = \<lparr>ncols = c, rws = replicate r (replicate c 0)\<rparr>"

definition fill_zero :: "matrix \<Rightarrow> matrix" where
  "fill_zero M = zeros (nrows M) (ncols M)"

definition vec_get :: "'a list \<Rightarrow> nat \<Rightarrow> error + 'a" where
  "vec_get xs i = (if i < length xs then Inr (xs ! i) else Inl IndexError)"

definition vec_set :: "'a list \<Rightarrow> nat \<Rightarrow> 'a \<Rightarrow> error + 'a list" where
  "vec_set xs i v = (if i < length xs then Inr (xs[i := v]) else Inl IndexError)"

definition mat_get :: "matrix \<Rightarrow> nat \<Rightarrow> nat \<Rightarrow> error + real" where
  "mat_get M i j =
     (if i < nrows M \<and> j < ncols M then Inr (rws M ! i ! j) else Inl IndexError)"

definition mat_set :: "matrix \<Rightarrow> nat \<Rightarrow> nat \<Rightarrow> real \<Rightarrow> error + matrix" where
  "mat_set M i j v =
     (if i < nrows M \<and> j < ncols M
      then Inr (M\<lparr>rws := (rws M)[i := (rws M ! i)[j := v]]\<rparr>)
      else Inl IndexError)"

text \<open>Scalar division under numba's default error model.\<close>

definition fdiv :: "real \<Rightarrow> real \<Rightarrow> error + real" where
  "fdiv a b = (if b = 0 then Inl ZeroDivisionError else Inr (a / b))"

text \<open>\<^verbatim>\<open>v[i] += s\<close>, \<^verbatim>\<open>M[i, j] += s\<close> and \<^verbatim>\<open>M[i, j] /= d\<close>.\<close>

definition vec_add :: "real list \<Rightarrow> nat \<Rightarrow> real \<Rightarrow> error + real list" where
  "vec_add xs i s = and_then (vec_get xs i) (\<lambda>c. vec_set xs i (c + s))"

definition mat_add :: "matrix \<Rightarrow> nat \<Rightarrow> nat \<Rightarrow> real \<Rightarrow> error + matrix" where
  "mat_add M i j s = and_then (mat_get M i j) (\<lambda>c. mat_set M i j (c + s))"

definition mat_div :: "matrix \<Rightarrow> nat \<Rightarrow> nat \<Rightarrow> real \<Rightarrow> error + matrix" where
  "mat_div M i j d =
     and_then (mat_get M i j) (\<lambda>c. and_then (fdiv c d) (\<lambda>q. mat_set M i j q))"

subsection \<open>Expectation step: \<^verbatim>\<open>plsa_e_step\<close>\<close>

text \<open>
  The first inner loop, \<^verbatim>\<open>for z in range(k)\<close>: it writes \<^verbatim>\<open>p_z_given_wd[nz_idx, z]\<close> and
  accumulates the local \<^verbatim>\<open>norm\<close> (here \<open>nrm\<close>).
\<close>

definition e_step_store ::
  "matrix \<Rightarrow> matrix \<Rightarrow> real \<Rightarrow> nat \<Rightarrow> nat \<Rightarrow> nat \<Rightarrow> nat \<Rightarrow> matrix \<times> real
     \<Rightarrow> error + (matrix \<times> real)" where
  "e_step_store p_w_given_z p_z_given_d probability_threshold nz_idx d w z st =
     (case st of (p_z_given_wd, nrm) \<Rightarrow>
        and_then (mat_get p_w_given_z z w) (\<lambda>a.
        and_then (mat_get p_z_given_d d z) (\<lambda>b.
          let v = a * b in
          if v > probability_threshold
          then and_then (mat_set p_z_given_wd nz_idx z v) (\<lambda>P.
               and_then (mat_get P nz_idx z) (\<lambda>c. Inr (P, nrm + c)))
          else and_then (mat_set p_z_given_wd nz_idx z 0) (\<lambda>P. Inr (P, nrm)))))"

text \<open>The second inner loop: the guarded division by \<^verbatim>\<open>norm\<close>.\<close>

definition e_step_normalize :: "nat \<Rightarrow> real \<Rightarrow> nat \<Rightarrow> matrix \<Rightarrow> error + matrix" where
  "e_step_normalize nz_idx nrm z p_z_given_wd =
     (if nrm > 0 then mat_div p_z_given_wd nz_idx z nrm else Inr p_z_given_wd)"

definition e_step_entry ::
  "nat list \<Rightarrow> nat list \<Rightarrow> matrix \<Rightarrow> matrix \<Rightarrow> real \<Rightarrow> nat \<Rightarrow> nat \<Rightarrow> matrix
     \<Rightarrow> error + matrix" where
  "e_step_entry X_rows X_cols p_w_given_z p_z_given_d probability_threshold k nz_idx
       p_z_given_wd =
     and_then (vec_get X_rows nz_idx) (\<lambda>d.
     and_then (vec_get X_cols nz_idx) (\<lambda>w.
     and_then (for_each [0..<k]
                 (e_step_store p_w_given_z p_z_given_d probability_threshold nz_idx d w)
                 (p_z_given_wd, 0)) (\<lambda>st.
       for_each [0..<k] (e_step_normalize nz_idx (snd st)) (fst st))))"

definition plsa_e_step ::
  "nat list \<Rightarrow> nat list \<Rightarrow> real list \<Rightarrow> matrix \<Rightarrow> matrix \<Rightarrow> matrix \<Rightarrow> real
     \<Rightarrow> error + matrix" where
  "plsa_e_step X_rows X_cols X_vals p_w_given_z p_z_given_d p_z_given_wd
       probability_threshold =
     (let k = nrows p_w_given_z in
      for_each [0..<length X_vals]
        (e_step_entry X_rows X_cols p_w_given_z p_z_given_d probability_threshold k)
        p_z_given_wd)"

subsection \<open>Maximization step: \<^verbatim>\<open>plsa_m_step\<close>\<close>

text \<open>The four arrays the step writes: \<^verbatim>\<open>p_w_given_z\<close>, \<^verbatim>\<open>p_z_given_d\<close>, \<^verbatim>\<open>norm_pwz\<close>, \<^verbatim>\<open>norm_pdz\<close>.\<close>

record m_buffers =
  pwz :: matrix
  pzd :: matrix
  npwz :: "real list"
  npdz :: "real list"

text \<open>The body of \<^verbatim>\<open>for z in range(k)\<close> inside the pass over the nonzero entries.\<close>

definition m_step_accumulate ::
  "matrix \<Rightarrow> nat \<Rightarrow> nat \<Rightarrow> nat \<Rightarrow> real \<Rightarrow> nat \<Rightarrow> m_buffers \<Rightarrow> error + m_buffers" where
  "m_step_accumulate p_z_given_wd nz_idx d w x z b =
     and_then (mat_get p_z_given_wd nz_idx z) (\<lambda>p.
       let s = x * p in
       and_then (mat_add (pwz b) z w s) (\<lambda>W.
       and_then (mat_add (pzd b) d z s) (\<lambda>D.
       and_then (vec_add (npwz b) z s) (\<lambda>nw.
       and_then (vec_add (npdz b) d s) (\<lambda>nd.
         Inr \<lparr>pwz = W, pzd = D, npwz = nw, npdz = nd\<rparr>)))))"

definition m_step_entry ::
  "nat list \<Rightarrow> nat list \<Rightarrow> real list \<Rightarrow> matrix \<Rightarrow> nat \<Rightarrow> nat \<Rightarrow> m_buffers
     \<Rightarrow> error + m_buffers" where
  "m_step_entry X_rows X_cols X_vals p_z_given_wd k nz_idx b =
     and_then (vec_get X_rows nz_idx) (\<lambda>d.
     and_then (vec_get X_cols nz_idx) (\<lambda>w.
     and_then (vec_get X_vals nz_idx) (\<lambda>x.
       for_each [0..<k] (m_step_accumulate p_z_given_wd nz_idx d w x) b)))"

text \<open>The two guarded divisions of the final \<^verbatim>\<open>for z in range(k)\<close> loop.\<close>

definition m_step_div_word :: "nat \<Rightarrow> nat \<Rightarrow> m_buffers \<Rightarrow> error + m_buffers" where
  "m_step_div_word z w b =
     and_then (vec_get (npwz b) z) (\<lambda>nz.
       if nz > 0
       then and_then (mat_div (pwz b) z w nz) (\<lambda>W. Inr (b\<lparr>pwz := W\<rparr>))
       else Inr b)"

definition m_step_div_doc :: "nat \<Rightarrow> nat \<Rightarrow> m_buffers \<Rightarrow> error + m_buffers" where
  "m_step_div_doc z d b =
     and_then (vec_get (npdz b) d) (\<lambda>nd.
       if nd > 0
       then and_then (mat_div (pzd b) d z nd) (\<lambda>D. Inr (b\<lparr>pzd := D\<rparr>))
       else Inr b)"

definition m_step_normalize :: "nat \<Rightarrow> nat \<Rightarrow> nat \<Rightarrow> m_buffers \<Rightarrow> error + m_buffers" where
  "m_step_normalize m n z b =
     and_then (for_each [0..<m] (m_step_div_word z) b) (\<lambda>b'.
       for_each [0..<n] (m_step_div_doc z) b')"

text \<open>
  \<^verbatim>\<open>plsa_m_step\<close> returns \<^verbatim>\<open>(p_w_given_z, p_z_given_d)\<close>; the two norm buffers are
  mutated as well, so the embedding returns all four arrays.
\<close>

definition plsa_m_step ::
  "nat list \<Rightarrow> nat list \<Rightarrow> real list \<Rightarrow> matrix \<Rightarrow> matrix \<Rightarrow> matrix
     \<Rightarrow> real list \<Rightarrow> real list \<Rightarrow> error + m_buffers" where
  "plsa_m_step X_rows X_cols X_vals p_w_given_z p_z_given_d p_z_given_wd norm_pwz norm_pdz =
     (let k = ncols p_z_given_wd;
          n = nrows p_z_given_d;
          m = ncols p_w_given_z;
          b0 = \<lparr>pwz = fill_zero p_w_given_z, pzd = fill_zero p_z_given_d,
                npwz = replicate (length norm_pwz) 0,
                npdz = replicate (length norm_pdz) 0\<rparr>
      in and_then (for_each [0..<length X_vals]
                     (m_step_entry X_rows X_cols X_vals p_z_given_wd k) b0) (\<lambda>b1.
           for_each [0..<k] (m_step_normalize m n) b1))"

subsection \<open>Log-likelihood: \<^verbatim>\<open>log_likelihood\<close>\<close>

text \<open>
  \<^verbatim>\<open>np.log\<close> of \<open>0\<close> is \<^verbatim>\<open>-inf\<close> and of a negative number \<^verbatim>\<open>nan\<close>, without an exception,
  and the loops go on with such a log-likelihood. So the values on this path are
  \<^verbatim>\<open>float64\<close> values with the special values kept: a real number, \<^verbatim>\<open>inf\<close>, \<^verbatim>\<open>-inf\<close> or
  \<^verbatim>\<open>nan\<close>, with the IEEE 754 results of the operations the source applies to them
  (\<^verbatim>\<open>+\<close>, \<^verbatim>\<open>-\<close>, \<^verbatim>\<open>*\<close>, \<^verbatim>\<open>np.abs\<close>, \<^verbatim>\<open>/\<close>, \<^verbatim>\<open><\<close>, \<^verbatim>\<open>>\<close>). A comparison with \<^verbatim>\<open>nan\<close> is false. The
  division is the one of the compiled loops: a zero divisor raises
  \<^verbatim>\<open>ZeroDivisionError\<close>, whatever the dividend.
\<close>

datatype float64 = Finite real | PosInf | NegInf | NaN

fun f_neg :: "float64 \<Rightarrow> float64" where
  "f_neg (Finite a) = Finite (- a)"
| "f_neg PosInf = NegInf"
| "f_neg NegInf = PosInf"
| "f_neg NaN = NaN"

fun f_abs :: "float64 \<Rightarrow> float64" where
  "f_abs (Finite a) = Finite \<bar>a\<bar>"
| "f_abs PosInf = PosInf"
| "f_abs NegInf = PosInf"
| "f_abs NaN = NaN"

fun f_add :: "float64 \<Rightarrow> float64 \<Rightarrow> float64" where
  "f_add (Finite a) (Finite b) = Finite (a + b)"
| "f_add (Finite a) PosInf = PosInf"
| "f_add (Finite a) NegInf = NegInf"
| "f_add PosInf (Finite b) = PosInf"
| "f_add PosInf PosInf = PosInf"
| "f_add PosInf NegInf = NaN"
| "f_add NegInf (Finite b) = NegInf"
| "f_add NegInf PosInf = NaN"
| "f_add NegInf NegInf = NegInf"
| "f_add NaN b = NaN"
| "f_add a NaN = NaN"

definition f_sub :: "float64 \<Rightarrow> float64 \<Rightarrow> float64" where
  "f_sub a b = f_add a (f_neg b)"

fun f_mul :: "float64 \<Rightarrow> float64 \<Rightarrow> float64" where
  "f_mul (Finite a) (Finite b) = Finite (a * b)"
| "f_mul (Finite a) PosInf = (if a > 0 then PosInf else if a < 0 then NegInf else NaN)"
| "f_mul (Finite a) NegInf = (if a > 0 then NegInf else if a < 0 then PosInf else NaN)"
| "f_mul PosInf (Finite b) = (if b > 0 then PosInf else if b < 0 then NegInf else NaN)"
| "f_mul NegInf (Finite b) = (if b > 0 then NegInf else if b < 0 then PosInf else NaN)"
| "f_mul PosInf PosInf = PosInf"
| "f_mul PosInf NegInf = NegInf"
| "f_mul NegInf PosInf = NegInf"
| "f_mul NegInf NegInf = PosInf"
| "f_mul NaN b = NaN"
| "f_mul a NaN = NaN"

fun f_div :: "float64 \<Rightarrow> float64 \<Rightarrow> error + float64" where
  "f_div a (Finite b) =
     (if b = 0 then Inl ZeroDivisionError
      else Inr (case a of
                  Finite x \<Rightarrow> Finite (x / b)
                | PosInf \<Rightarrow> if b > 0 then PosInf else NegInf
                | NegInf \<Rightarrow> if b > 0 then NegInf else PosInf
                | NaN \<Rightarrow> NaN))"
| "f_div (Finite a) PosInf = Inr (Finite 0)"
| "f_div (Finite a) NegInf = Inr (Finite 0)"
| "f_div a b = Inr NaN"

fun f_less :: "float64 \<Rightarrow> float64 \<Rightarrow> bool" where
  "f_less (Finite a) (Finite b) = (a < b)"
| "f_less (Finite a) PosInf = True"
| "f_less NegInf (Finite b) = True"
| "f_less NegInf PosInf = True"
| "f_less a b = False"

definition np_log :: "real \<Rightarrow> float64" where
  "np_log p = (if p > 0 then Finite (ln p) else if p = 0 then NegInf else NaN)"

definition ll_mix :: "matrix \<Rightarrow> matrix \<Rightarrow> nat \<Rightarrow> nat \<Rightarrow> nat \<Rightarrow> real \<Rightarrow> error + real" where
  "ll_mix p_w_given_z p_z_given_d d w z p_w_given_d =
     and_then (mat_get p_w_given_z z w) (\<lambda>a.
     and_then (mat_get p_z_given_d d z) (\<lambda>b. Inr (p_w_given_d + a * b)))"

definition ll_entry ::
  "nat list \<Rightarrow> nat list \<Rightarrow> real list \<Rightarrow> matrix \<Rightarrow> matrix \<Rightarrow> nat \<Rightarrow> nat \<Rightarrow> float64
     \<Rightarrow> error + float64" where
  "ll_entry X_rows X_cols X_vals p_w_given_z p_z_given_d k nz_idx result =
     and_then (vec_get X_rows nz_idx) (\<lambda>d.
     and_then (vec_get X_cols nz_idx) (\<lambda>w.
     and_then (vec_get X_vals nz_idx) (\<lambda>x.
     and_then (for_each [0..<k] (ll_mix p_w_given_z p_z_given_d d w) 0) (\<lambda>p_w_given_d.
       Inr (f_add result (f_mul (Finite x) (np_log p_w_given_d)))))))"

definition log_likelihood ::
  "nat list \<Rightarrow> nat list \<Rightarrow> real list \<Rightarrow> matrix \<Rightarrow> matrix \<Rightarrow> error + float64" where
  "log_likelihood X_rows X_cols X_vals p_w_given_z p_z_given_d =
     (let k = nrows p_w_given_z in
      for_each [0..<length X_vals]
        (ll_entry X_rows X_cols X_vals p_w_given_z p_z_given_d k) (Finite 0))"

subsection \<open>The fit loop: \<^verbatim>\<open>plsa_fit_inner\<close>\<close>

text \<open>A \<^verbatim>\<open>for\<close> loop whose body may \<^verbatim>\<open>break\<close>.\<close>

datatype 's ctl = Continue 's | Break 's

fun for_each_break :: "'i list \<Rightarrow> ('i \<Rightarrow> 's \<Rightarrow> error + 's ctl) \<Rightarrow> 's \<Rightarrow> error + 's" where
  "for_each_break [] body s = Inr s"
| "for_each_break (i # is) body s =
     (case body i s of
        Inl e \<Rightarrow> Inl e
      | Inr (Break s') \<Rightarrow> Inr s'
      | Inr (Continue s') \<Rightarrow> for_each_break is body s')"

text \<open>\<^verbatim>\<open>a % b\<close> on integers under numba's default error model.\<close>

definition py_mod :: "int \<Rightarrow> int \<Rightarrow> error + int" where
  "py_mod a b = (if b = 0 then Inl ZeroDivisionError else Inr (a mod b))"

text \<open>
  The arrays one EM iteration works on, and the iteration itself: \<^verbatim>\<open>plsa_e_step\<close>, then
  \<^verbatim>\<open>plsa_m_step\<close> on the posteriors just written.
\<close>

record em_arrays =
  topic_word :: matrix
  doc_topic :: matrix
  posterior :: matrix
  norm_topic :: "real list"
  norm_doc :: "real list"

definition em_step ::
  "nat list \<Rightarrow> nat list \<Rightarrow> real list \<Rightarrow> real \<Rightarrow> em_arrays \<Rightarrow> error + em_arrays" where
  "em_step X_rows X_cols X_vals e_step_thresh a =
     and_then (plsa_e_step X_rows X_cols X_vals (topic_word a) (doc_topic a) (posterior a)
                 e_step_thresh) (\<lambda>P.
     and_then (plsa_m_step X_rows X_cols X_vals (topic_word a) (doc_topic a) P
                 (norm_topic a) (norm_doc a)) (\<lambda>b.
       Inr \<lparr>topic_word = pwz b, doc_topic = pzd b, posterior = P,
            norm_topic = npwz b, norm_doc = npdz b\<rparr>))"

text \<open>
  The loop state: the arrays and \<^verbatim>\<open>previous_log_likelihood\<close>. Three further fields
  observe the run without influencing it: the number of completed EM iterations, the
  checkpoints at which the log-likelihood was recomputed (iteration, current and previous
  value, and whether the relative-change test was evaluated there), and whether the loop
  left through \<^verbatim>\<open>break\<close>.
\<close>

record checkpoint =
  at_iter :: nat
  current_ll :: float64
  previous_ll :: float64
  tested :: bool

record loop_state =
  arrays :: em_arrays
  previous_log_likelihood :: float64
  iterations :: nat
  checkpoints :: "checkpoint list"
  converged :: bool

text \<open>
  The quotient \<^verbatim>\<open>change / np.abs(current_log_likelihood)\<close> of a checkpoint, with
  \<^verbatim>\<open>change = np.abs(current_log_likelihood - previous_log_likelihood)\<close>.
\<close>

definition rel_change :: "checkpoint \<Rightarrow> error + float64" where
  "rel_change c =
     f_div (f_abs (f_sub (current_ll c) (previous_ll c))) (f_abs (current_ll c))"

definition fit_test ::
  "nat list \<Rightarrow> nat list \<Rightarrow> real list \<Rightarrow> real \<Rightarrow> nat \<Rightarrow> loop_state
     \<Rightarrow> error + loop_state ctl" where
  "fit_test X_rows X_cols X_vals tolerance i s =
     and_then (log_likelihood X_rows X_cols X_vals
                 (topic_word (arrays s)) (doc_topic (arrays s))) (\<lambda>current_log_likelihood.
       let change = f_abs (f_sub current_log_likelihood (previous_log_likelihood s));
           s' = s\<lparr>checkpoints := checkpoints s @
                  [\<lparr>at_iter = i, current_ll = current_log_likelihood,
                    previous_ll = previous_log_likelihood s, tested = True\<rparr>]\<rparr>
       in and_then (f_div change (f_abs current_log_likelihood)) (\<lambda>ratio.
            if f_less ratio (Finite tolerance)
            then Inr (Break (s'\<lparr>converged := True\<rparr>))
            else Inr (Continue (s'\<lparr>previous_log_likelihood := current_log_likelihood\<rparr>))))"

definition fit_iteration ::
  "nat list \<Rightarrow> nat list \<Rightarrow> real list \<Rightarrow> int \<Rightarrow> real \<Rightarrow> real \<Rightarrow> nat \<Rightarrow> loop_state
     \<Rightarrow> error + loop_state ctl" where
  "fit_iteration X_rows X_cols X_vals n_iter_per_test tolerance e_step_thresh i s =
     and_then (em_step X_rows X_cols X_vals e_step_thresh (arrays s)) (\<lambda>a.
       let s1 = s\<lparr>arrays := a, iterations := Suc (iterations s)\<rparr> in
       and_then (py_mod (int i) n_iter_per_test) (\<lambda>r.
         if r = 0 then fit_test X_rows X_cols X_vals tolerance i s1
         else Inr (Continue s1)))"

definition plsa_fit_inner_run ::
  "nat list \<Rightarrow> nat list \<Rightarrow> real list \<Rightarrow> matrix \<Rightarrow> matrix \<Rightarrow> int \<Rightarrow> int \<Rightarrow> real \<Rightarrow> real
     \<Rightarrow> error + loop_state" where
  "plsa_fit_inner_run X_rows X_cols X_vals p_w_given_z p_z_given_d n_iter n_iter_per_test
       tolerance e_step_thresh =
     (let k = ncols p_z_given_d;
          n = nrows p_z_given_d;
          p_z_given_wd = zeros (length X_vals) k;
          norm_pwz = replicate k 0;
          norm_pdz = replicate n 0
      in and_then (log_likelihood X_rows X_cols X_vals p_w_given_z p_z_given_d)
           (\<lambda>previous.
             for_each_break [0..<nat n_iter]
               (fit_iteration X_rows X_cols X_vals n_iter_per_test tolerance e_step_thresh)
               \<lparr>arrays = \<lparr>topic_word = p_w_given_z, doc_topic = p_z_given_d,
                          posterior = p_z_given_wd, norm_topic = norm_pwz,
                          norm_doc = norm_pdz\<rparr>,
                previous_log_likelihood = previous, iterations = 0, checkpoints = [],
                converged = False\<rparr>))"

text \<open>\<^verbatim>\<open>return p_z_given_d, p_w_given_z\<close>.\<close>

definition plsa_fit_inner ::
  "nat list \<Rightarrow> nat list \<Rightarrow> real list \<Rightarrow> matrix \<Rightarrow> matrix \<Rightarrow> int \<Rightarrow> int \<Rightarrow> real \<Rightarrow> real
     \<Rightarrow> error + (matrix \<times> matrix)" where
  "plsa_fit_inner X_rows X_cols X_vals p_w_given_z p_z_given_d n_iter n_iter_per_test
       tolerance e_step_thresh =
     and_then (plsa_fit_inner_run X_rows X_cols X_vals p_w_given_z p_z_given_d n_iter
                 n_iter_per_test tolerance e_step_thresh)
       (\<lambda>s. Inr (doc_topic (arrays s), topic_word (arrays s)))"

subsection \<open>Refit with fixed topics: \<^verbatim>\<open>plsa_refit_m_step\<close> and \<^verbatim>\<open>plsa_refit\<close>\<close>

text \<open>
  The arrays \<^verbatim>\<open>plsa_refit_m_step\<close> is handed as mutable arguments. It returns
  \<^verbatim>\<open>(p_w_given_z, p_z_given_d)\<close>; \<^verbatim>\<open>norm_pdz\<close> is mutated in place.
\<close>

record refit_buffers =
  rb_pwz :: matrix
  rb_pzd :: matrix
  rb_npdz :: "real list"

definition refit_accumulate ::
  "matrix \<Rightarrow> nat \<Rightarrow> nat \<Rightarrow> real \<Rightarrow> nat \<Rightarrow> refit_buffers \<Rightarrow> error + refit_buffers" where
  "refit_accumulate p_z_given_wd nz_idx d x z b =
     and_then (mat_get p_z_given_wd nz_idx z) (\<lambda>p.
       let s = x * p in
       and_then (mat_add (rb_pzd b) d z s) (\<lambda>D.
       and_then (vec_add (rb_npdz b) d s) (\<lambda>nd.
         Inr (b\<lparr>rb_pzd := D, rb_npdz := nd\<rparr>))))"

definition refit_entry ::
  "nat list \<Rightarrow> nat list \<Rightarrow> real list \<Rightarrow> matrix \<Rightarrow> nat \<Rightarrow> nat \<Rightarrow> refit_buffers
     \<Rightarrow> error + refit_buffers" where
  "refit_entry X_rows X_cols X_vals p_z_given_wd k nz_idx b =
     and_then (vec_get X_rows nz_idx) (\<lambda>d.
     and_then (vec_get X_cols nz_idx) (\<lambda>w.
     and_then (vec_get X_vals nz_idx) (\<lambda>x.
       for_each [0..<k] (refit_accumulate p_z_given_wd nz_idx d x) b)))"

definition refit_div_doc :: "nat \<Rightarrow> nat \<Rightarrow> refit_buffers \<Rightarrow> error + refit_buffers" where
  "refit_div_doc z d b =
     and_then (vec_get (rb_npdz b) d) (\<lambda>nd.
       if nd > 0
       then and_then (mat_div (rb_pzd b) d z nd) (\<lambda>D. Inr (b\<lparr>rb_pzd := D\<rparr>))
       else Inr b)"

definition plsa_refit_m_step ::
  "nat list \<Rightarrow> nat list \<Rightarrow> real list \<Rightarrow> matrix \<Rightarrow> matrix \<Rightarrow> matrix \<Rightarrow> real list
     \<Rightarrow> error + refit_buffers" where
  "plsa_refit_m_step X_rows X_cols X_vals p_w_given_z p_z_given_d p_z_given_wd norm_pdz =
     (let k = ncols p_z_given_wd;
          n = nrows p_z_given_d;
          b0 = \<lparr>rb_pwz = p_w_given_z, rb_pzd = fill_zero p_z_given_d,
                rb_npdz = replicate (length norm_pdz) 0\<rparr>
      in and_then (for_each [0..<length X_vals]
                     (refit_entry X_rows X_cols X_vals p_z_given_wd k) b0) (\<lambda>b1.
           for_each [0..<k] (\<lambda>z. for_each [0..<n] (refit_div_doc z)) b1))"

text \<open>
  One refit iteration on the arrays: \<^verbatim>\<open>plsa_e_step\<close> against \<^verbatim>\<open>topics\<close>, then
  \<^verbatim>\<open>plsa_refit_m_step\<close>. \<^verbatim>\<open>plsa_refit\<close> has no per-topic accumulator, so \<open>norm_topic\<close>
  stays as it is.
\<close>

definition refit_em_step ::
  "nat list \<Rightarrow> nat list \<Rightarrow> real list \<Rightarrow> real \<Rightarrow> em_arrays \<Rightarrow> error + em_arrays" where
  "refit_em_step X_rows X_cols X_vals e_step_thresh a =
     and_then (plsa_e_step X_rows X_cols X_vals (topic_word a) (doc_topic a) (posterior a)
                 e_step_thresh) (\<lambda>P.
     and_then (plsa_refit_m_step X_rows X_cols X_vals (topic_word a) (doc_topic a) P
                 (norm_doc a)) (\<lambda>b.
       Inr (a\<lparr>topic_word := rb_pwz b, doc_topic := rb_pzd b, posterior := P,
               norm_doc := rb_npdz b\<rparr>)))"

definition refit_test ::
  "nat list \<Rightarrow> nat list \<Rightarrow> real list \<Rightarrow> real \<Rightarrow> nat \<Rightarrow> loop_state
     \<Rightarrow> error + loop_state ctl" where
  "refit_test X_rows X_cols X_vals tolerance i s =
     and_then (log_likelihood X_rows X_cols X_vals
                 (topic_word (arrays s)) (doc_topic (arrays s))) (\<lambda>current_log_likelihood.
       if f_less (Finite 0) current_log_likelihood
       then
         let change = f_abs (f_sub current_log_likelihood (previous_log_likelihood s));
             s' = s\<lparr>checkpoints := checkpoints s @
                    [\<lparr>at_iter = i, current_ll = current_log_likelihood,
                      previous_ll = previous_log_likelihood s, tested = True\<rparr>]\<rparr>
         in and_then (f_div change (f_abs current_log_likelihood)) (\<lambda>ratio.
              if f_less ratio (Finite tolerance)
              then Inr (Break (s'\<lparr>converged := True\<rparr>))
              else Inr (Continue (s'\<lparr>previous_log_likelihood := current_log_likelihood\<rparr>)))
       else Inr (Continue (s\<lparr>checkpoints := checkpoints s @
                    [\<lparr>at_iter = i, current_ll = current_log_likelihood,
                      previous_ll = previous_log_likelihood s, tested = False\<rparr>]\<rparr>)))"

definition refit_iteration ::
  "nat list \<Rightarrow> nat list \<Rightarrow> real list \<Rightarrow> int \<Rightarrow> real \<Rightarrow> real \<Rightarrow> nat \<Rightarrow> loop_state
     \<Rightarrow> error + loop_state ctl" where
  "refit_iteration X_rows X_cols X_vals n_iter_per_test tolerance e_step_thresh i s =
     and_then (refit_em_step X_rows X_cols X_vals e_step_thresh (arrays s)) (\<lambda>a.
       let s1 = s\<lparr>arrays := a, iterations := Suc (iterations s)\<rparr> in
       and_then (py_mod (int i) n_iter_per_test) (\<lambda>r.
         if r = 0 then refit_test X_rows X_cols X_vals tolerance i s1
         else Inr (Continue s1)))"

text \<open>
  \<^verbatim>\<open>plsa_refit\<close>. The draw \<^verbatim>\<open>np.random.random((n_documents, k))\<close> is the parameter
  \<open>random_draw\<close>, and \<^verbatim>\<open>normalize\<close>, which \<^verbatim>\<open>enstop.utils\<close> defines outside this file, is
  the parameter \<open>normalize_fn\<close>; it is applied to \<^verbatim>\<open>p_z_given_d\<close> only.
\<close>

definition plsa_refit_run ::
  "(matrix \<Rightarrow> error + matrix) \<Rightarrow> (nat \<Rightarrow> nat \<Rightarrow> matrix) \<Rightarrow>
   nat list \<Rightarrow> nat list \<Rightarrow> real list \<Rightarrow> matrix \<Rightarrow> nat \<Rightarrow> int \<Rightarrow> int \<Rightarrow> real \<Rightarrow> real
     \<Rightarrow> error + loop_state" where
  "plsa_refit_run normalize_fn random_draw X_rows X_cols X_vals topics n_documents n_iter
       n_iter_per_test tolerance e_step_thresh =
     (let k = nrows topics;
          p_z_given_wd = zeros (length X_vals) k;
          norm_pdz = replicate n_documents 0
      in and_then (normalize_fn (random_draw n_documents k)) (\<lambda>p_z_given_d.
         and_then (log_likelihood X_rows X_cols X_vals topics p_z_given_d) (\<lambda>previous.
           for_each_break [0..<nat n_iter]
             (refit_iteration X_rows X_cols X_vals n_iter_per_test tolerance e_step_thresh)
             \<lparr>arrays = \<lparr>topic_word = topics, doc_topic = p_z_given_d,
                        posterior = p_z_given_wd, norm_topic = [],
                        norm_doc = norm_pdz\<rparr>,
              previous_log_likelihood = previous, iterations = 0, checkpoints = [],
              converged = False\<rparr>)))"

text \<open>\<^verbatim>\<open>return p_z_given_d\<close>.\<close>

definition plsa_refit ::
  "(matrix \<Rightarrow> error + matrix) \<Rightarrow> (nat \<Rightarrow> nat \<Rightarrow> matrix) \<Rightarrow>
   nat list \<Rightarrow> nat list \<Rightarrow> real list \<Rightarrow> matrix \<Rightarrow> nat \<Rightarrow> int \<Rightarrow> int \<Rightarrow> real \<Rightarrow> real
     \<Rightarrow> error + matrix" where
  "plsa_refit normalize_fn random_draw X_rows X_cols X_vals topics n_documents n_iter
       n_iter_per_test tolerance e_step_thresh =
     and_then (plsa_refit_run normalize_fn random_draw X_rows X_cols X_vals topics n_documents
                 n_iter n_iter_per_test tolerance e_step_thresh)
       (\<lambda>s. Inr (doc_topic (arrays s)))"

subsection \<open>Initialisation: \<^verbatim>\<open>norm\<close> and \<^verbatim>\<open>plsa_init\<close>\<close>

text \<open>
  \<^verbatim>\<open>norm\<close>, the l2-norm of a vector, with the source's accumulation loop. The name is
  taken in HOL, hence \<open>norm_l2\<close>.
\<close>

definition norm_l2 :: "real list \<Rightarrow> real" where
  "norm_l2 x = sqrt (foldl (\<lambda>result v. result + v ^ 2) 0 x)"

text \<open>
  numpy operations on whole arrays. Dividing a non-empty array by a zero scalar and the
  square root of a negative number give \<^verbatim>\<open>inf\<close> or \<^verbatim>\<open>nan\<close> in the source (with a warning,
  no exception), hence \<open>NonFinite\<close> here.
\<close>

definition np_sqrt :: "real \<Rightarrow> error + real" where
  "np_sqrt x = (if 0 \<le> x then Inr (sqrt x) else Inl NonFinite)"

definition array_div :: "real list \<Rightarrow> real \<Rightarrow> error + real list" where
  "array_div xs c =
     (if c = 0 \<and> xs \<noteq> [] then Inl NonFinite else Inr (map (\<lambda>v. v / c) xs))"

definition scale :: "real \<Rightarrow> real list \<Rightarrow> real list" where
  "scale c xs = map (\<lambda>v. c * v) xs"

text \<open>\<^verbatim>\<open>M[:, j]\<close>, \<^verbatim>\<open>M[j, :]\<close>, as values and as assignment targets.\<close>

definition get_column :: "matrix \<Rightarrow> nat \<Rightarrow> error + real list" where
  "get_column M j = (if j < ncols M then Inr (map (\<lambda>r. r ! j) (rws M)) else Inl IndexError)"

definition get_row :: "matrix \<Rightarrow> nat \<Rightarrow> error + real list" where
  "get_row M j = (if j < nrows M then Inr (rws M ! j) else Inl IndexError)"

definition set_column :: "matrix \<Rightarrow> nat \<Rightarrow> real list \<Rightarrow> error + matrix" where
  "set_column M j xs =
     (if \<not> j < ncols M then Inl IndexError
      else if length xs \<noteq> nrows M then Inl ValueError
      else Inr (M\<lparr>rws := map (\<lambda>(r, v). r[j := v]) (zip (rws M) xs)\<rparr>))"

definition set_row :: "matrix \<Rightarrow> nat \<Rightarrow> real list \<Rightarrow> error + matrix" where
  "set_row M j xs =
     (if \<not> j < nrows M then Inl IndexError
      else if length xs \<noteq> ncols M then Inl ValueError
      else Inr (M\<lparr>rws := (rws M)[j := xs]\<rparr>))"

text \<open>
  The \<^verbatim>\<open>nndsvd\<close> branch, after \<^verbatim>\<open>randomized_svd\<close> has returned \<open>(U, S, V)\<close>: the
  leading component, then the body of \<^verbatim>\<open>for j in range(1, k)\<close>.
\<close>

definition nndsvd_choose ::
  "real list \<Rightarrow> real list \<Rightarrow> error + (real list \<times> real list \<times> real)" where
  "nndsvd_choose x y =
     (let x_p = map (\<lambda>v. max v 0) x; y_p = map (\<lambda>v. max v 0) y;
          x_n = map (\<lambda>v. \<bar>min v 0\<bar>) x; y_n = map (\<lambda>v. \<bar>min v 0\<bar>) y;
          x_p_nrm = norm_l2 x_p; y_p_nrm = norm_l2 y_p;
          x_n_nrm = norm_l2 x_n; y_n_nrm = norm_l2 y_n;
          m_p = x_p_nrm * y_p_nrm; m_n = x_n_nrm * y_n_nrm
      in if m_p > m_n
         then and_then (array_div x_p x_p_nrm) (\<lambda>u.
              and_then (array_div y_p y_p_nrm) (\<lambda>v. Inr (u, v, m_p)))
         else and_then (array_div x_n x_n_nrm) (\<lambda>u.
              and_then (array_div y_n y_n_nrm) (\<lambda>v. Inr (u, v, m_n))))"

definition nndsvd_component ::
  "matrix \<Rightarrow> real list \<Rightarrow> matrix \<Rightarrow> nat \<Rightarrow> matrix \<times> matrix \<Rightarrow> error + (matrix \<times> matrix)" where
  "nndsvd_component U S V j st =
     (case st of (p_z_given_d, p_w_given_z) \<Rightarrow>
        and_then (get_column U j) (\<lambda>x.
        and_then (get_row V j) (\<lambda>y.
        and_then (nndsvd_choose x y) (\<lambda>(u, v, sigma).
        and_then (vec_get S j) (\<lambda>Sj.
        and_then (np_sqrt (Sj * sigma)) (\<lambda>lbd.
        and_then (set_column p_z_given_d j (scale lbd u)) (\<lambda>D.
        and_then (set_row p_w_given_z j (scale lbd v)) (\<lambda>W. Inr (D, W)))))))))"

definition nndsvd :: "matrix \<Rightarrow> real list \<Rightarrow> matrix \<Rightarrow> nat \<Rightarrow> error + (matrix \<times> matrix)" where
  "nndsvd U S V k =
     (let p_z_given_d = zeros (nrows U) (ncols U);
          p_w_given_z = zeros (nrows V) (ncols V)
      in and_then (vec_get S 0) (\<lambda>S0.
         and_then (np_sqrt S0) (\<lambda>c.
         and_then (get_column U 0) (\<lambda>x.
         and_then (set_column p_z_given_d 0 (scale c (map abs x))) (\<lambda>D.
         and_then (get_row V 0) (\<lambda>y.
         and_then (set_row p_w_given_z 0 (scale c (map abs y))) (\<lambda>W.
           for_each [1..<k] (nndsvd_component U S V) (D, W))))))))"

text \<open>
  The data matrix as the scipy COO class holds it (\<^verbatim>\<open>shape\<close>, \<^verbatim>\<open>row\<close>, \<^verbatim>\<open>col\<close>,
  \<^verbatim>\<open>data\<close>).
\<close>

record coo_matrix =
  shape :: "nat \<times> nat"
  coo_row :: "nat list"
  coo_col :: "nat list"
  coo_data :: "real list"

text \<open>
  The Python values that reach \<^verbatim>\<open>plsa_init\<close> as its \<^verbatim>\<open>init\<close> argument and that it
  returns: a string, an array, a tuple or a list of values, or a value of another type
  (\<^verbatim>\<open>None\<close>, a number).
\<close>

datatype init_value =
  VStr string | VArray matrix | VTuple "init_value list" | VList "init_value list" | VOther

text \<open>
  The routines \<^verbatim>\<open>plsa_init\<close> calls that this file does not define are parameters of the
  embedding: \<^verbatim>\<open>np.random.random\<close> (the first argument numbers the draw), sklearn's
  \<^verbatim>\<open>randomized_svd\<close> and \<^verbatim>\<open>non_negative_factorization\<close>, and \<^verbatim>\<open>enstop.utils.normalize\<close>,
  which is handed whatever the branch bound to \<^verbatim>\<open>p_w_given_z\<close> and \<^verbatim>\<open>p_z_given_d\<close>.
\<close>

record library =
  np_random :: "nat \<Rightarrow> nat \<Rightarrow> nat \<Rightarrow> matrix"
  randomized_svd :: "coo_matrix \<Rightarrow> nat \<Rightarrow> error + (matrix \<times> real list \<times> matrix)"
  non_negative_factorization :: "coo_matrix \<Rightarrow> nat \<Rightarrow> error + (matrix \<times> matrix)"
  normalize_rows :: "init_value \<Rightarrow> error + init_value"

text \<open>
  To say what \<^verbatim>\<open>plsa_init\<close> has created and called when it returns or raises, its
  statements are run on a trace: the list of the calls made so far to the array
  constructors \<^verbatim>\<open>np.random.random\<close> and \<^verbatim>\<open>np.zeros\<close> (with the shape asked for) and to
  the library routines. A statement takes the trace and gives its outcome and the
  extended trace; an exception ends the sequence and keeps the trace reached.
\<close>

datatype call = NpRandom nat nat | NpZeros nat nat | RandomizedSvd | Nmf | Normalize

type_synonym 'a traced = "call list \<Rightarrow> (error + 'a) \<times> call list"

definition calling :: "call list \<Rightarrow> error + 'a \<Rightarrow> 'a traced" where
  "calling cs outcome t = (outcome, t @ cs)"

definition then_do :: "'a traced \<Rightarrow> ('a \<Rightarrow> 'b traced) \<Rightarrow> 'b traced" where
  "then_do stmt rest t =
     (case stmt t of (Inl e, t') \<Rightarrow> (Inl e, t') | (Inr x, t') \<Rightarrow> rest x t')"

text \<open>
  A statement that calls none of these routines (an unpacking, a \<^verbatim>\<open>return\<close>, a
  \<^verbatim>\<open>raise\<close>) leaves the trace as it is.
\<close>

definition evaluate :: "error + 'a \<Rightarrow> 'a traced" where
  "evaluate outcome t = (outcome, t)"

text \<open>
  \<^verbatim>\<open>p_z_given_d, p_w_given_z = init\<close>: unpacking a tuple or list that does not have two
  items raises \<^verbatim>\<open>ValueError\<close>.
\<close>

definition unpack_pair :: "init_value list \<Rightarrow> error + (init_value \<times> init_value)" where
  "unpack_pair xs = (case xs of [a, b] \<Rightarrow> Inr (a, b) | _ \<Rightarrow> Inl ValueError)"

text \<open>The two \<^verbatim>\<open>normalize\<close> calls and the \<^verbatim>\<open>return\<close> that end every branch but the last.\<close>

definition init_finish ::
  "library \<Rightarrow> init_value \<Rightarrow> init_value \<Rightarrow> (init_value \<times> init_value) traced" where
  "init_finish lib p_z_given_d p_w_given_z =
     then_do (calling [Normalize] (normalize_rows lib p_w_given_z)) (\<lambda>W.
     then_do (calling [Normalize] (normalize_rows lib p_z_given_d)) (\<lambda>D.
       evaluate (Inr (D, W))))"

text \<open>
  \<^verbatim>\<open>plsa_init\<close>. The comparisons \<^verbatim>\<open>init == "random"\<close>, \<^verbatim>\<open>"nndsvd"\<close>, \<^verbatim>\<open>"nmf"\<close> hold for
  these strings only; \<^verbatim>\<open>isinstance(init, tuple) or isinstance(init, list)\<close> holds for
  every tuple and list, whatever it contains; everything else reaches the \<^verbatim>\<open>raise\<close>. The
  \<^verbatim>\<open>nndsvd\<close> branch creates its two arrays with \<^verbatim>\<open>np.zeros\<close> right after the SVD.
\<close>

definition plsa_init ::
  "library \<Rightarrow> coo_matrix \<Rightarrow> nat \<Rightarrow> init_value \<Rightarrow> (init_value \<times> init_value) traced" where
  "plsa_init lib X k init =
     (let n = fst (shape X); m = snd (shape X) in
      if init = VStr ''random'' then
        then_do (calling [NpRandom k m] (Inr (np_random lib 0 k m))) (\<lambda>p_w_given_z.
        then_do (calling [NpRandom n k] (Inr (np_random lib 1 n k))) (\<lambda>p_z_given_d.
          init_finish lib (VArray p_z_given_d) (VArray p_w_given_z)))
      else if init = VStr ''nndsvd'' then
        then_do (calling [RandomizedSvd] (randomized_svd lib X k)) (\<lambda>(U, S, V).
        then_do (calling [NpZeros (nrows U) (ncols U), NpZeros (nrows V) (ncols V)]
                   (nndsvd U S V k)) (\<lambda>(p_z_given_d, p_w_given_z).
          init_finish lib (VArray p_z_given_d) (VArray p_w_given_z)))
      else if init = VStr ''nmf'' then
        then_do (calling [Nmf] (non_negative_factorization lib X k))
          (\<lambda>(p_z_given_d, p_w_given_z).
          init_finish lib (VArray p_z_given_d) (VArray p_w_given_z))
      else
        (case init of
           VTuple xs \<Rightarrow>
             then_do (evaluate (unpack_pair xs)) (\<lambda>(p_z_given_d, p_w_given_z).
               init_finish lib p_z_given_d p_w_given_z)
         | VList xs \<Rightarrow>
             then_do (evaluate (unpack_pair xs)) (\<lambda>(p_z_given_d, p_w_given_z).
               init_finish lib p_z_given_d p_w_given_z)
         | _ \<Rightarrow> evaluate (Inl ValueError)))"

text \<open>
  \<^verbatim>\<open>plsa_fit\<close>: initialise, take the COO arrays of \<^verbatim>\<open>X\<close>, run the loop. The compiled
  \<^verbatim>\<open>plsa_fit_inner\<close> rejects an argument that is not an array with a typing error.
\<close>

definition plsa_fit ::
  "library \<Rightarrow> coo_matrix \<Rightarrow> nat \<Rightarrow> init_value \<Rightarrow> int \<Rightarrow> int \<Rightarrow> real \<Rightarrow> real
     \<Rightarrow> (matrix \<times> matrix) traced" where
  "plsa_fit lib X k init n_iter n_iter_per_test tolerance e_step_thresh =
     then_do (plsa_init lib X k init) (\<lambda>(p_z_given_d, p_w_given_z).
       case (p_z_given_d, p_w_given_z) of
         (VArray D, VArray W) \<Rightarrow>
           evaluate (plsa_fit_inner (coo_row X) (coo_col X) (coo_data X) W D
                       n_iter n_iter_per_test tolerance e_step_thresh)
       | _ \<Rightarrow> evaluate (Inl TypeError))"

subsection \<open>The estimator's \<^verbatim>\<open>transform\<close> method\<close>

text \<open>
  The values that occur as arguments of the call in \<^verbatim>\<open>PLSA.transform\<close>, and attribute
  access on the COO matrix. The scipy class has the attributes \<^verbatim>\<open>row\<close>, \<^verbatim>\<open>col\<close>,
  \<^verbatim>\<open>data\<close> and \<^verbatim>\<open>shape\<close> modelled here and others this file never reads; it has none
  called \<^verbatim>\<open>vals\<close>, and a missing attribute raises \<^verbatim>\<open>AttributeError\<close>.
\<close>

datatype py_value =
  PyIntArray "nat list" | PyFloatArray "real list" | PyMatrix matrix
  | PyInt int | PyFloat real | PyTuple "py_value list"

definition coo_getattr :: "coo_matrix \<Rightarrow> string \<Rightarrow> error + py_value" where
  "coo_getattr X name =
     (if name = ''row'' then Inr (PyIntArray (coo_row X))
      else if name = ''col'' then Inr (PyIntArray (coo_col X))
      else if name = ''data'' then Inr (PyFloatArray (coo_data X))
      else if name = ''shape''
        then Inr (PyTuple [PyInt (int (fst (shape X))), PyInt (int (snd (shape X)))])
      else Inl AttributeError)"

text \<open>
  The estimator object: \<^verbatim>\<open>components_\<close> exists once \<^verbatim>\<open>fit_transform\<close> has run.
\<close>

record plsa_estimator =
  components :: "matrix option"

definition get_components :: "plsa_estimator \<Rightarrow> error + py_value" where
  "get_components self =
     (case components self of None \<Rightarrow> Inl AttributeError | Some V \<Rightarrow> Inr (PyMatrix V))"

text \<open>
  The call \<^verbatim>\<open>plsa_refit(X.row, X.col, X.vals, n, m, self.components_, n_iter=50,
  n_iter_per_test=5, tolerance=0.001)\<close>: its argument expressions, evaluated from left to
  right, and the parameter list of \<^verbatim>\<open>plsa_refit\<close> they are bound to.
\<close>

datatype arg_expr = Attr string | Dim_n | Dim_m | Components | Literal py_value

definition transform_args :: "arg_expr list" where
  "transform_args = [Attr ''row'', Attr ''col'', Attr ''vals'', Dim_n, Dim_m, Components]"

definition transform_keywords :: "(string \<times> arg_expr) list" where
  "transform_keywords =
     [(''n_iter'', Literal (PyInt 50)), (''n_iter_per_test'', Literal (PyInt 5)),
      (''tolerance'', Literal (PyFloat (1/1000)))]"

definition plsa_refit_params :: "string list" where
  "plsa_refit_params =
     [''X_rows'', ''X_cols'', ''X_vals'', ''topics'', ''n_documents'', ''n_iter'',
      ''n_iter_per_test'', ''tolerance'', ''e_step_thresh'']"

definition eval_arg :: "coo_matrix \<Rightarrow> plsa_estimator \<Rightarrow> arg_expr \<Rightarrow> error + py_value" where
  "eval_arg X self a =
     (case a of
        Attr name \<Rightarrow> coo_getattr X name
      | Dim_n \<Rightarrow> Inr (PyInt (int (fst (shape X))))
      | Dim_m \<Rightarrow> Inr (PyInt (int (snd (shape X))))
      | Components \<Rightarrow> get_components self
      | Literal v \<Rightarrow> Inr v)"

fun eval_all :: "('a \<Rightarrow> error + 'b) \<Rightarrow> 'a list \<Rightarrow> error + 'b list" where
  "eval_all f [] = Inr []"
| "eval_all f (x # xs) =
     and_then (f x) (\<lambda>v. and_then (eval_all f xs) (\<lambda>vs. Inr (v # vs)))"

text \<open>
  Python's binding of a call: positional values go to the parameters in order; too many
  of them, a keyword that names no parameter, or a keyword for a parameter that a
  positional value already fills, raise \<^verbatim>\<open>TypeError\<close>.
\<close>

definition bind_arguments ::
  "string list \<Rightarrow> py_value list \<Rightarrow> (string \<times> py_value) list
     \<Rightarrow> error + (string \<times> py_value) list" where
  "bind_arguments params positional keywords =
     (if length positional > length params then Inl TypeError
      else if list_ex (\<lambda>(name, v). name \<notin> set params) keywords then Inl TypeError
      else if list_ex (\<lambda>(name, v). name \<in> set (take (length positional) params)) keywords
        then Inl TypeError
      else Inr (zip params positional @ keywords))"

text \<open>
  Entering \<^verbatim>\<open>plsa_refit\<close> with bound arguments: the compiled function accepts index
  arrays, a value array, a matrix, integers and a float, and rejects anything else with a
  typing error; \<^verbatim>\<open>e_step_thresh\<close> defaults to \<^verbatim>\<open>1e-16\<close>.
\<close>

definition call_plsa_refit ::
  "(matrix \<Rightarrow> error + matrix) \<Rightarrow> (nat \<Rightarrow> nat \<Rightarrow> matrix) \<Rightarrow> (string \<times> py_value) list
     \<Rightarrow> error + matrix" where
  "call_plsa_refit normalize_fn random_draw bound =
     (case (map_of bound ''X_rows'', map_of bound ''X_cols'', map_of bound ''X_vals'',
            map_of bound ''topics'', map_of bound ''n_documents'', map_of bound ''n_iter'',
            map_of bound ''n_iter_per_test'', map_of bound ''tolerance'') of
        (Some (PyIntArray X_rows), Some (PyIntArray X_cols), Some (PyFloatArray X_vals),
         Some (PyMatrix topics), Some (PyInt n_documents), Some (PyInt n_iter),
         Some (PyInt n_iter_per_test), Some (PyFloat tolerance)) \<Rightarrow>
          if n_documents < 0 then Inl ValueError
          else plsa_refit normalize_fn random_draw X_rows X_cols X_vals topics
                 (nat n_documents) n_iter n_iter_per_test tolerance
                 (case map_of bound ''e_step_thresh'' of
                    Some (PyFloat t) \<Rightarrow> t | _ \<Rightarrow> 1 / 10 ^ 16)
      | _ \<Rightarrow> Inl TypeError)"

text \<open>
  \<^verbatim>\<open>PLSA.transform\<close>. \<open>validate\<close> stands for sklearn's \<^verbatim>\<open>check_array\<close> followed by the
  conversion to COO format (\<^verbatim>\<open>coo_matrix(X)\<close> or \<^verbatim>\<open>X.tocoo()\<close>).
\<close>

definition transform ::
  "('x \<Rightarrow> error + coo_matrix) \<Rightarrow> (matrix \<Rightarrow> error + matrix) \<Rightarrow> (nat \<Rightarrow> nat \<Rightarrow> matrix)
     \<Rightarrow> plsa_estimator \<Rightarrow> 'x \<Rightarrow> error + matrix" where
  "transform validate normalize_fn random_draw self X =
     and_then (validate X) (\<lambda>X.
     and_then (eval_all (eval_arg X self) transform_args) (\<lambda>positional.
     and_then (eval_all (\<lambda>(name, a). and_then (eval_arg X self a) (\<lambda>v. Inr (name, v)))
                 transform_keywords) (\<lambda>keywords.
     and_then (bind_arguments plsa_refit_params positional keywords) (\<lambda>bound.
       call_plsa_refit normalize_fn random_draw bound))))"

section \<open>Vocabulary of the statements\<close>

text \<open>
  The product \<open>P(w|z) P(z|d)\<close> the E-step compares with its threshold, and properties of
  rows and matrices.
\<close>

definition joint :: "matrix \<Rightarrow> matrix \<Rightarrow> nat \<Rightarrow> nat \<Rightarrow> nat \<Rightarrow> real" where
  "joint W D d w z = rws W ! z ! w * rws D ! d ! z"

definition nonneg_matrix :: "matrix \<Rightarrow> bool" where
  "nonneg_matrix M = list_all (list_all (\<lambda>v. 0 \<le> v)) (rws M)"

definition is_distribution :: "real list \<Rightarrow> bool" where
  "is_distribution r \<longleftrightarrow> list_all (\<lambda>v. 0 \<le> v) r \<and> sum_list r = 1"

definition all_zero :: "real list \<Rightarrow> bool" where
  "all_zero r = list_all (\<lambda>v. v = 0) r"

text \<open>
  Consistent shapes for one EM iteration over \<open>nnz\<close> entries, \<open>k\<close> topics, \<open>n\<close> documents
  and \<open>m\<close> words: the three entry arrays have length \<open>nnz\<close>, every row index is below
  \<open>n\<close> and every column index below \<open>m\<close>, and the topic-word, doc-topic and posterior
  arrays are rectangular of shapes \<open>(k, m)\<close>, \<open>(n, k)\<close> and \<open>(nnz, k)\<close>. These are the
  shapes \<^verbatim>\<open>plsa_fit_inner\<close> works with.
\<close>

definition em_shapes ::
  "nat list \<Rightarrow> nat list \<Rightarrow> real list \<Rightarrow> matrix \<Rightarrow> matrix \<Rightarrow> matrix \<Rightarrow> bool" where
  "em_shapes X_rows X_cols X_vals W D P \<longleftrightarrow>
     length X_rows = length X_vals \<and> length X_cols = length X_vals \<and>
     list_all (\<lambda>d. d < nrows D) X_rows \<and> list_all (\<lambda>w. w < ncols W) X_cols \<and>
     wf_matrix W \<and> wf_matrix D \<and> wf_matrix P \<and>
     ncols D = nrows W \<and> ncols P = nrows W \<and> nrows P = length X_vals"

text \<open>
  The mass the first \<open>i\<close> entries give to a topic, \<open>\<Sum> x\<^sub>j P(z|w\<^sub>j,d\<^sub>j)\<close>, and to a
  document, \<open>\<Sum> x\<^sub>j \<Sum>\<^sub>z P(z|w\<^sub>j,d\<^sub>j)\<close> over the entries \<open>j\<close> of that document.
\<close>

definition topic_mass :: "real list \<Rightarrow> matrix \<Rightarrow> nat \<Rightarrow> nat \<Rightarrow> real" where
  "topic_mass X_vals P i z = (\<Sum>j\<leftarrow>[0..<i]. X_vals ! j * rws P ! j ! z)"

definition doc_mass :: "nat list \<Rightarrow> real list \<Rightarrow> matrix \<Rightarrow> nat \<Rightarrow> nat \<Rightarrow> real" where
  "doc_mass X_rows X_vals P i d =
     (\<Sum>j\<leftarrow>[0..<i]. if X_rows ! j = d then X_vals ! j * sum_list (rws P ! j) else 0)"

text \<open>
  The posterior of one entry without a threshold, after the specification: store
  \<open>P(w|z) P(z|d)\<close> for every topic and normalise by the row sum, leaving the row as it is
  when that sum is 0.
\<close>

definition posterior_unthresholded :: "matrix \<Rightarrow> matrix \<Rightarrow> nat \<Rightarrow> nat \<Rightarrow> real list" where
  "posterior_unthresholded W D d w =
     (let vs = map (joint W D d w) [0..<nrows W]; s = sum_list vs
      in if s = 0 then vs else map (\<lambda>v. v / s) vs)"

text \<open>
  The stopping test at a checkpoint, \<^verbatim>\<open>change / np.abs(current_log_likelihood) < tolerance\<close>,
  holds: the quotient is defined and below the tolerance.
\<close>

definition test_passes :: "real \<Rightarrow> checkpoint \<Rightarrow> bool" where
  "test_passes tolerance c =
     (case rel_change c of Inr ratio \<Rightarrow> f_less ratio (Finite tolerance) | Inl e \<Rightarrow> False)"

text \<open>
  Iterating a fallible step on the arrays of a loop, and the arrays the two loops start
  from.
\<close>

fun em_iterate ::
  "(em_arrays \<Rightarrow> error + em_arrays) \<Rightarrow> nat \<Rightarrow> em_arrays \<Rightarrow> error + em_arrays" where
  "em_iterate step 0 a = Inr a"
| "em_iterate step (Suc n) a = and_then (em_iterate step n a) step"

definition fit_initial_arrays :: "real list \<Rightarrow> matrix \<Rightarrow> matrix \<Rightarrow> em_arrays" where
  "fit_initial_arrays X_vals W D =
     \<lparr>topic_word = W, doc_topic = D, posterior = zeros (length X_vals) (ncols D),
      norm_topic = replicate (ncols D) 0, norm_doc = replicate (nrows D) 0\<rparr>"

definition refit_initial_arrays :: "real list \<Rightarrow> matrix \<Rightarrow> matrix \<Rightarrow> nat \<Rightarrow> em_arrays" where
  "refit_initial_arrays X_vals topics D n_documents =
     \<lparr>topic_word = topics, doc_topic = D, posterior = zeros (length X_vals) (nrows topics),
      norm_topic = [], norm_doc = replicate n_documents 0\<rparr>"

text \<open>
  For the NNDSVD initialisation, after the specification: positive and negative part of a
  vector, Euclidean norm, unit vector, and component \<open>j\<close> of the two matrices holding the
  scaled unit vectors of the dominant parts.
\<close>

definition positive_part :: "real list \<Rightarrow> real list" where
  "positive_part x = map (\<lambda>v. max v 0) x"

definition negative_part :: "real list \<Rightarrow> real list" where
  "negative_part x = map (\<lambda>v. max (- v) 0) x"

definition euclidean_norm :: "real list \<Rightarrow> real" where
  "euclidean_norm x = sqrt (sum_list (map (\<lambda>v. v ^ 2) x))"

definition unit_vector :: "real list \<Rightarrow> real list" where
  "unit_vector x = map (\<lambda>v. v / euclidean_norm x) x"

definition nndsvd_assigned ::
  "matrix \<Rightarrow> real list \<Rightarrow> matrix \<Rightarrow> nat \<Rightarrow> matrix \<times> matrix \<Rightarrow> bool" where
  "nndsvd_assigned U S V j st \<longleftrightarrow>
     (case st of (D, W) \<Rightarrow>
        \<exists>x y. get_column U j = Inr x \<and> get_row V j = Inr y \<and>
          (let m_p = euclidean_norm (positive_part x) * euclidean_norm (positive_part y);
               m_n = euclidean_norm (negative_part x) * euclidean_norm (negative_part y);
               lbd = sqrt (S ! j * max m_p m_n)
           in get_column D j =
                Inr (scale lbd (unit_vector (if m_p > m_n then positive_part x
                                             else negative_part x))) \<and>
              get_row W j =
                Inr (scale lbd (unit_vector (if m_p > m_n then positive_part y
                                             else negative_part y)))))"

text \<open>
  For \<^verbatim>\<open>plsa_init\<close>: the three mode strings; a tuple or list, and its items; a pair of
  arrays; an outcome that is an exception (every error but \<open>NonFinite\<close>, which stands
  for a value the source computes); and library routines that return: \<^verbatim>\<open>normalize\<close> an
  array for every array, the factorization two arrays, and the SVD \<open>k\<close> components, with
  factors of the shapes \<open>(n, k)\<close>, \<open>(k)\<close> and \<open>(k, m)\<close>.
\<close>

definition mode_string :: "init_value \<Rightarrow> bool" where
  "mode_string init \<longleftrightarrow>
     init = VStr ''random'' \<or> init = VStr ''nndsvd'' \<or> init = VStr ''nmf''"

fun is_sequence :: "init_value \<Rightarrow> bool" where
  "is_sequence (VTuple xs) = True"
| "is_sequence (VList xs) = True"
| "is_sequence v = False"

fun items :: "init_value \<Rightarrow> init_value list" where
  "items (VTuple xs) = xs"
| "items (VList xs) = xs"
| "items v = []"

fun is_array :: "init_value \<Rightarrow> bool" where
  "is_array (VArray M) = True"
| "is_array v = False"

definition array_pair :: "init_value \<Rightarrow> bool" where
  "array_pair init \<longleftrightarrow>
     is_sequence init \<and> length (items init) = 2 \<and> list_all is_array (items init)"

definition raises :: "error + 'a \<Rightarrow> bool" where
  "raises r = (case r of Inl e \<Rightarrow> e \<noteq> NonFinite | Inr x \<Rightarrow> False)"

definition library_returns :: "library \<Rightarrow> coo_matrix \<Rightarrow> nat \<Rightarrow> bool" where
  "library_returns lib X k \<longleftrightarrow>
     (\<forall>M. \<exists>M'. normalize_rows lib (VArray M) = Inr (VArray M')) \<and>
     (\<exists>U S V. randomized_svd lib X k = Inr (U, S, V) \<and> wf_matrix U \<and> wf_matrix V \<and>
        nrows U = fst (shape X) \<and> ncols U = k \<and> length S = k \<and>
        nrows V = k \<and> ncols V = snd (shape X)) \<and>
     (\<exists>D W. non_negative_factorization lib X k = Inr (D, W))"

section \<open>Auxiliary definitions of the proofs\<close>

text \<open>The E-step in closed form: the value stored for a topic, and the finished row.\<close>

definition e_stored :: "matrix \<Rightarrow> matrix \<Rightarrow> real \<Rightarrow> nat \<Rightarrow> nat \<Rightarrow> nat \<Rightarrow> real" where
  "e_stored W D thr d w z =
     (let v = rws W ! z ! w * rws D ! d ! z in if v > thr then v else 0)"

definition e_row :: "matrix \<Rightarrow> matrix \<Rightarrow> real \<Rightarrow> nat \<Rightarrow> nat \<Rightarrow> nat \<Rightarrow> real list" where
  "e_row W D thr k d w =
     (let st = map (e_stored W D thr d w) [0..<k]; nrm = sum_list st
      in if nrm > 0 then map (\<lambda>v. v / nrm) st else st)"

text \<open>
  The M-step: the cleared buffers; the invariants of the accumulation pass (shapes, and
  every row sum equal to its accumulator; the value of the accumulators when entry \<open>i\<close>
  has been added for the topics below \<open>z\<close>); the guarded division of a whole row, of a
  prefix of a row, and of one cell.
\<close>

definition m_zero_buffers :: "matrix \<Rightarrow> matrix \<Rightarrow> real list \<Rightarrow> real list \<Rightarrow> m_buffers" where
  "m_zero_buffers W D nw nd =
     \<lparr>pwz = fill_zero W, pzd = fill_zero D,
      npwz = replicate (length nw) 0, npdz = replicate (length nd) 0\<rparr>"

definition m_acc_inv :: "nat \<Rightarrow> nat \<Rightarrow> nat \<Rightarrow> m_buffers \<Rightarrow> bool" where
  "m_acc_inv k m n b \<longleftrightarrow>
     nrows (pwz b) = k \<and> ncols (pwz b) = m \<and> wf_matrix (pwz b) \<and>
     nrows (pzd b) = n \<and> ncols (pzd b) = k \<and> wf_matrix (pzd b) \<and>
     length (npwz b) = k \<and> length (npdz b) = n \<and>
     (\<forall>z<k. sum_list (rws (pwz b) ! z) = npwz b ! z) \<and>
     (\<forall>d<n. sum_list (rws (pzd b) ! d) = npdz b ! d)"

definition m_acc_val ::
  "nat list \<Rightarrow> real list \<Rightarrow> matrix \<Rightarrow> nat \<Rightarrow> nat \<Rightarrow> nat \<Rightarrow> nat \<Rightarrow> m_buffers \<Rightarrow> bool" where
  "m_acc_val X_rows X_vals P k n i z b \<longleftrightarrow>
     (\<forall>z'<k. npwz b ! z' = topic_mass X_vals P i z'
                + (if z' < z then X_vals ! i * rws P ! i ! z' else 0)) \<and>
     (\<forall>d<n. npdz b ! d = doc_mass X_rows X_vals P i d
                + (if X_rows ! i = d then X_vals ! i * sum_list (take z (rws P ! i)) else 0))"

definition norm_row :: "real \<Rightarrow> real list \<Rightarrow> real list" where
  "norm_row c r = (if c > 0 then map (\<lambda>v. v / c) r else r)"

definition norm_prefix :: "nat \<Rightarrow> real \<Rightarrow> real list \<Rightarrow> real list" where
  "norm_prefix j c r = (if c > 0 then map (\<lambda>v. v / c) (take j r) @ drop j r else r)"

definition div_cell :: "nat \<Rightarrow> real \<Rightarrow> real list \<Rightarrow> real list" where
  "div_cell z c r = (if c > 0 then r[z := r ! z / c] else r)"

text \<open>
  The loops: the state inside a \<open>ctl\<close>; the log-likelihood of the model in the arrays;
  the consistency of the observed run with the iteration (\<open>run_ok\<close>); the chain of
  previous values; and the invariants at the head of the loop and after a \<^verbatim>\<open>break\<close>,
  for \<^verbatim>\<open>plsa_fit_inner\<close> and for \<^verbatim>\<open>plsa_refit\<close>.
\<close>

fun ctl_state :: "'s ctl \<Rightarrow> 's" where
  "ctl_state (Continue s) = s"
| "ctl_state (Break s) = s"

definition model_ll ::
  "nat list \<Rightarrow> nat list \<Rightarrow> real list \<Rightarrow> em_arrays \<Rightarrow> error + float64" where
  "model_ll X_rows X_cols X_vals a =
     log_likelihood X_rows X_cols X_vals (topic_word a) (doc_topic a)"

definition run_ok ::
  "(em_arrays \<Rightarrow> error + em_arrays) \<Rightarrow> (em_arrays \<Rightarrow> error + float64) \<Rightarrow> int \<Rightarrow> em_arrays
     \<Rightarrow> loop_state \<Rightarrow> bool" where
  "run_ok step ll n_iter_per_test a0 r \<longleftrightarrow>
     em_iterate step (iterations r) a0 = Inr (arrays r) \<and>
     map at_iter (checkpoints r) =
       filter (\<lambda>j. int j mod n_iter_per_test = 0) [0..<iterations r] \<and>
     (\<forall>c\<in>set (checkpoints r).
        \<exists>a. em_iterate step (Suc (at_iter c)) a0 = Inr a \<and> ll a = Inr (current_ll c))"

definition ll_chain :: "float64 \<Rightarrow> checkpoint list \<Rightarrow> bool" where
  "ll_chain L0 cs \<longleftrightarrow> map previous_ll cs = butlast (L0 # map current_ll cs)"

definition fit_head ::
  "(em_arrays \<Rightarrow> error + em_arrays) \<Rightarrow> (em_arrays \<Rightarrow> error + float64) \<Rightarrow> int \<Rightarrow> real
     \<Rightarrow> em_arrays \<Rightarrow> float64 \<Rightarrow> nat \<Rightarrow> loop_state \<Rightarrow> bool" where
  "fit_head step ll n_iter_per_test tolerance a0 L0 i s \<longleftrightarrow>
     run_ok step ll n_iter_per_test a0 s \<and> iterations s = i \<and> \<not> converged s \<and>
     (\<forall>c\<in>set (checkpoints s). tested c \<and> current_ll c \<noteq> Finite 0 \<and> \<not> test_passes tolerance c) \<and>
     ll_chain L0 (checkpoints s) \<and>
     previous_log_likelihood s = last (L0 # map current_ll (checkpoints s))"

definition fit_broke ::
  "(em_arrays \<Rightarrow> error + em_arrays) \<Rightarrow> (em_arrays \<Rightarrow> error + float64) \<Rightarrow> int \<Rightarrow> real
     \<Rightarrow> em_arrays \<Rightarrow> float64 \<Rightarrow> nat \<Rightarrow> loop_state \<Rightarrow> bool" where
  "fit_broke step ll n_iter_per_test tolerance a0 L0 i r \<longleftrightarrow>
     run_ok step ll n_iter_per_test a0 r \<and> iterations r = Suc i \<and> converged r \<and>
     checkpoints r \<noteq> [] \<and> at_iter (last (checkpoints r)) = i \<and>
     test_passes tolerance (last (checkpoints r)) \<and>
     (\<forall>c\<in>set (checkpoints r). tested c \<and> current_ll c \<noteq> Finite 0) \<and>
     (\<forall>c\<in>set (butlast (checkpoints r)). \<not> test_passes tolerance c) \<and>
     ll_chain L0 (checkpoints r)"

definition refit_checks :: "real \<Rightarrow> checkpoint list \<Rightarrow> bool" where
  "refit_checks tolerance cs \<longleftrightarrow>
     (\<forall>c\<in>set cs. (tested c \<longleftrightarrow> f_less (Finite 0) (current_ll c)) \<and> (tested c \<longrightarrow> \<not> test_passes tolerance c))"

definition refit_head ::
  "(em_arrays \<Rightarrow> error + em_arrays) \<Rightarrow> (em_arrays \<Rightarrow> error + float64) \<Rightarrow> int \<Rightarrow> real
     \<Rightarrow> em_arrays \<Rightarrow> nat \<Rightarrow> loop_state \<Rightarrow> bool" where
  "refit_head step ll n_iter_per_test tolerance a0 i s \<longleftrightarrow>
     run_ok step ll n_iter_per_test a0 s \<and> iterations s = i \<and> \<not> converged s \<and>
     refit_checks tolerance (checkpoints s)"

definition refit_broke ::
  "(em_arrays \<Rightarrow> error + em_arrays) \<Rightarrow> (em_arrays \<Rightarrow> error + float64) \<Rightarrow> int \<Rightarrow> real
     \<Rightarrow> em_arrays \<Rightarrow> nat \<Rightarrow> loop_state \<Rightarrow> bool" where
  "refit_broke step ll n_iter_per_test tolerance a0 i r \<longleftrightarrow>
     run_ok step ll n_iter_per_test a0 r \<and> iterations r = Suc i \<and> converged r \<and>
     checkpoints r \<noteq> [] \<and> at_iter (last (checkpoints r)) = i \<and>
     tested (last (checkpoints r)) \<and> f_less (Finite 0) (current_ll (last (checkpoints r))) \<and>
     test_passes tolerance (last (checkpoints r)) \<and>
     refit_checks tolerance (butlast (checkpoints r))"

text \<open>
  The shapes that every iteration of the two loops keeps, and the shapes of the buffers
  inside \<^verbatim>\<open>plsa_refit_m_step\<close>.
\<close>

definition fit_inv :: "nat list \<Rightarrow> nat list \<Rightarrow> real list \<Rightarrow> em_arrays \<Rightarrow> bool" where
  "fit_inv X_rows X_cols X_vals a \<longleftrightarrow>
     em_shapes X_rows X_cols X_vals (topic_word a) (doc_topic a) (posterior a) \<and>
     length (norm_topic a) = nrows (topic_word a) \<and>
     length (norm_doc a) = nrows (doc_topic a)"

definition refit_inv :: "nat list \<Rightarrow> nat list \<Rightarrow> real list \<Rightarrow> em_arrays \<Rightarrow> bool" where
  "refit_inv X_rows X_cols X_vals a \<longleftrightarrow>
     em_shapes X_rows X_cols X_vals (topic_word a) (doc_topic a) (posterior a) \<and>
     length (norm_doc a) = nrows (doc_topic a)"

definition refit_buf_inv :: "matrix \<Rightarrow> nat \<Rightarrow> nat \<Rightarrow> refit_buffers \<Rightarrow> bool" where
  "refit_buf_inv topics k n b \<longleftrightarrow>
     rb_pwz b = topics \<and> wf_matrix (rb_pzd b) \<and> nrows (rb_pzd b) = n \<and>
     ncols (rb_pzd b) = k \<and> length (rb_npdz b) = n"

text \<open>NNDSVD: the shapes of the two matrices under construction.\<close>

definition nndsvd_shapes :: "matrix \<Rightarrow> matrix \<Rightarrow> matrix \<times> matrix \<Rightarrow> bool" where
  "nndsvd_shapes U V st \<longleftrightarrow>
     (case st of (D, W) \<Rightarrow>
        wf_matrix D \<and> nrows D = nrows U \<and> ncols D = ncols U \<and>
        wf_matrix W \<and> nrows W = nrows V \<and> ncols W = ncols V)"

section \<open>Example inputs\<close>

text \<open>
  A corpus of one document and two words with counts 3 and 1, and a two-topic model that
  is a fixed point of the EM iteration; its log-likelihood is \<open>3 ln (3/4) + ln (1/4)\<close>.
\<close>

definition ex_rows :: "nat list" where "ex_rows = [0, 0]"

definition ex_cols :: "nat list" where "ex_cols = [0, 1]"

definition ex_vals :: "real list" where "ex_vals = [3, 1]"

definition ex_topic_word :: matrix where
  "ex_topic_word = \<lparr>ncols = 2, rws = [[1/2, 1/2], [1, 0]]\<rparr>"

definition ex_doc_topic :: matrix where
  "ex_doc_topic = \<lparr>ncols = 2, rws = [[1/2, 1/2]]\<rparr>"

definition ex_posterior :: matrix where
  "ex_posterior = \<lparr>ncols = 2, rws = [[1/3, 2/3], [1, 0]]\<rparr>"

definition ex_arrays :: em_arrays where
  "ex_arrays = \<lparr>topic_word = ex_topic_word, doc_topic = ex_doc_topic,
      posterior = ex_posterior, norm_topic = [2, 2], norm_doc = [4]\<rparr>"

definition ex_ll :: real where
  "ex_ll = 3 * ln (3/4) + ln (1/4)"

definition ex_fit_converged :: loop_state where
  "ex_fit_converged =
     \<lparr>arrays = ex_arrays, previous_log_likelihood = Finite ex_ll, iterations = 1,
      checkpoints = [\<lparr>at_iter = 0, current_ll = Finite ex_ll, previous_ll = Finite ex_ll, tested = True\<rparr>],
      converged = True\<rparr>"

definition ex_fit_exhausted :: loop_state where
  "ex_fit_exhausted =
     \<lparr>arrays = ex_arrays, previous_log_likelihood = Finite ex_ll, iterations = 2,
      checkpoints = [\<lparr>at_iter = 0, current_ll = Finite ex_ll, previous_ll = Finite ex_ll, tested = True\<rparr>,
                     \<lparr>at_iter = 1, current_ll = Finite ex_ll, previous_ll = Finite ex_ll, tested = True\<rparr>],
      converged = False\<rparr>"

text \<open>
  The same corpus with topics that give word 1 the probability 0: the mixture of the
  second entry is 0 and the log-likelihood is \<^verbatim>\<open>-inf\<close>. The model is again a fixed point,
  of the EM iteration and of the refit iteration.
\<close>

definition ex_inf_topics :: matrix where
  "ex_inf_topics = \<lparr>ncols = 2, rws = [[1, 0], [1, 0]]\<rparr>"

definition ex_inf_posterior :: matrix where
  "ex_inf_posterior = \<lparr>ncols = 2, rws = [[1/2, 1/2], [0, 0]]\<rparr>"

definition ex_inf_arrays :: em_arrays where
  "ex_inf_arrays = \<lparr>topic_word = ex_inf_topics, doc_topic = ex_doc_topic,
      posterior = ex_inf_posterior, norm_topic = [3/2, 3/2], norm_doc = [3]\<rparr>"

definition ex_inf_fit_result :: loop_state where
  "ex_inf_fit_result =
     \<lparr>arrays = ex_inf_arrays, previous_log_likelihood = NegInf, iterations = 2,
      checkpoints = [\<lparr>at_iter = 0, current_ll = NegInf, previous_ll = NegInf, tested = True\<rparr>,
                     \<lparr>at_iter = 1, current_ll = NegInf, previous_ll = NegInf, tested = True\<rparr>],
      converged = False\<rparr>"

definition ex_inf_refit_arrays :: em_arrays where
  "ex_inf_refit_arrays = \<lparr>topic_word = ex_inf_topics, doc_topic = ex_doc_topic,
      posterior = ex_inf_posterior, norm_topic = [], norm_doc = [3]\<rparr>"

definition ex_inf_refit_result :: loop_state where
  "ex_inf_refit_result =
     \<lparr>arrays = ex_inf_refit_arrays, previous_log_likelihood = NegInf, iterations = 2,
      checkpoints = [\<lparr>at_iter = 0, current_ll = NegInf, previous_ll = NegInf, tested = False\<rparr>,
                     \<lparr>at_iter = 1, current_ll = NegInf, previous_ll = NegInf, tested = False\<rparr>],
      converged = False\<rparr>"

text \<open>
  SVD factors with two components for a \<open>2 \<times> 2\<close> matrix, and library routines: a constant
  draw; an SVD that returns these two components, also when more are asked for; the
  example model as NMF result; and a \<^verbatim>\<open>normalize\<close> that divides each row of an array by its
  sum and rejects a value that is not an array with a typing error.
\<close>

definition ex_U :: matrix where "ex_U = \<lparr>ncols = 2, rws = [[1, 1], [0, - 1]]\<rparr>"

definition ex_S :: "real list" where "ex_S = [1, 4]"

definition ex_V :: matrix where "ex_V = \<lparr>ncols = 2, rws = [[1, 0], [0, 1]]\<rparr>"

definition ex_X :: coo_matrix where
  "ex_X = \<lparr>shape = (2, 2), coo_row = [0, 1], coo_col = [0, 1], coo_data = [1, 1]\<rparr>"

definition ex_normalize :: "init_value \<Rightarrow> error + init_value" where
  "ex_normalize v =
     (case v of
        VArray M \<Rightarrow> Inr (VArray (M\<lparr>rws := map (\<lambda>r. norm_row (sum_list r) r) (rws M)\<rparr>))
      | _ \<Rightarrow> Inl TypeError)"

definition ex_lib :: library where
  "ex_lib =
     \<lparr>np_random = (\<lambda>i r c. \<lparr>ncols = c, rws = replicate r (replicate c (1/2))\<rparr>),
      randomized_svd = (\<lambda>X k. Inr (ex_U, ex_S, ex_V)),
      non_negative_factorization = (\<lambda>X k. Inr (ex_doc_topic, ex_topic_word)),
      normalize_rows = ex_normalize\<rparr>"

section \<open>The EM kernels\<close>

lemma and_then_Inr [simp]: "and_then (Inr x) f = f x"
  by (simp add: and_then_def)

lemma and_then_Inl [simp]: "and_then (Inl e) f = Inl e"
  by (simp add: and_then_def)

lemma for_each_append:
  "for_each (xs @ ys) body s = and_then (for_each xs body s) (for_each ys body)"
  by (induction xs arbitrary: s) (auto split: sum.splits)

lemma for_each_upt_Suc:
  "for_each [0..<Suc n] body s = and_then (for_each [0..<n] body s) (body n)"
  by (cases "for_each [0..<n] body s") (simp_all add: for_each_append split: sum.splits)

lemma for_each_upt_inv:
  assumes "P 0 s0"
    and "\<And>i s. i < n \<Longrightarrow> P i s \<Longrightarrow> \<exists>s'. body i s = Inr s' \<and> P (Suc i) s'"
  shows "\<exists>s'. for_each [0..<n] body s0 = Inr s' \<and> P n s'"
  using assms(2)
proof (induction n)
  case 0
  then show ?case using assms(1) by simp
next
  case (Suc n)
  then obtain s1 where s1: "for_each [0..<n] body s0 = Inr s1" "P n s1"
    by (metis less_Suc_eq)
  from Suc.prems[of n s1] s1 obtain s2 where "body n s1 = Inr s2" "P (Suc n) s2"
    by auto
  with s1 show ?case by (simp add: for_each_upt_Suc del: upt_Suc)
qed

lemma mat_get_ok [simp]:
  "i < nrows M \<Longrightarrow> j < ncols M \<Longrightarrow> mat_get M i j = Inr (rws M ! i ! j)"
  by (simp add: mat_get_def)

lemma mat_set_ok [simp]:
  "i < nrows M \<Longrightarrow> j < ncols M \<Longrightarrow>
   mat_set M i j v = Inr (M\<lparr>rws := (rws M)[i := (rws M ! i)[j := v]]\<rparr>)"
  by (simp add: mat_set_def)

lemma vec_get_ok [simp]: "i < length xs \<Longrightarrow> vec_get xs i = Inr (xs ! i)"
  by (simp add: vec_get_def)

lemma vec_set_ok [simp]: "i < length xs \<Longrightarrow> vec_set xs i v = Inr (xs[i := v])"
  by (simp add: vec_set_def)

lemma nrows_upd [simp]: "nrows (M\<lparr>rws := xs\<rparr>) = length xs"
  by (simp add: nrows_def)

lemma wf_matrix_row: "wf_matrix M \<Longrightarrow> i < nrows M \<Longrightarrow> length (rws M ! i) = ncols M"
  by (simp add: wf_matrix_def nrows_def list_all_length)

lemma snoc_drop_update:
  "length A = j \<Longrightarrow> j < length r \<Longrightarrow> (A @ drop j r)[j := v] = A @ v # drop (Suc j) r"
  by (simp add: list_update_append Cons_nth_drop_Suc[symmetric])

lemma e_step_store_ok:
  assumes "z < nrows W" "w < ncols W" "d < nrows D" "z < ncols D"
    and "i < nrows P" "z < ncols P" "z < length (rws P ! i)"
  shows "e_step_store W D thr i d w z (P, nrm) =
         Inr (P\<lparr>rws := (rws P)[i := (rws P ! i)[z := e_stored W D thr d w z]]\<rparr>,
              nrm + e_stored W D thr d w z)"
  using assms by (simp add: e_step_store_def e_stored_def Let_def nrows_def)

lemma e_store_loop:
  assumes "d < nrows D" "w < ncols W" "k \<le> nrows W" "k \<le> ncols D"
    and "i < nrows P" "k \<le> ncols P" "length (rws P ! i) = ncols P"
    and "j \<le> k"
  shows "for_each [0..<j] (e_step_store W D thr i d w) (P, 0) =
         Inr (P\<lparr>rws := (rws P)[i := map (e_stored W D thr d w) [0..<j] @ drop j (rws P ! i)]\<rparr>,
              sum_list (map (e_stored W D thr d w) [0..<j]))"
  using assms(8)
proof (induction j)
  case 0
  then show ?case by simp
next
  case (Suc j)
  then have j: "j < k" by simp
  have len: "length (map (e_stored W D thr d w) [0..<j]) = j" by simp
  let ?P = "P\<lparr>rws := (rws P)[i := map (e_stored W D thr d w) [0..<j] @ drop j (rws P ! i)]\<rparr>"
  have step: "e_step_store W D thr i d w j (?P, nrm) =
         Inr (?P\<lparr>rws := (rws ?P)[i := (rws ?P ! i)[j := e_stored W D thr d w j]]\<rparr>,
              nrm + e_stored W D thr d w j)" for nrm
    using j assms(1-7) by (intro e_step_store_ok) (simp_all add: nrows_def)
  from Suc j have IH: "for_each [0..<j] (e_step_store W D thr i d w) (P, 0) =
      Inr (?P, sum_list (map (e_stored W D thr d w) [0..<j]))" by simp
  show ?case
    unfolding for_each_upt_Suc IH
    using j assms(1-7)
    by (simp add: step snoc_drop_update[OF len] nrows_def)
qed

lemma mat_div_ok:
  "i < nrows M \<Longrightarrow> j < ncols M \<Longrightarrow> d \<noteq> 0 \<Longrightarrow>
   mat_div M i j d = Inr (M\<lparr>rws := (rws M)[i := (rws M ! i)[j := rws M ! i ! j / d]]\<rparr>)"
  by (simp add: mat_div_def fdiv_def)

lemma map_take_drop_update:
  "j < length r \<Longrightarrow>
   (map f (take j r) @ drop j r)[j := f (r ! j)] = map f (take (Suc j) r) @ drop (Suc j) r"
  by (simp add: list_update_append take_Suc_conv_app_nth Cons_nth_drop_Suc[symmetric])

lemma e_normalize_loop:
  assumes "i < nrows P" "k \<le> ncols P" "length (rws P ! i) = ncols P" "j \<le> k" "nrm > 0"
  shows "for_each [0..<j] (e_step_normalize i nrm) P =
         Inr (P\<lparr>rws := (rws P)[i := map (\<lambda>v. v / nrm) (take j (rws P ! i)) @ drop j (rws P ! i)]\<rparr>)"
  using assms(4)
proof (induction j)
  case 0
  then show ?case by simp
next
  case (Suc j)
  let ?r = "rws P ! i"
  let ?P = "P\<lparr>rws := (rws P)[i := map (\<lambda>v. v / nrm) (take j ?r) @ drop j ?r]\<rparr>"
  from Suc have IH: "for_each [0..<j] (e_step_normalize i nrm) P = Inr ?P" and j: "j < k"
    by simp_all
  have jr: "j < length ?r" using j assms by simp
  show ?case
    unfolding for_each_upt_Suc IH
    using j assms(1-3,5) jr
    by (simp add: e_step_normalize_def mat_div_ok nrows_def nth_append
        map_take_drop_update[OF jr, of "\<lambda>v. v / nrm"])
qed

lemma e_normalize_loop_skip:
  "\<not> nrm > 0 \<Longrightarrow> for_each [0..<j] (e_step_normalize i nrm) P = Inr P"
  by (induction j) (simp_all add: for_each_upt_Suc e_step_normalize_def del: upt_Suc)

lemma e_step_entry_ok:
  assumes "i < length X_rows" "i < length X_cols"
    and "X_rows ! i < nrows D" "X_cols ! i < ncols W" "k \<le> nrows W" "k \<le> ncols D"
    and "i < nrows P" "ncols P = k" "length (rws P ! i) = k"
  shows "e_step_entry X_rows X_cols W D thr k i P =
         Inr (P\<lparr>rws := (rws P)[i := e_row W D thr k (X_rows ! i) (X_cols ! i)]\<rparr>)"
proof -
  let ?st = "map (e_stored W D thr (X_rows ! i) (X_cols ! i)) [0..<k]"
  let ?P1 = "P\<lparr>rws := (rws P)[i := ?st]\<rparr>"
  have fill: "for_each [0..<k] (e_step_store W D thr i (X_rows ! i) (X_cols ! i)) (P, 0) =
      Inr (?P1, sum_list ?st)"
    using e_store_loop[of "X_rows ! i" D "X_cols ! i" W k i P k thr] assms by simp
  have P1: "i < nrows ?P1" "k \<le> ncols ?P1" "length (rws ?P1 ! i) = ncols ?P1"
    using assms by (simp_all add: nrows_def)
  show ?thesis
  proof (cases "sum_list ?st > 0")
    case True
    have "for_each [0..<k] (e_step_normalize i (sum_list ?st)) ?P1 =
        Inr (?P1\<lparr>rws := (rws ?P1)[i := map (\<lambda>v. v / sum_list ?st) ?st]\<rparr>)"
      using e_normalize_loop[OF P1 le_refl True] assms by (simp add: nrows_def)
    with True fill assms show ?thesis
      by (simp add: e_step_entry_def e_row_def Let_def)
  next
    case False
    with fill assms show ?thesis
      by (simp add: e_step_entry_def e_row_def Let_def e_normalize_loop_skip)
  qed
qed

lemma plsa_e_step_rows:
  assumes "em_shapes X_rows X_cols X_vals W D P"
  shows "plsa_e_step X_rows X_cols X_vals W D P thr =
         Inr (P\<lparr>rws := map (\<lambda>i. e_row W D thr (nrows W) (X_rows ! i) (X_cols ! i))
                           [0..<length X_vals]\<rparr>)"
proof -
  let ?k = "nrows W"
  let ?row = "\<lambda>i. e_row W D thr ?k (X_rows ! i) (X_cols ! i)"
  have sh: "length X_rows = length X_vals" "length X_cols = length X_vals"
    "\<And>i. i < length X_vals \<Longrightarrow> X_rows ! i < nrows D"
    "\<And>i. i < length X_vals \<Longrightarrow> X_cols ! i < ncols W"
    "ncols D = ?k" "ncols P = ?k" "nrows P = length X_vals"
    "\<And>i. i < length X_vals \<Longrightarrow> length (rws P ! i) = ?k"
    using assms by (auto simp: em_shapes_def list_all_length wf_matrix_def nrows_def)
  have loop: "j \<le> length X_vals \<Longrightarrow>
      for_each [0..<j] (e_step_entry X_rows X_cols W D thr ?k) P =
      Inr (P\<lparr>rws := map ?row [0..<j] @ drop j (rws P)\<rparr>)" for j
  proof (induction j)
    case 0
    then show ?case by simp
  next
    case (Suc j)
    let ?P = "P\<lparr>rws := map ?row [0..<j] @ drop j (rws P)\<rparr>"
    from Suc have IH: "for_each [0..<j] (e_step_entry X_rows X_cols W D thr ?k) P = Inr ?P"
      and j: "j < length X_vals" by simp_all
    have len: "length (map ?row [0..<j]) = j" by simp
    have jP: "j < length (rws P)" using j sh by (simp add: nrows_def)
    have "e_step_entry X_rows X_cols W D thr ?k j ?P =
        Inr (?P\<lparr>rws := (rws ?P)[j := ?row j]\<rparr>)"
      using j sh jP by (intro e_step_entry_ok) (simp_all add: nrows_def nth_append)
    then show ?case
      unfolding for_each_upt_Suc IH
      using jP by (simp add: snoc_drop_update[OF len jP])
  qed
  show ?thesis
    using loop[of "length X_vals"] sh by (simp add: plsa_e_step_def nrows_def)
qed

lemma for_each_inv:
  assumes "I s0"
    and "\<And>i s. i \<in> set xs \<Longrightarrow> I s \<Longrightarrow> \<exists>s'. body i s = Inr s' \<and> I s'"
  shows "\<exists>s'. for_each xs body s0 = Inr s' \<and> I s'"
  using assms
proof (induction xs arbitrary: s0)
  case Nil
  then show ?case by simp
next
  case (Cons a xs)
  from Cons.prems obtain s1 where s1: "body a s0 = Inr s1" "I s1" by fastforce
  from Cons.IH[OF s1(2)] Cons.prems(2) obtain s2 where "for_each xs body s1 = Inr s2" "I s2"
    by auto
  with s1 show ?case by simp
qed

lemma mat_add_ok:
  "i < nrows M \<Longrightarrow> j < ncols M \<Longrightarrow>
   mat_add M i j s = Inr (M\<lparr>rws := (rws M)[i := (rws M ! i)[j := rws M ! i ! j + s]]\<rparr>)"
  by (simp add: mat_add_def)

lemma vec_add_ok:
  "i < length xs \<Longrightarrow> vec_add xs i s = Inr (xs[i := xs ! i + s])"
  by (simp add: vec_add_def)

lemma sum_list_update_real:
  fixes xs :: "real list"
  shows "i < length xs \<Longrightarrow> sum_list (xs[i := v]) = sum_list xs - xs ! i + v"
  by (induction xs arbitrary: i) (auto split: nat.splits)

lemma wf_matrix_update:
  "wf_matrix M \<Longrightarrow> length r = ncols M \<Longrightarrow> wf_matrix (M\<lparr>rws := (rws M)[i := r]\<rparr>)"
  by (cases "i < length (rws M)") (auto simp: wf_matrix_def list_all_length nth_list_update)

lemma m_step_accumulate_ok:
  assumes "i < nrows P" "z < ncols P" "z < nrows (pwz b)" "w < ncols (pwz b)"
    and "d < nrows (pzd b)" "z < ncols (pzd b)" "z < length (npwz b)" "d < length (npdz b)"
  shows "m_step_accumulate P i d w x z b =
     Inr \<lparr>pwz = (pwz b)\<lparr>rws := (rws (pwz b))[z := (rws (pwz b) ! z)[w := rws (pwz b) ! z ! w + x * rws P ! i ! z]]\<rparr>,
          pzd = (pzd b)\<lparr>rws := (rws (pzd b))[d := (rws (pzd b) ! d)[z := rws (pzd b) ! d ! z + x * rws P ! i ! z]]\<rparr>,
          npwz = (npwz b)[z := npwz b ! z + x * rws P ! i ! z],
          npdz = (npdz b)[d := npdz b ! d + x * rws P ! i ! z]\<rparr>"
  using assms by (simp add: m_step_accumulate_def mat_add_ok vec_add_ok Let_def)

lemma m_step_accumulate_inv:
  assumes "m_acc_inv k m n b" "i < nrows P" "ncols P = k" "z < k" "w < m" "d < n"
  shows "\<exists>b'. m_step_accumulate P i d w x z b = Inr b' \<and> m_acc_inv k m n b'"
proof -
  from assms have sh: "nrows (pwz b) = k" "ncols (pwz b) = m" "wf_matrix (pwz b)"
    "nrows (pzd b) = n" "ncols (pzd b) = k" "wf_matrix (pzd b)"
    "length (npwz b) = k" "length (npdz b) = n"
    and sums: "\<And>z. z < k \<Longrightarrow> sum_list (rws (pwz b) ! z) = npwz b ! z"
      "\<And>d. d < n \<Longrightarrow> sum_list (rws (pzd b) ! d) = npdz b ! d"
    by (simp_all add: m_acc_inv_def)
  have lz: "length (rws (pwz b) ! z) = m" and ld: "length (rws (pzd b) ! d) = k"
    using sh assms wf_matrix_row by auto
  show ?thesis
    apply (subst m_step_accumulate_ok)
    using assms sh apply simp_all
    apply (simp add: m_acc_inv_def wf_matrix_update lz ld)
    using sh(1,4) lz ld assms(4-6) sums
    apply (auto simp: nrows_def nth_list_update sum_list_update_real)
    done
qed

lemma m_step_entry_inv:
  assumes "m_acc_inv k m n b" "i < nrows P" "ncols P = k"
    and "i < length X_rows" "i < length X_cols" "i < length X_vals"
    and "X_rows ! i < n" "X_cols ! i < m"
  shows "\<exists>b'. m_step_entry X_rows X_cols X_vals P k i b = Inr b' \<and> m_acc_inv k m n b'"
  using assms
  by (simp add: m_step_entry_def) (rule for_each_inv, auto intro: m_step_accumulate_inv)

lemma norm_prefix_0 [simp]: "norm_prefix 0 c r = r"
  by (simp add: norm_prefix_def)

lemma norm_prefix_all: "length r \<le> j \<Longrightarrow> norm_prefix j c r = norm_row c r"
  by (simp add: norm_prefix_def norm_row_def)

lemma length_norm_prefix [simp]: "length (norm_prefix j c r) = length r"
  by (simp add: norm_prefix_def min_def)

lemma norm_prefix_Suc:
  "j < length r \<Longrightarrow> c > 0 \<Longrightarrow>
   (norm_prefix j c r)[j := norm_prefix j c r ! j / c] = norm_prefix (Suc j) c r"
  using map_take_drop_update[of j r "\<lambda>v. v / c"] by (simp add: norm_prefix_def nth_append)

lemma norm_prefix_skip: "\<not> c > 0 \<Longrightarrow> norm_prefix j c r = r"
  by (simp add: norm_prefix_def)

lemma m_div_word_loop:
  assumes "z < nrows (pwz b)" "z < length (npwz b)" "j \<le> ncols (pwz b)"
    and "length (rws (pwz b) ! z) = ncols (pwz b)"
  shows "for_each [0..<j] (m_step_div_word z) b =
         Inr (b\<lparr>pwz := (pwz b)\<lparr>rws := (rws (pwz b))
                  [z := norm_prefix j (npwz b ! z) (rws (pwz b) ! z)]\<rparr>\<rparr>)"
  using assms(3)
proof (induction j)
  case 0
  then show ?case by simp
next
  case (Suc j)
  let ?c = "npwz b ! z"
  let ?r = "rws (pwz b) ! z"
  let ?b = "b\<lparr>pwz := (pwz b)\<lparr>rws := (rws (pwz b))[z := norm_prefix j ?c ?r]\<rparr>\<rparr>"
  from Suc have IH: "for_each [0..<j] (m_step_div_word z) b = Inr ?b"
    and j: "j < ncols (pwz b)" by simp_all
  have jr: "j < length ?r" using j assms by simp
  show ?case
  proof (cases "?c > 0")
    case True
    then show ?thesis
      unfolding for_each_upt_Suc IH
      using assms(1,2) j jr
      by (simp add: m_step_div_word_def mat_div_ok nrows_def norm_prefix_Suc)
  next
    case False
    then show ?thesis
      unfolding for_each_upt_Suc IH
      using assms(1,2)
      by (simp add: m_step_div_word_def norm_prefix_skip)
  qed
qed

lemma m_step_div_doc_ok:
  assumes "z < ncols (pzd b)" "d < nrows (pzd b)" "d < length (npdz b)"
  shows "m_step_div_doc z d b =
         Inr (b\<lparr>pzd := (pzd b)\<lparr>rws := (rws (pzd b))
                  [d := div_cell z (npdz b ! d) (rws (pzd b) ! d)]\<rparr>\<rparr>)"
  using assms by (simp add: m_step_div_doc_def mat_div_ok div_cell_def)

lemma m_div_doc_loop:
  assumes "z < ncols (pzd b)" "j \<le> nrows (pzd b)" "j \<le> length (npdz b)"
  shows "for_each [0..<j] (m_step_div_doc z) b =
         Inr (b\<lparr>pzd := (pzd b)\<lparr>rws :=
               map (\<lambda>d. div_cell z (npdz b ! d) (rws (pzd b) ! d)) [0..<j]
               @ drop j (rws (pzd b))\<rparr>\<rparr>)"
  using assms(2,3)
proof (induction j)
  case 0
  then show ?case by simp
next
  case (Suc j)
  let ?f = "\<lambda>d. div_cell z (npdz b ! d) (rws (pzd b) ! d)"
  let ?b = "b\<lparr>pzd := (pzd b)\<lparr>rws := map ?f [0..<j] @ drop j (rws (pzd b))\<rparr>\<rparr>"
  from Suc have IH: "for_each [0..<j] (m_step_div_doc z) b = Inr ?b"
    and j: "j < nrows (pzd b)" "j < length (npdz b)" by simp_all
  have len: "length (map ?f [0..<j]) = j" by simp
  have jr: "j < length (rws (pzd b))" using j by (simp add: nrows_def)
  have "m_step_div_doc z j ?b =
      Inr (?b\<lparr>pzd := (pzd ?b)\<lparr>rws := (rws (pzd ?b))
                  [j := div_cell z (npdz ?b ! j) (rws (pzd ?b) ! j)]\<rparr>\<rparr>)"
    using assms(1) j jr by (intro m_step_div_doc_ok) (simp_all add: nrows_def)
  then show ?case
    unfolding for_each_upt_Suc IH
    using jr by (simp add: nth_append snoc_drop_update[OF len jr])
qed

lemma div_cell_norm_prefix:
  "j < length r \<Longrightarrow> div_cell j c (norm_prefix j c r) = norm_prefix (Suc j) c r"
  by (cases "c > 0") (simp_all add: div_cell_def norm_prefix_Suc norm_prefix_skip)

lemma m_normalize_loop:
  assumes "wf_matrix (pwz b)" "wf_matrix (pzd b)" "ncols (pwz b) = m" "nrows (pzd b) = n"
    and "length (npdz b) = n" "j \<le> nrows (pwz b)" "j \<le> ncols (pzd b)" "j \<le> length (npwz b)"
  shows "for_each [0..<j] (m_step_normalize m n) b =
         Inr (b\<lparr>pwz := (pwz b)\<lparr>rws :=
                 map (\<lambda>z. norm_row (npwz b ! z) (rws (pwz b) ! z)) [0..<j]
                 @ drop j (rws (pwz b))\<rparr>,
               pzd := (pzd b)\<lparr>rws :=
                 map (\<lambda>d. norm_prefix j (npdz b ! d) (rws (pzd b) ! d)) [0..<n]\<rparr>\<rparr>)"
  using assms(6-8)
proof (induction j)
  case 0
  have "map (\<lambda>d. rws (pzd b) ! d) [0..<n] = rws (pzd b)"
    using assms(4) map_nth[of "rws (pzd b)"] by (simp add: nrows_def)
  then show ?case by simp
next
  case (Suc j)
  let ?fw = "\<lambda>z. norm_row (npwz b ! z) (rws (pwz b) ! z)"
  let ?fd = "\<lambda>j d. norm_prefix j (npdz b ! d) (rws (pzd b) ! d)"
  let ?W = "(pwz b)\<lparr>rws := map ?fw [0..<j] @ drop j (rws (pwz b))\<rparr>"
  let ?D = "(pzd b)\<lparr>rws := map (?fd j) [0..<n]\<rparr>"
  let ?b = "b\<lparr>pwz := ?W, pzd := ?D\<rparr>"
  from Suc have IH: "for_each [0..<j] (m_step_normalize m n) b = Inr ?b"
    and j: "j < nrows (pwz b)" "j < ncols (pzd b)" "j < length (npwz b)" by simp_all
  have jr: "j < length (rws (pwz b))" using j by (simp add: nrows_def)
  have len: "length (map ?fw [0..<j]) = j" by simp
  have rowj: "rws ?W ! j = rws (pwz b) ! j"
    using jr by (simp add: nth_append)
  have lrow: "length (rws (pwz b) ! j) = m"
    using assms(1,3) j wf_matrix_row by auto
  have w: "for_each [0..<m] (m_step_div_word j) ?b =
      Inr (?b\<lparr>pwz := (pwz ?b)\<lparr>rws := (rws (pwz ?b))
                  [j := norm_prefix m (npwz ?b ! j) (rws (pwz ?b) ! j)]\<rparr>\<rparr>)"
    using j jr assms(3) lrow
    by (intro m_div_word_loop) (simp_all add: nrows_def nth_append)
  let ?W' = "(pwz b)\<lparr>rws := map ?fw [0..<Suc j] @ drop (Suc j) (rws (pwz b))\<rparr>"
  have w': "for_each [0..<m] (m_step_div_word j) ?b = Inr (?b\<lparr>pwz := ?W'\<rparr>)"
    using w jr lrow
    by (simp add: nth_append norm_prefix_all snoc_drop_update[OF len jr])
  let ?b1 = "?b\<lparr>pwz := ?W'\<rparr>"
  have d: "for_each [0..<n] (m_step_div_doc j) ?b1 =
      Inr (?b1\<lparr>pzd := (pzd ?b1)\<lparr>rws :=
               map (\<lambda>d. div_cell j (npdz ?b1 ! d) (rws (pzd ?b1) ! d)) [0..<n]
               @ drop n (rws (pzd ?b1))\<rparr>\<rparr>)"
    using j assms(4,5) by (intro m_div_doc_loop) (simp_all add: nrows_def)
  have ld: "d < n \<Longrightarrow> j < length (rws (pzd b) ! d)" for d
    using assms(2,4) j wf_matrix_row by auto
  have d': "for_each [0..<n] (m_step_div_doc j) ?b1 =
      Inr (b\<lparr>pwz := ?W', pzd := (pzd b)\<lparr>rws := map (?fd (Suc j)) [0..<n]\<rparr>\<rparr>)"
    using d ld by (simp add: div_cell_norm_prefix)
  show ?case
    unfolding for_each_upt_Suc IH
    using w' d' by (simp add: m_step_normalize_def)
qed

lemma sum_list_map_divide:
  fixes xs :: "real list"
  shows "sum_list (map (\<lambda>v. v / c) xs) = sum_list xs / c"
  by (induction xs) (simp_all add: add_divide_distrib)

lemma e_stored_joint: "e_stored W D thr d w z = (if joint W D d w z > thr then joint W D d w z else 0)"
  by (simp add: e_stored_def joint_def Let_def)

lemma nonneg_matrix_cell:
  "nonneg_matrix M \<Longrightarrow> wf_matrix M \<Longrightarrow> i < nrows M \<Longrightarrow> j < ncols M \<Longrightarrow> 0 \<le> rws M ! i ! j"
  by (simp add: nonneg_matrix_def wf_matrix_def list_all_length nrows_def)

lemma e_row_length [simp]: "length (e_row W D thr k d w) = k"
  by (simp add: e_row_def Let_def)

lemma e_row_distribution_or_zero:
  assumes "\<And>z. z < k \<Longrightarrow> 0 \<le> e_stored W D thr d w z"
  shows "is_distribution (e_row W D thr k d w) \<or> all_zero (e_row W D thr k d w)"
proof -
  let ?st = "map (e_stored W D thr d w) [0..<k]"
  have nn: "\<And>v. v \<in> set ?st \<Longrightarrow> 0 \<le> v" using assms by auto
  show ?thesis
  proof (cases "sum_list ?st > 0")
    case True
    then have "sum_list (map (\<lambda>v. v / sum_list ?st) ?st) = 1"
      by (simp only: sum_list_map_divide) simp
    moreover have "list_all (\<lambda>v. 0 \<le> v) (map (\<lambda>v. v / sum_list ?st) ?st)"
      using nn True by (auto simp: list_all_iff)
    ultimately show ?thesis using True
      by (simp add: e_row_def Let_def is_distribution_def)
  next
    case False
    moreover have "0 \<le> sum_list ?st" using nn by (rule sum_list_nonneg)
    ultimately have "sum_list ?st = 0" by simp
    then have "\<forall>v\<in>set ?st. v = 0"
      using nn sum_list_nonneg_eq_0_iff[of ?st] by blast
    with False show ?thesis
      by (simp add: e_row_def Let_def all_zero_def list_all_iff)
  qed
qed

lemma e_row_below_threshold:
  assumes "\<And>z. z < k \<Longrightarrow> joint W D d w z \<le> thr"
  shows "e_row W D thr k d w = replicate k 0"
proof -
  have "e_stored W D thr d w z = 0" if "z < k" for z
    using assms[OF that] by (simp add: e_stored_joint)
  then have "map (e_stored W D thr d w) [0..<k] = replicate k 0"
    by (intro nth_equalityI) simp_all
  then show ?thesis by (simp add: e_row_def Let_def)
qed

text \<open>
  Claim C2. On arrays of consistent shape, with a non-negative threshold or non-negative
  model matrices, \<^verbatim>\<open>plsa_e_step\<close> returns without raising, and the posterior row of
  every nonzero entry is either a probability distribution over the \<open>k\<close> topics
  (non-negative, summing to 1) or identically zero. When every product
  \<open>P(w|z) P(z|d)\<close> of the entry is at or below the threshold the row is all zeros: the
  guard \<^verbatim>\<open>norm > 0\<close> skips the division.
\<close>

theorem e_step_rows_distribution_or_zero:
  assumes "em_shapes X_rows X_cols X_vals W D P"
    and "0 \<le> thr \<or> (nonneg_matrix W \<and> nonneg_matrix D)"
  shows "\<exists>P'. plsa_e_step X_rows X_cols X_vals W D P thr = Inr P' \<and>
           nrows P' = length X_vals \<and>
           (\<forall>i<length X_vals.
              length (rws P' ! i) = nrows W \<and>
              (is_distribution (rws P' ! i) \<or> all_zero (rws P' ! i)) \<and>
              ((\<forall>z<nrows W. joint W D (X_rows ! i) (X_cols ! i) z \<le> thr)
                 \<longrightarrow> rws P' ! i = replicate (nrows W) 0))"
proof -
  let ?k = "nrows W"
  let ?row = "\<lambda>i. e_row W D thr ?k (X_rows ! i) (X_cols ! i)"
  let ?P' = "P\<lparr>rws := map ?row [0..<length X_vals]\<rparr>"
  have run: "plsa_e_step X_rows X_cols X_vals W D P thr = Inr ?P'"
    using assms(1) by (simp add: plsa_e_step_rows)
  have sh: "\<And>i. i < length X_vals \<Longrightarrow> X_rows ! i < nrows D"
    "\<And>i. i < length X_vals \<Longrightarrow> X_cols ! i < ncols W"
    "ncols D = ?k" "wf_matrix W" "wf_matrix D"
    using assms(1) by (auto simp: em_shapes_def list_all_length)
  have nn: "0 \<le> e_stored W D thr (X_rows ! i) (X_cols ! i) z"
    if "i < length X_vals" "z < ?k" for i z
  proof (cases "0 \<le> thr")
    case True
    then show ?thesis by (simp add: e_stored_joint)
  next
    case False
    with assms(2) have "nonneg_matrix W" "nonneg_matrix D" by simp_all
    then have "0 \<le> rws W ! z ! (X_cols ! i)" "0 \<le> rws D ! (X_rows ! i) ! z"
      using that sh by (simp_all add: nonneg_matrix_cell)
    then show ?thesis by (simp add: e_stored_joint joint_def)
  qed
  have "is_distribution (?row i) \<or> all_zero (?row i)" if "i < length X_vals" for i
    using nn[OF that] by (rule e_row_distribution_or_zero)
  moreover have "?row i = replicate ?k 0"
    if "\<forall>z<?k. joint W D (X_rows ! i) (X_cols ! i) z \<le> thr" for i
    using that by (intro e_row_below_threshold) simp
  ultimately show ?thesis
    unfolding run by simp
qed

lemma wf_zeros [simp]: "wf_matrix (zeros r c)"
  by (simp add: wf_matrix_def zeros_def list_all_length)

lemma nrows_zeros [simp]: "nrows (zeros r c) = r"
  by (simp add: nrows_def zeros_def)

lemma ncols_zeros [simp]: "ncols (zeros r c) = c"
  by (simp add: zeros_def)

lemma rws_zeros_nth [simp]: "i < r \<Longrightarrow> rws (zeros r c) ! i = replicate c 0"
  by (simp add: zeros_def)

lemma m_acc_inv_zero:
  "length nw = nrows W \<Longrightarrow> length nd = nrows D \<Longrightarrow> ncols D = nrows W \<Longrightarrow>
   m_acc_inv (nrows W) (ncols W) (nrows D) (m_zero_buffers W D nw nd)"
  by (simp add: m_acc_inv_def m_zero_buffers_def fill_zero_def sum_list_replicate)

lemma m_accumulate_loop_inv:
  assumes "em_shapes X_rows X_cols X_vals W D P" "m_acc_inv (nrows W) (ncols W) (nrows D) b"
  shows "\<exists>b'. for_each [0..<length X_vals]
                 (m_step_entry X_rows X_cols X_vals P (nrows W)) b = Inr b' \<and>
              m_acc_inv (nrows W) (ncols W) (nrows D) b'"
proof (rule for_each_inv[where I = "m_acc_inv (nrows W) (ncols W) (nrows D)", OF assms(2)])
  fix i s
  assume "i \<in> set [0..<length X_vals]" and s: "m_acc_inv (nrows W) (ncols W) (nrows D) s"
  then have i: "i < length X_vals" by simp
  with assms(1) show "\<exists>s'. m_step_entry X_rows X_cols X_vals P (nrows W) i s = Inr s' \<and>
      m_acc_inv (nrows W) (ncols W) (nrows D) s'"
    by (intro m_step_entry_inv[OF s]) (auto simp: em_shapes_def list_all_length)
qed

lemma m_acc_val_next:
  assumes "m_acc_val X_rows X_vals P k n i k b" "length (rws P ! i) = k"
  shows "m_acc_val X_rows X_vals P k n (Suc i) 0 b"
  using assms by (simp add: m_acc_val_def topic_mass_def doc_mass_def)

lemma m_step_accumulate_val:
  assumes inv: "m_acc_inv k m n b" and val: "m_acc_val X_rows X_vals P k n i z b"
    and sh: "i < nrows P" "ncols P = k" "length (rws P ! i) = k" "z < k" "w < m" "X_rows ! i < n"
  shows "\<exists>b'. m_step_accumulate P i (X_rows ! i) w (X_vals ! i) z b = Inr b' \<and>
           m_acc_inv k m n b' \<and> m_acc_val X_rows X_vals P k n i (Suc z) b'"
proof -
  from inv have len: "nrows (pwz b) = k" "ncols (pwz b) = m" "nrows (pzd b) = n"
    "ncols (pzd b) = k" "length (npwz b) = k" "length (npdz b) = n"
    by (simp_all add: m_acc_inv_def)
  from m_step_accumulate_inv[OF inv sh(1,2,4,5,6), of "X_vals ! i"]
  obtain b' where b': "m_step_accumulate P i (X_rows ! i) w (X_vals ! i) z b = Inr b'"
    "m_acc_inv k m n b'" by blast
  have eq: "npwz b' = (npwz b)[z := npwz b ! z + X_vals ! i * rws P ! i ! z]"
    "npdz b' = (npdz b)[X_rows ! i := npdz b ! (X_rows ! i) + X_vals ! i * rws P ! i ! z]"
    using b'(1) sh len by (auto simp: m_step_accumulate_ok)
  have tk: "sum_list (take (Suc z) (rws P ! i)) = sum_list (take z (rws P ! i)) + rws P ! i ! z"
    using sh by (simp add: take_Suc_conv_app_nth)
  have "m_acc_val X_rows X_vals P k n i (Suc z) b'"
    using val sh len unfolding m_acc_val_def eq tk
    by (auto simp: nth_list_update less_Suc_eq algebra_simps)
  with b' show ?thesis by blast
qed

lemma m_step_entry_val:
  assumes inv: "m_acc_inv k m n b" and val: "m_acc_val X_rows X_vals P k n i 0 b"
    and sh: "i < nrows P" "ncols P = k" "length (rws P ! i) = k"
      "i < length X_rows" "i < length X_cols" "i < length X_vals"
      "X_rows ! i < n" "X_cols ! i < m"
  shows "\<exists>b'. m_step_entry X_rows X_cols X_vals P k i b = Inr b' \<and>
           m_acc_inv k m n b' \<and> m_acc_val X_rows X_vals P k n (Suc i) 0 b'"
proof -
  have "\<exists>b'. for_each [0..<k]
          (m_step_accumulate P i (X_rows ! i) (X_cols ! i) (X_vals ! i)) b = Inr b' \<and>
        (m_acc_inv k m n b' \<and> m_acc_val X_rows X_vals P k n i k b')"
    by (rule for_each_upt_inv[where P = "\<lambda>z b. m_acc_inv k m n b \<and>
          m_acc_val X_rows X_vals P k n i z b"])
      (use inv val sh in \<open>auto intro: m_step_accumulate_val\<close>)
  then show ?thesis
    using sh by (auto simp: m_step_entry_def intro: m_acc_val_next)
qed

lemma m_accumulate_loop_val:
  assumes "em_shapes X_rows X_cols X_vals W D P"
    and "length nw = nrows W" and "length nd = nrows D"
  shows "\<exists>b'. for_each [0..<length X_vals]
                 (m_step_entry X_rows X_cols X_vals P (nrows W)) (m_zero_buffers W D nw nd)
               = Inr b' \<and>
              (\<forall>z<nrows W. npwz b' ! z = topic_mass X_vals P (length X_vals) z) \<and>
              (\<forall>d<nrows D. npdz b' ! d = doc_mass X_rows X_vals P (length X_vals) d)"
proof -
  let ?k = "nrows W" and ?m = "ncols W" and ?n = "nrows D"
  have kD: "ncols D = ?k" using assms(1) by (simp add: em_shapes_def)
  have v0: "m_acc_val X_rows X_vals P ?k ?n 0 0 (m_zero_buffers W D nw nd)"
    using assms(2,3) by (simp add: m_acc_val_def m_zero_buffers_def topic_mass_def doc_mass_def)
  have "\<exists>b'. for_each [0..<length X_vals]
          (m_step_entry X_rows X_cols X_vals P ?k) (m_zero_buffers W D nw nd) = Inr b' \<and>
        (m_acc_inv ?k ?m ?n b' \<and> m_acc_val X_rows X_vals P ?k ?n (length X_vals) 0 b')"
  proof (rule for_each_upt_inv[where P = "\<lambda>i b. m_acc_inv ?k ?m ?n b \<and>
          m_acc_val X_rows X_vals P ?k ?n i 0 b"])
    show "m_acc_inv ?k ?m ?n (m_zero_buffers W D nw nd) \<and>
        m_acc_val X_rows X_vals P ?k ?n 0 0 (m_zero_buffers W D nw nd)"
      using m_acc_inv_zero[OF assms(2,3) kD] v0 by simp
  next
    fix i s
    assume i: "i < length X_vals"
      and s: "m_acc_inv ?k ?m ?n s \<and> m_acc_val X_rows X_vals P ?k ?n i 0 s"
    have "length (rws P ! i) = ?k"
      using assms(1) i wf_matrix_row[of P i] by (simp add: em_shapes_def)
    with i s assms(1) show "\<exists>s'. m_step_entry X_rows X_cols X_vals P ?k i s = Inr s' \<and>
        m_acc_inv ?k ?m ?n s' \<and> m_acc_val X_rows X_vals P ?k ?n (Suc i) 0 s'"
      by (intro m_step_entry_val) (auto simp: em_shapes_def list_all_length)
  qed
  then show ?thesis by (auto simp: m_acc_val_def)
qed

lemma plsa_m_step_unfold:
  "plsa_m_step X_rows X_cols X_vals W D P nw nd =
     and_then (for_each [0..<length X_vals] (m_step_entry X_rows X_cols X_vals P (ncols P))
                 (m_zero_buffers W D nw nd))
       (for_each [0..<ncols P] (m_step_normalize (ncols W) (nrows D)))"
  by (simp add: plsa_m_step_def Let_def m_zero_buffers_def)

lemma sum_list_norm_row:
  "sum_list (norm_row c r) = (if c > 0 then sum_list r / c else sum_list r)"
  by (simp add: norm_row_def sum_list_map_divide)

text \<open>
  Claim C3, as the code has it. \<^verbatim>\<open>plsa_m_step\<close> divides a row only when its accumulator
  is positive (\<^verbatim>\<open>if norm_pwz[z] > 0\<close>, \<^verbatim>\<open>if norm_pdz[d] > 0\<close>). So on arrays of consistent
  shape the step returns without raising, a topic-word row whose accumulator
  \<^verbatim>\<open>norm_pwz[z]\<close> is positive sums to 1, a doc-topic row whose accumulator
  \<^verbatim>\<open>norm_pdz[d]\<close> is positive sums to 1, and any other row is left undivided and sums to
  the value of its accumulator (0 for a topic or a document that received no mass). The
  accumulators hold the mass of the topic, \<open>\<Sum> x\<^sub>i P(z|w\<^sub>i,d\<^sub>i)\<close> over all entries, and
  of the document, \<open>\<Sum> x\<^sub>i \<Sum>\<^sub>z P(z|w\<^sub>i,d\<^sub>i)\<close> over the entries of the document.
\<close>

theorem m_step_row_sums:
  assumes "em_shapes X_rows X_cols X_vals W D P"
    and "length nw = nrows W" and "length nd = nrows D"
  shows "\<exists>b. plsa_m_step X_rows X_cols X_vals W D P nw nd = Inr b \<and>
           nrows (pwz b) = nrows W \<and> nrows (pzd b) = nrows D \<and>
           (\<forall>z<nrows W. sum_list (rws (pwz b) ! z) = (if npwz b ! z > 0 then 1 else npwz b ! z)) \<and>
           (\<forall>d<nrows D. sum_list (rws (pzd b) ! d) = (if npdz b ! d > 0 then 1 else npdz b ! d)) \<and>
           (\<forall>z<nrows W. npwz b ! z = topic_mass X_vals P (length X_vals) z) \<and>
           (\<forall>d<nrows D. npdz b ! d = doc_mass X_rows X_vals P (length X_vals) d)"
proof -
  let ?k = "nrows W" and ?m = "ncols W" and ?n = "nrows D"
  have kP: "ncols P = ?k" and kD: "ncols D = ?k" using assms(1) by (simp_all add: em_shapes_def)
  from m_accumulate_loop_inv[OF assms(1) m_acc_inv_zero[OF assms(2,3) kD]]
  obtain b1 where acc: "for_each [0..<length X_vals]
        (m_step_entry X_rows X_cols X_vals P ?k) (m_zero_buffers W D nw nd) = Inr b1"
    and inv: "m_acc_inv ?k ?m ?n b1" by blast
  from m_accumulate_loop_val[OF assms] acc
  have val: "\<And>z. z < ?k \<Longrightarrow> npwz b1 ! z = topic_mass X_vals P (length X_vals) z"
    "\<And>d. d < ?n \<Longrightarrow> npdz b1 ! d = doc_mass X_rows X_vals P (length X_vals) d"
    by simp_all
  from inv have sh: "nrows (pwz b1) = ?k" "ncols (pwz b1) = ?m" "wf_matrix (pwz b1)"
    "nrows (pzd b1) = ?n" "ncols (pzd b1) = ?k" "wf_matrix (pzd b1)"
    "length (npwz b1) = ?k" "length (npdz b1) = ?n"
    and sums: "\<And>z. z < ?k \<Longrightarrow> sum_list (rws (pwz b1) ! z) = npwz b1 ! z"
      "\<And>d. d < ?n \<Longrightarrow> sum_list (rws (pzd b1) ! d) = npdz b1 ! d"
    by (simp_all add: m_acc_inv_def)
  let ?b = "b1\<lparr>pwz := (pwz b1)\<lparr>rws :=
                 map (\<lambda>z. norm_row (npwz b1 ! z) (rws (pwz b1) ! z)) [0..<?k]
                 @ drop ?k (rws (pwz b1))\<rparr>,
               pzd := (pzd b1)\<lparr>rws :=
                 map (\<lambda>d. norm_prefix ?k (npdz b1 ! d) (rws (pzd b1) ! d)) [0..<?n]\<rparr>\<rparr>"
  have nrm: "for_each [0..<?k] (m_step_normalize ?m ?n) b1 = Inr ?b"
    using sh by (intro m_normalize_loop) simp_all
  have run: "plsa_m_step X_rows X_cols X_vals W D P nw nd = Inr ?b"
    by (simp add: plsa_m_step_unfold kP acc nrm)
  have ld: "d < ?n \<Longrightarrow> length (rws (pzd b1) ! d) = ?k" for d
    using sh wf_matrix_row by auto
  have "sum_list (rws (pwz ?b) ! z) = (if npwz ?b ! z > 0 then 1 else npwz ?b ! z)"
    if "z < ?k" for z
    using that sums(1)[OF that] by (simp add: nth_append sum_list_norm_row)
  moreover have "sum_list (rws (pzd ?b) ! d) = (if npdz ?b ! d > 0 then 1 else npdz ?b ! d)"
    if "d < ?n" for d
    using that sums(2)[OF that] ld[OF that] by (simp add: norm_prefix_all sum_list_norm_row)
  ultimately show ?thesis
    unfolding run using sh val by (simp add: nrows_def)
qed

lemma m_step_accumulate_zero:
  assumes "rws P ! i ! z = 0"
    and "i < nrows P" "z < ncols P" "z < nrows (pwz b)" "w < ncols (pwz b)"
    and "d < nrows (pzd b)" "z < ncols (pzd b)" "z < length (npwz b)" "d < length (npdz b)"
  shows "m_step_accumulate P i d w x z b = Inr b"
  using assms by (simp add: m_step_accumulate_ok)

lemma m_step_entry_zero:
  assumes "\<And>z. z < k \<Longrightarrow> rws P ! i ! z = 0"
    and "i < nrows P" "k \<le> ncols P" "k \<le> nrows (pwz b)" "X_cols ! i < ncols (pwz b)"
    and "X_rows ! i < nrows (pzd b)" "k \<le> ncols (pzd b)" "k \<le> length (npwz b)"
      "X_rows ! i < length (npdz b)"
    and "i < length X_rows" "i < length X_cols" "i < length X_vals"
  shows "m_step_entry X_rows X_cols X_vals P k i b = Inr b"
proof -
  have "\<exists>s'. for_each [0..<k] (m_step_accumulate P i (X_rows ! i) (X_cols ! i) (X_vals ! i)) b
          = Inr s' \<and> s' = b"
    by (rule for_each_inv[where I = "\<lambda>s. s = b"]) (use assms in \<open>auto intro!: m_step_accumulate_zero\<close>)
  then show ?thesis using assms(10-12) by (simp add: m_step_entry_def)
qed

lemma m_normalize_zero_buffers:
  assumes "length nw = nrows W" "length nd = nrows D" "k \<le> nrows W" "k \<le> ncols D"
  shows "for_each [0..<k] (m_step_normalize (ncols W) (nrows D)) (m_zero_buffers W D nw nd) =
         Inr (m_zero_buffers W D nw nd)"
proof -
  let ?b = "m_zero_buffers W D nw nd"
  have "for_each [0..<k] (m_step_normalize (ncols W) (nrows D)) ?b =
         Inr (?b\<lparr>pwz := (pwz ?b)\<lparr>rws :=
                 map (\<lambda>z. norm_row (npwz ?b ! z) (rws (pwz ?b) ! z)) [0..<k]
                 @ drop k (rws (pwz ?b))\<rparr>,
               pzd := (pzd ?b)\<lparr>rws :=
                 map (\<lambda>d. norm_prefix k (npdz ?b ! d) (rws (pzd ?b) ! d)) [0..<nrows D]\<rparr>\<rparr>)"
    using assms by (intro m_normalize_loop) (simp_all add: m_zero_buffers_def fill_zero_def)
  moreover have "map (\<lambda>z. norm_row (npwz ?b ! z) (rws (pwz ?b) ! z)) [0..<k]
                 @ drop k (rws (pwz ?b)) = rws (pwz ?b)"
    using assms
    by (intro nth_equalityI)
      (auto simp: m_zero_buffers_def fill_zero_def zeros_def nth_append norm_row_def)
  moreover have "map (\<lambda>d. norm_prefix k (npdz ?b ! d) (rws (pzd ?b) ! d)) [0..<nrows D]
                 = rws (pzd ?b)"
    using assms
    by (intro nth_equalityI)
      (auto simp: m_zero_buffers_def fill_zero_def zeros_def norm_prefix_def)
  ultimately show ?thesis by simp
qed

lemma plsa_m_step_zero_posterior:
  assumes "em_shapes X_rows X_cols X_vals W D P"
    and "length nw = nrows W" and "length nd = nrows D"
    and "\<And>i z. i < length X_vals \<Longrightarrow> z < nrows W \<Longrightarrow> rws P ! i ! z = 0"
  shows "plsa_m_step X_rows X_cols X_vals W D P nw nd = Inr (m_zero_buffers W D nw nd)"
proof -
  let ?b = "m_zero_buffers W D nw nd"
  have sh: "length X_rows = length X_vals" "length X_cols = length X_vals"
    "\<And>i. i < length X_vals \<Longrightarrow> X_rows ! i < nrows D"
    "\<And>i. i < length X_vals \<Longrightarrow> X_cols ! i < ncols W"
    "ncols D = nrows W" "ncols P = nrows W" "nrows P = length X_vals"
    using assms(1) by (auto simp: em_shapes_def list_all_length)
  have "\<exists>s'. for_each [0..<length X_vals]
          (m_step_entry X_rows X_cols X_vals P (nrows W)) ?b = Inr s' \<and> s' = ?b"
  proof (rule for_each_inv[where I = "\<lambda>s. s = ?b"])
    fix i s assume "i \<in> set [0..<length X_vals]" "s = ?b"
    then show "\<exists>s'. m_step_entry X_rows X_cols X_vals P (nrows W) i s = Inr s' \<and> s' = ?b"
      using sh assms(2-4)
      by (simp add: m_step_entry_zero m_zero_buffers_def fill_zero_def)
  qed simp
  then show ?thesis
    using sh assms(2,3)
    by (simp add: plsa_m_step_unfold m_normalize_zero_buffers)
qed

lemma posterior_unthresholded_eq:
  assumes "\<And>z. z < nrows W \<Longrightarrow> 0 \<le> joint W D d w z"
  shows "e_row W D 0 (nrows W) d w = posterior_unthresholded W D d w"
proof -
  have "e_stored W D 0 d w z = joint W D d w z" if "z < nrows W" for z
    using assms[OF that] by (simp add: e_stored_joint)
  then have st: "map (e_stored W D 0 d w) [0..<nrows W] = map (joint W D d w) [0..<nrows W]"
    by simp
  have "0 \<le> sum_list (map (joint W D d w) [0..<nrows W])"
    using assms by (intro sum_list_nonneg) auto
  then show ?thesis
    by (auto simp: e_row_def posterior_unthresholded_def Let_def st)
qed

text \<open>
  Claim C6. For non-negative model matrices, \<^verbatim>\<open>plsa_e_step\<close> with threshold 0 stores,
  for every nonzero entry and every topic, the value of the unthresholded posterior
  \<open>posterior_unthresholded\<close>.
\<close>

theorem zero_threshold_is_unthresholded:
  assumes "em_shapes X_rows X_cols X_vals W D P"
    and "nonneg_matrix W" and "nonneg_matrix D"
  shows "\<exists>P'. plsa_e_step X_rows X_cols X_vals W D P 0 = Inr P' \<and>
           nrows P' = length X_vals \<and>
           (\<forall>i<length X_vals. \<forall>z<nrows W.
              rws P' ! i ! z = posterior_unthresholded W D (X_rows ! i) (X_cols ! i) ! z)"
proof -
  let ?row = "\<lambda>i. e_row W D 0 (nrows W) (X_rows ! i) (X_cols ! i)"
  have run: "plsa_e_step X_rows X_cols X_vals W D P 0 =
      Inr (P\<lparr>rws := map ?row [0..<length X_vals]\<rparr>)"
    using assms(1) by (simp add: plsa_e_step_rows)
  have sh: "\<And>i. i < length X_vals \<Longrightarrow> X_rows ! i < nrows D"
    "\<And>i. i < length X_vals \<Longrightarrow> X_cols ! i < ncols W"
    "ncols D = nrows W" "wf_matrix W" "wf_matrix D"
    using assms(1) by (auto simp: em_shapes_def list_all_length)
  have "?row i = posterior_unthresholded W D (X_rows ! i) (X_cols ! i)"
    if "i < length X_vals" for i
  proof (rule posterior_unthresholded_eq)
    fix z assume "z < nrows W"
    then have "0 \<le> rws W ! z ! (X_cols ! i)" "0 \<le> rws D ! (X_rows ! i) ! z"
      using that sh assms(2,3) by (simp_all add: nonneg_matrix_cell)
    then show "0 \<le> joint W D (X_rows ! i) (X_cols ! i) z" by (simp add: joint_def)
  qed
  then show ?thesis unfolding run by simp
qed

lemma zero_rows_matrix:
  "ncols P = k \<Longrightarrow> P\<lparr>rws := map (\<lambda>i. replicate k 0) [0..<n]\<rparr> = zeros n k"
  by (cases P) (simp add: zeros_def map_replicate_const)

text \<open>
  Claim C1, as the code has it. When the threshold is larger than every product
  \<open>P(w|z) P(z|d)\<close> of the model, \<^verbatim>\<open>plsa_e_step\<close> writes the all-zero posterior matrix,
  and \<^verbatim>\<open>plsa_m_step\<close> run on it returns without raising, with no division performed,
  and with both output matrices and both accumulators all zero: the step clears the
  matrices (\<^verbatim>\<open>p_w_given_z[:] = 0.0\<close>, \<^verbatim>\<open>p_z_given_d[:] = 0.0\<close>) before it accumulates,
  so they are zeroed rather than left at their previous values.
\<close>

theorem huge_threshold_zeroes_posteriors_and_outputs:
  assumes "em_shapes X_rows X_cols X_vals W D P"
    and "length nw = nrows W" and "length nd = nrows D"
    and "\<forall>d<nrows D. \<forall>w<ncols W. \<forall>z<nrows W. joint W D d w z < thr"
  shows "plsa_e_step X_rows X_cols X_vals W D P thr = Inr (zeros (length X_vals) (nrows W)) \<and>
         plsa_m_step X_rows X_cols X_vals W D (zeros (length X_vals) (nrows W)) nw nd =
           Inr \<lparr>pwz = fill_zero W, pzd = fill_zero D,
                npwz = replicate (nrows W) 0, npdz = replicate (nrows D) 0\<rparr>"
proof -
  let ?k = "nrows W" and ?Z = "zeros (length X_vals) (nrows W)"
  have sh: "\<And>i. i < length X_vals \<Longrightarrow> X_rows ! i < nrows D"
    "\<And>i. i < length X_vals \<Longrightarrow> X_cols ! i < ncols W" "ncols P = ?k"
    using assms(1) by (auto simp: em_shapes_def list_all_length)
  have "e_row W D thr ?k (X_rows ! i) (X_cols ! i) = replicate ?k 0"
    if "i < length X_vals" for i
    using that sh assms(4) by (intro e_row_below_threshold) (simp add: less_imp_le)
  then have "map (\<lambda>i. e_row W D thr ?k (X_rows ! i) (X_cols ! i)) [0..<length X_vals] =
      map (\<lambda>i. replicate ?k 0) [0..<length X_vals]"
    by simp
  moreover have "plsa_e_step X_rows X_cols X_vals W D P thr =
      Inr (P\<lparr>rws := map (\<lambda>i. e_row W D thr ?k (X_rows ! i) (X_cols ! i))
                        [0..<length X_vals]\<rparr>)"
    using assms(1) by (simp add: plsa_e_step_rows)
  ultimately have e: "plsa_e_step X_rows X_cols X_vals W D P thr = Inr ?Z"
    using sh(3) by (simp only: zero_rows_matrix)
  have shZ: "em_shapes X_rows X_cols X_vals W D ?Z"
    using assms(1) by (simp add: em_shapes_def)
  have "plsa_m_step X_rows X_cols X_vals W D ?Z nw nd = Inr (m_zero_buffers W D nw nd)"
    using shZ assms(2,3) by (rule plsa_m_step_zero_posterior) simp
  with e assms(2,3) show ?thesis by (simp add: m_zero_buffers_def)
qed

text \<open>
  Claim C1 as stated fails: with \<open>P(w|z) = P(z|d) = [[1]]\<close>, one entry and threshold 2,
  the posterior is \<open>[[0]]\<close> and the M-step returns \<open>[[0]]\<close> for both matrices, not the
  \<open>[[1]]\<close> they held before the step.
\<close>

theorem huge_threshold_m_step_not_unchanged:
  "joint \<lparr>ncols = 1, rws = [[1]]\<rparr> \<lparr>ncols = 1, rws = [[1]]\<rparr> 0 0 0 < 2 \<and>
   plsa_e_step [0] [0] [1] \<lparr>ncols = 1, rws = [[1]]\<rparr> \<lparr>ncols = 1, rws = [[1]]\<rparr> (zeros 1 1) 2
     = Inr \<lparr>ncols = 1, rws = [[0]]\<rparr> \<and>
   plsa_m_step [0] [0] [1] \<lparr>ncols = 1, rws = [[1]]\<rparr> \<lparr>ncols = 1, rws = [[1]]\<rparr>
       \<lparr>ncols = 1, rws = [[0]]\<rparr> [0] [0]
     = Inr \<lparr>pwz = \<lparr>ncols = 1, rws = [[0]]\<rparr>, pzd = \<lparr>ncols = 1, rws = [[0]]\<rparr>,
            npwz = [0], npdz = [0]\<rparr> \<and>
   \<lparr>ncols = 1, rws = [[0]]\<rparr> \<noteq> \<lparr>ncols = 1, rws = [[1::real]]\<rparr>"
  by code_simp

text \<open>
  Claim C1, amended, at a concrete model with two topics, two words and one document.
\<close>

theorem huge_threshold_witness:
  "plsa_e_step [0, 0] [0, 1] [3, 1] ex_topic_word ex_doc_topic (zeros 2 2) 1 =
     Inr (zeros (length [3, 1 :: real]) (nrows ex_topic_word)) \<and>
   plsa_m_step [0, 0] [0, 1] [3, 1] ex_topic_word ex_doc_topic
       (zeros (length [3, 1 :: real]) (nrows ex_topic_word)) [5, 5] [7] =
     Inr \<lparr>pwz = fill_zero ex_topic_word, pzd = fill_zero ex_doc_topic,
          npwz = replicate (nrows ex_topic_word) 0,
          npdz = replicate (nrows ex_doc_topic) 0\<rparr>"
proof -
  have sh: "em_shapes [0, 0] [0, 1] [3, 1] ex_topic_word ex_doc_topic (zeros 2 2)"
    by (simp add: em_shapes_def wf_matrix_def nrows_def zeros_def ex_topic_word_def
        ex_doc_topic_def numeral_2_eq_2)
  have l1: "length [5, 5 :: real] = nrows ex_topic_word"
    and l2: "length [7 :: real] = nrows ex_doc_topic"
    by (simp_all add: nrows_def ex_topic_word_def ex_doc_topic_def)
  have big: "\<forall>d<nrows ex_doc_topic. \<forall>w<ncols ex_topic_word. \<forall>z<nrows ex_topic_word.
      joint ex_topic_word ex_doc_topic d w z < 1"
    by (simp add: nrows_def ex_topic_word_def ex_doc_topic_def joint_def
        less_Suc_eq numeral_2_eq_2 all_conj_distrib)
  show ?thesis by (rule huge_threshold_zeroes_posteriors_and_outputs[OF sh l1 l2 big])
qed

text \<open>
  Claim C2 at a concrete input: two topics, two words, one document, threshold \<open>1/3\<close>.
  The posterior is \<open>[[0, 1], [0, 0]]\<close>: the first row is a distribution, and in the
  second both products are at or below the threshold.
\<close>

theorem e_step_rows_distribution_or_zero_witness:
  "\<exists>P'. plsa_e_step [0, 0] [0, 1] [3, 1] ex_topic_word ex_doc_topic (zeros 2 2) (1/3) = Inr P' \<and>
         nrows P' = length [3, 1 :: real] \<and>
         (\<forall>i<length [3, 1 :: real].
            length (rws P' ! i) = nrows ex_topic_word \<and>
            (is_distribution (rws P' ! i) \<or> all_zero (rws P' ! i)) \<and>
            ((\<forall>z<nrows ex_topic_word.
                 joint ex_topic_word ex_doc_topic ([0, 0] ! i) ([0, 1] ! i) z \<le> 1/3)
               \<longrightarrow> rws P' ! i = replicate (nrows ex_topic_word) 0))"
proof -
  have sh: "em_shapes [0, 0] [0, 1] [3, 1] ex_topic_word ex_doc_topic (zeros 2 2)"
    by (simp add: em_shapes_def wf_matrix_def nrows_def zeros_def ex_topic_word_def
        ex_doc_topic_def numeral_2_eq_2)
  have thr: "(0::real) \<le> 1/3 \<or> (nonneg_matrix ex_topic_word \<and> nonneg_matrix ex_doc_topic)"
    by simp
  show ?thesis by (rule e_step_rows_distribution_or_zero[OF sh thr])
qed

text \<open>
  Claim C3 as stated fails for a document without entries: two documents, one word, one
  topic, and the only nonzero entry in document 0. The M-step completes and leaves row 1
  of the doc-topic matrix at \<open>[0]\<close>, which sums to 0.
\<close>

theorem m_step_row_not_stochastic:
  "plsa_m_step [0] [0] [1] \<lparr>ncols = 1, rws = [[1]]\<rparr> \<lparr>ncols = 1, rws = [[1], [1]]\<rparr>
       \<lparr>ncols = 1, rws = [[1]]\<rparr> [0] [0, 0]
     = Inr \<lparr>pwz = \<lparr>ncols = 1, rws = [[1]]\<rparr>, pzd = \<lparr>ncols = 1, rws = [[1], [0]]\<rparr>,
            npwz = [1], npdz = [1, 0]\<rparr> \<and>
   sum_list (rws \<lparr>ncols = 1, rws = [[1], [0::real]]\<rparr> ! 1) \<noteq> 1"
  by code_simp

text \<open>Claim C3, amended, at a concrete input with two topics.\<close>

theorem m_step_row_sums_witness:
  "\<exists>b. plsa_m_step [0, 0] [0, 1] [3, 1] ex_topic_word ex_doc_topic ex_posterior
          [0, 0] [0] = Inr b \<and>
        nrows (pwz b) = nrows ex_topic_word \<and> nrows (pzd b) = nrows ex_doc_topic \<and>
        (\<forall>z<nrows ex_topic_word.
           sum_list (rws (pwz b) ! z) = (if npwz b ! z > 0 then 1 else npwz b ! z)) \<and>
        (\<forall>d<nrows ex_doc_topic.
           sum_list (rws (pzd b) ! d) = (if npdz b ! d > 0 then 1 else npdz b ! d)) \<and>
        (\<forall>z<nrows ex_topic_word.
           npwz b ! z = topic_mass [3, 1] ex_posterior (length [3, 1 :: real]) z) \<and>
        (\<forall>d<nrows ex_doc_topic.
           npdz b ! d = doc_mass [0, 0] [3, 1] ex_posterior (length [3, 1 :: real]) d)"
proof -
  have sh: "em_shapes [0, 0] [0, 1] [3, 1] ex_topic_word ex_doc_topic ex_posterior"
    by (simp add: em_shapes_def wf_matrix_def nrows_def ex_topic_word_def
        ex_doc_topic_def ex_posterior_def)
  have l1: "length [0, 0 :: real] = nrows ex_topic_word"
    and l2: "length [0 :: real] = nrows ex_doc_topic"
    by (simp_all add: nrows_def ex_topic_word_def ex_doc_topic_def)
  show ?thesis by (rule m_step_row_sums[OF sh l1 l2])
qed

text \<open>Claim C6 at a concrete input with two topics.\<close>

theorem zero_threshold_is_unthresholded_witness:
  "\<exists>P'. plsa_e_step [0, 0] [0, 1] [3, 1] ex_topic_word ex_doc_topic (zeros 2 2) 0 = Inr P' \<and>
         nrows P' = length [3, 1 :: real] \<and>
         (\<forall>i<length [3, 1 :: real]. \<forall>z<nrows ex_topic_word.
            rws P' ! i ! z =
            posterior_unthresholded ex_topic_word ex_doc_topic ([0, 0] ! i) ([0, 1] ! i) ! z)"
proof -
  have sh: "em_shapes [0, 0] [0, 1] [3, 1] ex_topic_word ex_doc_topic (zeros 2 2)"
    by (simp add: em_shapes_def wf_matrix_def nrows_def zeros_def ex_topic_word_def
        ex_doc_topic_def numeral_2_eq_2)
  have nn: "nonneg_matrix ex_topic_word" "nonneg_matrix ex_doc_topic"
    by (simp_all add: nonneg_matrix_def ex_topic_word_def ex_doc_topic_def)
  show ?thesis by (rule zero_threshold_is_unthresholded[OF sh nn])
qed

section \<open>The loops of \<^verbatim>\<open>plsa_fit_inner\<close> and \<^verbatim>\<open>plsa_refit\<close>\<close>

lemma for_each_preserves:
  assumes "\<And>i s s'. body i s = Inr s' \<Longrightarrow> f s' = f s"
    and "for_each xs body s = Inr r"
  shows "f r = f s"
  using assms(2)
proof (induction xs arbitrary: s)
  case Nil
  then show ?case by simp
next
  case (Cons i xs)
  then obtain s1 where s1: "body i s = Inr s1" "for_each xs body s1 = Inr r"
    by (auto split: sum.splits)
  from Cons.IH[OF s1(2)] assms(1)[OF s1(1)] show ?case by simp
qed

lemma and_then_eq_Inr: "and_then m f = Inr y \<longleftrightarrow> (\<exists>x. m = Inr x \<and> f x = Inr y)"
  by (cases m) simp_all

lemma for_each_break_preserves:
  assumes "\<And>i s c. body i s = Inr c \<Longrightarrow> f (ctl_state c) = f s"
    and "for_each_break xs body s = Inr r"
  shows "f r = f s"
  using assms(2)
proof (induction xs arbitrary: s)
  case Nil
  then show ?case by simp
next
  case (Cons i xs)
  show ?case
  proof (cases "body i s")
    case (Inl e)
    with Cons.prems show ?thesis by simp
  next
    case (Inr c)
    show ?thesis
    proof (cases c)
      case (Continue s1)
      with Inr Cons.prems have "for_each_break xs body s1 = Inr r" by simp
      from Cons.IH[OF this] assms(1)[OF Inr] Continue show ?thesis by simp
    next
      case (Break s1)
      with Inr Cons.prems assms(1)[OF Inr] show ?thesis by simp
    qed
  qed
qed

lemma refit_accumulate_topics:
  "refit_accumulate P i d x z b = Inr b' \<Longrightarrow> rb_pwz b' = rb_pwz b"
  by (auto simp: refit_accumulate_def and_then_eq_Inr Let_def)

lemma refit_entry_topics:
  "refit_entry X_rows X_cols X_vals P k i b = Inr b' \<Longrightarrow> rb_pwz b' = rb_pwz b"
  by (auto simp: refit_entry_def and_then_eq_Inr
      elim!: for_each_preserves[rotated] dest: refit_accumulate_topics)

lemma refit_div_doc_topics:
  "refit_div_doc z d b = Inr b' \<Longrightarrow> rb_pwz b' = rb_pwz b"
  by (auto simp: refit_div_doc_def and_then_eq_Inr split: if_splits)

lemma plsa_refit_m_step_topics:
  assumes "plsa_refit_m_step X_rows X_cols X_vals topics D P nd = Inr b"
  shows "rb_pwz b = topics"
proof -
  from assms obtain b1 where
    acc: "for_each [0..<length X_vals] (refit_entry X_rows X_cols X_vals P (ncols P))
            \<lparr>rb_pwz = topics, rb_pzd = fill_zero D, rb_npdz = replicate (length nd) 0\<rparr> = Inr b1"
    and nrm: "for_each [0..<ncols P] (\<lambda>z. for_each [0..<nrows D] (refit_div_doc z)) b1 = Inr b"
    by (auto simp: plsa_refit_m_step_def Let_def and_then_eq_Inr)
  have "rb_pwz b1 = topics"
    using for_each_preserves[where f = rb_pwz, OF _ acc] refit_entry_topics by simp
  moreover have "rb_pwz b = rb_pwz b1"
  proof (rule for_each_preserves[where f = rb_pwz, OF _ nrm])
    fix z s s' assume "for_each [0..<nrows D] (refit_div_doc z) s = Inr s'"
    then show "rb_pwz s' = rb_pwz s"
      by (rule for_each_preserves[where f = rb_pwz, rotated]) (rule refit_div_doc_topics)
  qed
  ultimately show ?thesis by simp
qed

lemma refit_em_step_topics:
  "refit_em_step X_rows X_cols X_vals thr a = Inr a' \<Longrightarrow> topic_word a' = topic_word a"
  by (auto simp: refit_em_step_def and_then_eq_Inr dest: plsa_refit_m_step_topics)

lemma refit_test_arrays:
  "refit_test X_rows X_cols X_vals tol i s = Inr c \<Longrightarrow> arrays (ctl_state c) = arrays s"
  by (auto simp: refit_test_def and_then_eq_Inr Let_def split: if_splits)

lemma refit_iteration_Inr:
  "refit_iteration X_rows X_cols X_vals npt tol thr i s = Inr c \<longleftrightarrow>
   (\<exists>a. refit_em_step X_rows X_cols X_vals thr (arrays s) = Inr a \<and> npt \<noteq> 0 \<and>
        (if int i mod npt = 0
         then refit_test X_rows X_cols X_vals tol i
                (s\<lparr>arrays := a, iterations := Suc (iterations s)\<rparr>) = Inr c
         else c = Continue (s\<lparr>arrays := a, iterations := Suc (iterations s)\<rparr>)))"
  by (auto simp: refit_iteration_def and_then_eq_Inr Let_def py_mod_def)

lemma refit_iteration_topics:
  assumes "refit_iteration X_rows X_cols X_vals npt tol thr i s = Inr c"
  shows "topic_word (arrays (ctl_state c)) = topic_word (arrays s)"
proof -
  from assms obtain a where a: "refit_em_step X_rows X_cols X_vals thr (arrays s) = Inr a"
    and c: "if int i mod npt = 0
            then refit_test X_rows X_cols X_vals tol i
                   (s\<lparr>arrays := a, iterations := Suc (iterations s)\<rparr>) = Inr c
            else c = Continue (s\<lparr>arrays := a, iterations := Suc (iterations s)\<rparr>)"
    unfolding refit_iteration_Inr by blast
  have "arrays (ctl_state c) = a"
    using c refit_test_arrays[of X_rows X_cols X_vals tol i _ c]
    by (auto split: if_splits)
  with refit_em_step_topics[OF a] show ?thesis by simp
qed

lemma for_each_break_upt:
  assumes "for_each_break [a..<b] body s = Inr r" and "a \<le> b" and "I a s"
    and step: "\<And>i s c. i < b \<Longrightarrow> I i s \<Longrightarrow> body i s = Inr c \<Longrightarrow>
                 (case c of Continue s' \<Rightarrow> I (Suc i) s' | Break s' \<Rightarrow> B i s')"
  shows "I b r \<or> (\<exists>i. a \<le> i \<and> i < b \<and> B i r)"
  using assms(1-3)
proof (induction "b - a" arbitrary: a s)
  case 0
  then show ?case using step by simp
next
  case (Suc n)
  then have ab: "a < b" by simp
  then have upt: "[a..<b] = a # [Suc a..<b]" by (simp add: upt_conv_Cons)
  show ?case
  proof (cases "body a s")
    case (Inl e)
    with Suc.prems upt show ?thesis by simp
  next
    case (Inr c)
    from step[OF ab _ Inr] Suc.prems
    have c: "case c of Continue s' \<Rightarrow> I (Suc a) s' | Break s' \<Rightarrow> B a s'" by simp
    show ?thesis
    proof (cases c)
      case (Continue s1)
      with Inr Suc.prems upt have run: "for_each_break [Suc a..<b] body s1 = Inr r" by simp
      from c Continue have I1: "I (Suc a) s1" by simp
      have "I b r \<or> (\<exists>i. Suc a \<le> i \<and> i < b \<and> B i r)"
      proof (rule Suc.hyps(1)[OF _ run _ I1])
        show "n = b - Suc a" using Suc.hyps(2) by simp
        show "Suc a \<le> b" using ab by simp
      qed
      then show ?thesis by (auto intro: Suc_leD)
    next
      case (Break s1)
      with Inr Suc.prems upt have "r = s1" by simp
      with c Break ab show ?thesis by auto
    qed
  qed
qed

lemma f_abs_eq_zero [simp]: "f_abs L = Finite 0 \<longleftrightarrow> L = Finite 0"
  by (cases L) simp_all

lemma f_div_zero [simp]: "f_div a (Finite 0) = Inl ZeroDivisionError"
  by simp

lemma f_div_Inr: "b \<noteq> Finite 0 \<Longrightarrow> \<exists>q. f_div a b = Inr q"
  by (cases a; cases b) simp_all

lemma f_less_zero_nonzero: "f_less (Finite 0) L \<Longrightarrow> L \<noteq> Finite 0"
  by (cases L) simp_all

lemma rel_change_Inr:
  "current_ll c \<noteq> Finite 0 \<Longrightarrow> \<exists>q. rel_change c = Inr q"
  by (simp add: rel_change_def f_div_Inr)

lemma rel_change_zero:
  "current_ll c = Finite 0 \<Longrightarrow> rel_change c = Inl ZeroDivisionError"
  by (simp add: rel_change_def)

lemma run_ok_plain:
  assumes "run_ok step ll npt a0 s" "step (arrays s) = Inr a" "int (iterations s) mod npt \<noteq> 0"
    and "arrays s' = a" "iterations s' = Suc (iterations s)" "checkpoints s' = checkpoints s"
  shows "run_ok step ll npt a0 s'"
  using assms by (simp add: run_ok_def)

lemma run_ok_check:
  assumes "run_ok step ll npt a0 s" "step (arrays s) = Inr a" "int (iterations s) mod npt = 0"
    and "ll a = Inr L"
    and "arrays s' = a" "iterations s' = Suc (iterations s)"
    and "checkpoints s' = checkpoints s @ [c]" "at_iter c = iterations s" "current_ll c = L"
  shows "run_ok step ll npt a0 s'"
  using assms by (auto simp: run_ok_def)

lemma ll_chain_snoc:
  "ll_chain L0 cs \<Longrightarrow> previous_ll c = last (L0 # map current_ll cs) \<Longrightarrow> ll_chain L0 (cs @ [c])"
  by (simp add: ll_chain_def butlast_append)

lemma fit_test_value:
  assumes "model_ll X_rows X_cols X_vals (arrays s) = Inr L" "L \<noteq> Finite 0"
  shows "fit_test X_rows X_cols X_vals tol i s =
     Inr (if test_passes tol \<lparr>at_iter = i, current_ll = L,
                         previous_ll = previous_log_likelihood s, tested = True\<rparr>
          then Break (s\<lparr>checkpoints := checkpoints s @
                 [\<lparr>at_iter = i, current_ll = L,
                   previous_ll = previous_log_likelihood s, tested = True\<rparr>],
                 converged := True\<rparr>)
          else Continue (s\<lparr>checkpoints := checkpoints s @
                 [\<lparr>at_iter = i, current_ll = L,
                   previous_ll = previous_log_likelihood s, tested = True\<rparr>],
                 previous_log_likelihood := L\<rparr>))"
proof -
  from f_div_Inr[of "f_abs L" "f_abs (f_sub L (previous_log_likelihood s))"] assms(2)
  obtain q where q: "f_div (f_abs (f_sub L (previous_log_likelihood s))) (f_abs L) = Inr q"
    by auto
  show ?thesis
    using assms(1) q
    by (simp add: fit_test_def model_ll_def test_passes_def rel_change_def Let_def)
qed

lemma fit_test_zero:
  assumes "model_ll X_rows X_cols X_vals (arrays s) = Inr (Finite 0)"
  shows "fit_test X_rows X_cols X_vals tol i s = Inl ZeroDivisionError"
  using assms by (simp add: fit_test_def model_ll_def Let_def)

lemma fit_test_Inr:
  assumes "fit_test X_rows X_cols X_vals tol i s = Inr c"
  obtains L where "model_ll X_rows X_cols X_vals (arrays s) = Inr L" "L \<noteq> Finite 0"
    "c = (if test_passes tol \<lparr>at_iter = i, current_ll = L,
                         previous_ll = previous_log_likelihood s, tested = True\<rparr>
          then Break (s\<lparr>checkpoints := checkpoints s @
                 [\<lparr>at_iter = i, current_ll = L,
                   previous_ll = previous_log_likelihood s, tested = True\<rparr>],
                 converged := True\<rparr>)
          else Continue (s\<lparr>checkpoints := checkpoints s @
                 [\<lparr>at_iter = i, current_ll = L,
                   previous_ll = previous_log_likelihood s, tested = True\<rparr>],
                 previous_log_likelihood := L\<rparr>))"
proof (cases "model_ll X_rows X_cols X_vals (arrays s)")
  case (Inl e)
  with assms show ?thesis by (simp add: fit_test_def model_ll_def)
next
  case (Inr L)
  show ?thesis
  proof (cases "L = Finite 0")
    case True
    with Inr assms fit_test_zero[of X_rows X_cols X_vals s tol i] show ?thesis by simp
  next
    case False
    from fit_test_value[OF Inr False, of tol i] assms that[OF Inr False] show ?thesis
      by simp
  qed
qed

lemma fit_iteration_Inr:
  "fit_iteration X_rows X_cols X_vals npt tol thr i s = Inr c \<longleftrightarrow>
   (\<exists>a. em_step X_rows X_cols X_vals thr (arrays s) = Inr a \<and> npt \<noteq> 0 \<and>
        (if int i mod npt = 0
         then fit_test X_rows X_cols X_vals tol i
                (s\<lparr>arrays := a, iterations := Suc (iterations s)\<rparr>) = Inr c
         else c = Continue (s\<lparr>arrays := a, iterations := Suc (iterations s)\<rparr>)))"
  by (auto simp: fit_iteration_def and_then_eq_Inr Let_def py_mod_def)

lemma fit_iteration_step:
  assumes head: "fit_head (em_step X_rows X_cols X_vals thr) (model_ll X_rows X_cols X_vals)
                   npt tol a0 L0 i s"
    and it: "fit_iteration X_rows X_cols X_vals npt tol thr i s = Inr c"
  shows "case c of
           Continue s' \<Rightarrow> fit_head (em_step X_rows X_cols X_vals thr)
                            (model_ll X_rows X_cols X_vals) npt tol a0 L0 (Suc i) s'
         | Break s' \<Rightarrow> fit_broke (em_step X_rows X_cols X_vals thr)
                         (model_ll X_rows X_cols X_vals) npt tol a0 L0 i s'"
proof -
  let ?step = "em_step X_rows X_cols X_vals thr" and ?ll = "model_ll X_rows X_cols X_vals"
  from head have ok: "run_ok ?step ?ll npt a0 s" and i: "iterations s = i"
    and nc: "\<not> converged s"
    and cs: "\<forall>c\<in>set (checkpoints s). tested c \<and> current_ll c \<noteq> Finite 0 \<and> \<not> test_passes tol c"
    and chain: "ll_chain L0 (checkpoints s)"
    and prev: "previous_log_likelihood s = last (L0 # map current_ll (checkpoints s))"
    by (simp_all add: fit_head_def)
  from it obtain a where a: "?step (arrays s) = Inr a"
    and c: "if int i mod npt = 0
            then fit_test X_rows X_cols X_vals tol i
                   (s\<lparr>arrays := a, iterations := Suc (iterations s)\<rparr>) = Inr c
            else c = Continue (s\<lparr>arrays := a, iterations := Suc (iterations s)\<rparr>)"
    unfolding fit_iteration_Inr by blast
  let ?s1 = "s\<lparr>arrays := a, iterations := Suc (iterations s)\<rparr>"
  show ?thesis
  proof (cases "int i mod npt = 0")
    case False
    with c have c': "c = Continue ?s1" by simp
    have ok1: "run_ok ?step ?ll npt a0 ?s1"
      by (rule run_ok_plain[OF ok a]) (use False i in simp_all)
    have "fit_head ?step ?ll npt tol a0 L0 (Suc i) ?s1"
      unfolding fit_head_def
    proof (intro conjI)
      show "run_ok ?step ?ll npt a0 ?s1" by (rule ok1)
      show "iterations ?s1 = Suc i" using i by simp
      show "\<not> converged ?s1" using nc by simp
      show "\<forall>c\<in>set (checkpoints ?s1). tested c \<and> current_ll c \<noteq> Finite 0 \<and> \<not> test_passes tol c"
        using cs by simp
      show "ll_chain L0 (checkpoints ?s1)" using chain by simp
      show "previous_log_likelihood ?s1 = last (L0 # map current_ll (checkpoints ?s1))"
        using prev by simp
    qed
    with c' show ?thesis by simp
  next
    case True
    with c have "fit_test X_rows X_cols X_vals tol i ?s1 = Inr c" by simp
    then obtain L where L: "?ll (arrays ?s1) = Inr L" "L \<noteq> Finite 0"
      and c': "c = (if test_passes tol \<lparr>at_iter = i, current_ll = L,
                         previous_ll = previous_log_likelihood ?s1, tested = True\<rparr>
          then Break (?s1\<lparr>checkpoints := checkpoints ?s1 @
                 [\<lparr>at_iter = i, current_ll = L,
                   previous_ll = previous_log_likelihood ?s1, tested = True\<rparr>],
                 converged := True\<rparr>)
          else Continue (?s1\<lparr>checkpoints := checkpoints ?s1 @
                 [\<lparr>at_iter = i, current_ll = L,
                   previous_ll = previous_log_likelihood ?s1, tested = True\<rparr>],
                 previous_log_likelihood := L\<rparr>))"
      by (rule fit_test_Inr)
    define ck where "ck = \<lparr>at_iter = i, current_ll = L,
        previous_ll = previous_log_likelihood s, tested = True\<rparr>"
    have ck: "at_iter ck = i" "current_ll ck = L" "tested ck"
      "previous_ll ck = previous_log_likelihood s"
      by (simp_all add: ck_def)
    have chain': "ll_chain L0 (checkpoints s @ [ck])"
      using chain prev ck(4) by (intro ll_chain_snoc) simp_all
    have La: "?ll a = Inr L" using L(1) by simp
    show ?thesis
    proof (cases "test_passes tol ck")
      case brk: True
      define r where "r = ?s1\<lparr>checkpoints := checkpoints s @ [ck], converged := True\<rparr>"
      have r: "arrays r = a" "iterations r = Suc (iterations s)"
        "checkpoints r = checkpoints s @ [ck]" "converged r"
        by (simp_all add: r_def)
      have cr: "c = Break r" using c' brk by (simp add: r_def ck_def)
      have "run_ok ?step ?ll npt a0 r"
        by (rule run_ok_check[OF ok a _ La, of r ck]) (use True i r ck in simp_all)
      moreover have "\<forall>c\<in>set (checkpoints r). tested c \<and> current_ll c \<noteq> Finite 0"
        using cs ck L(2) r(3) by auto
      moreover have "\<forall>c\<in>set (butlast (checkpoints r)). \<not> test_passes tol c"
        using cs r(3) by simp
      ultimately have "fit_broke ?step ?ll npt tol a0 L0 i r"
        unfolding fit_broke_def using r i ck brk chain' by simp
      with cr show ?thesis by simp
    next
      case cont: False
      define r where "r = ?s1\<lparr>checkpoints := checkpoints s @ [ck],
          previous_log_likelihood := L\<rparr>"
      have r: "arrays r = a" "iterations r = Suc (iterations s)"
        "checkpoints r = checkpoints s @ [ck]" "\<not> converged r"
        "previous_log_likelihood r = L"
        using nc by (simp_all add: r_def)
      have cr: "c = Continue r" using c' cont by (simp add: r_def ck_def)
      have "run_ok ?step ?ll npt a0 r"
        by (rule run_ok_check[OF ok a _ La, of r ck]) (use True i r ck in simp_all)
      moreover have "\<forall>c\<in>set (checkpoints r). tested c \<and> current_ll c \<noteq> Finite 0 \<and> \<not> test_passes tol c"
        using cs ck L(2) r(3) cont by auto
      ultimately have "fit_head ?step ?ll npt tol a0 L0 (Suc i) r"
        unfolding fit_head_def using r i ck chain' by simp
      with cr show ?thesis by simp
    qed
  qed
qed

lemma fit_run_final:
  assumes "plsa_fit_inner_run X_rows X_cols X_vals W D n_iter npt tol thr = Inr r"
  obtains L0 where "log_likelihood X_rows X_cols X_vals W D = Inr L0"
    and "fit_head (em_step X_rows X_cols X_vals thr) (model_ll X_rows X_cols X_vals) npt tol
           (fit_initial_arrays X_vals W D) L0 (nat n_iter) r \<or>
         (\<exists>i<nat n_iter. fit_broke (em_step X_rows X_cols X_vals thr)
           (model_ll X_rows X_cols X_vals) npt tol (fit_initial_arrays X_vals W D) L0 i r)"
proof -
  let ?step = "em_step X_rows X_cols X_vals thr" and ?ll = "model_ll X_rows X_cols X_vals"
  let ?a0 = "fit_initial_arrays X_vals W D"
  from assms obtain L0 where L0: "log_likelihood X_rows X_cols X_vals W D = Inr L0"
    and run: "for_each_break [0..<nat n_iter]
        (fit_iteration X_rows X_cols X_vals npt tol thr)
        \<lparr>arrays = ?a0, previous_log_likelihood = L0, iterations = 0, checkpoints = [],
         converged = False\<rparr> = Inr r"
    by (auto simp: plsa_fit_inner_run_def Let_def and_then_eq_Inr fit_initial_arrays_def)
  let ?s0 = "\<lparr>arrays = ?a0, previous_log_likelihood = L0, iterations = 0, checkpoints = [],
         converged = False\<rparr>"
  have head0: "fit_head ?step ?ll npt tol ?a0 L0 0 ?s0"
    by (simp add: fit_head_def run_ok_def ll_chain_def)
  have "fit_head ?step ?ll npt tol ?a0 L0 (nat n_iter) r \<or>
      (\<exists>i. 0 \<le> i \<and> i < nat n_iter \<and> fit_broke ?step ?ll npt tol ?a0 L0 i r)"
    by (rule for_each_break_upt[where I = "fit_head ?step ?ll npt tol ?a0 L0"
          and B = "fit_broke ?step ?ll npt tol ?a0 L0", OF run _ head0])
      (simp, rule fit_iteration_step)
  then show ?thesis using that[OF L0] by auto
qed

lemma ll_mix_loop_returns:
  assumes "k \<le> nrows W" "w < ncols W" "d < nrows D" "k \<le> ncols D"
  shows "\<exists>p. for_each [0..<k] (ll_mix W D d w) p0 = Inr p"
proof -
  have "\<exists>p. for_each [0..<k] (ll_mix W D d w) p0 = Inr p \<and> True"
    by (rule for_each_inv) (use assms in \<open>auto simp: ll_mix_def\<close>)
  then show ?thesis by simp
qed

lemma log_likelihood_returns:
  assumes "em_shapes X_rows X_cols X_vals W D P"
  shows "\<exists>L. log_likelihood X_rows X_cols X_vals W D = Inr L"
proof -
  have sh: "length X_rows = length X_vals" "length X_cols = length X_vals"
    "\<And>i. i < length X_vals \<Longrightarrow> X_rows ! i < nrows D"
    "\<And>i. i < length X_vals \<Longrightarrow> X_cols ! i < ncols W"
    "ncols D = nrows W"
    using assms by (auto simp: em_shapes_def list_all_length)
  have "\<exists>L. for_each [0..<length X_vals]
          (ll_entry X_rows X_cols X_vals W D (nrows W)) (Finite 0) = Inr L \<and> True"
  proof (rule for_each_inv)
    fix i s assume "i \<in> set [0..<length X_vals]"
    then have i: "i < length X_vals" by simp
    from ll_mix_loop_returns[of "nrows W" W "X_cols ! i" "X_rows ! i" D 0] sh i
    obtain p where "for_each [0..<nrows W] (ll_mix W D (X_rows ! i) (X_cols ! i)) 0 = Inr p"
      by auto
    then show "\<exists>s'. ll_entry X_rows X_cols X_vals W D (nrows W) i s = Inr s' \<and> True"
      using i sh by (simp add: ll_entry_def)
  qed simp
  then show ?thesis by (simp add: log_likelihood_def)
qed

lemma e_step_shapes:
  assumes "em_shapes X_rows X_cols X_vals W D P"
  shows "\<exists>P'. plsa_e_step X_rows X_cols X_vals W D P thr = Inr P' \<and>
           wf_matrix P' \<and> ncols P' = nrows W \<and> nrows P' = length X_vals"
proof -
  have "ncols P = nrows W" using assms by (simp add: em_shapes_def)
  then show ?thesis
    unfolding plsa_e_step_rows[OF assms]
    by (simp add: wf_matrix_def list_all_length)
qed

lemma wf_matrix_rows:
  "(\<And>i. i < length rs \<Longrightarrow> length (rs ! i) = ncols M) \<Longrightarrow> wf_matrix (M\<lparr>rws := rs\<rparr>)"
  by (simp add: wf_matrix_def list_all_length)

lemma m_step_shapes:
  assumes "em_shapes X_rows X_cols X_vals W D P"
    and "length nw = nrows W" and "length nd = nrows D"
  shows "\<exists>b. plsa_m_step X_rows X_cols X_vals W D P nw nd = Inr b \<and>
           wf_matrix (pwz b) \<and> nrows (pwz b) = nrows W \<and> ncols (pwz b) = ncols W \<and>
           wf_matrix (pzd b) \<and> nrows (pzd b) = nrows D \<and> ncols (pzd b) = ncols D \<and>
           length (npwz b) = nrows W \<and> length (npdz b) = nrows D"
proof -
  let ?k = "nrows W" and ?m = "ncols W" and ?n = "nrows D"
  have kP: "ncols P = ?k" and kD: "ncols D = ?k" using assms(1) by (simp_all add: em_shapes_def)
  from m_accumulate_loop_inv[OF assms(1) m_acc_inv_zero[OF assms(2,3) kD]]
  obtain b1 where acc: "for_each [0..<length X_vals]
        (m_step_entry X_rows X_cols X_vals P ?k) (m_zero_buffers W D nw nd) = Inr b1"
    and inv: "m_acc_inv ?k ?m ?n b1" by blast
  from inv have sh: "nrows (pwz b1) = ?k" "ncols (pwz b1) = ?m" "wf_matrix (pwz b1)"
    "nrows (pzd b1) = ?n" "ncols (pzd b1) = ?k" "wf_matrix (pzd b1)"
    "length (npwz b1) = ?k" "length (npdz b1) = ?n"
    by (simp_all add: m_acc_inv_def)
  let ?b = "b1\<lparr>pwz := (pwz b1)\<lparr>rws :=
                 map (\<lambda>z. norm_row (npwz b1 ! z) (rws (pwz b1) ! z)) [0..<?k]
                 @ drop ?k (rws (pwz b1))\<rparr>,
               pzd := (pzd b1)\<lparr>rws :=
                 map (\<lambda>d. norm_prefix ?k (npdz b1 ! d) (rws (pzd b1) ! d)) [0..<?n]\<rparr>\<rparr>"
  have nrm: "for_each [0..<?k] (m_step_normalize ?m ?n) b1 = Inr ?b"
    using sh by (intro m_normalize_loop) simp_all
  have run: "plsa_m_step X_rows X_cols X_vals W D P nw nd = Inr ?b"
    by (simp add: plsa_m_step_unfold kP acc nrm)
  have lw: "z < ?k \<Longrightarrow> length (rws (pwz b1) ! z) = ?m" for z
    using sh wf_matrix_row by auto
  have ld: "d < ?n \<Longrightarrow> length (rws (pzd b1) ! d) = ?k" for d
    using sh wf_matrix_row by auto
  have "wf_matrix (pwz ?b)"
    using sh lw by (auto simp: nrows_def norm_row_def nth_append intro!: wf_matrix_rows)
  moreover have "wf_matrix (pzd ?b)"
    using sh ld by (auto intro!: wf_matrix_rows)
  ultimately show ?thesis
    unfolding run using sh kD by (simp add: nrows_def)
qed

lemma em_step_inv:
  assumes "fit_inv X_rows X_cols X_vals a"
  shows "\<exists>a'. em_step X_rows X_cols X_vals thr a = Inr a' \<and> fit_inv X_rows X_cols X_vals a'"
proof -
  from assms have sh: "em_shapes X_rows X_cols X_vals (topic_word a) (doc_topic a) (posterior a)"
    and ln: "length (norm_topic a) = nrows (topic_word a)"
      "length (norm_doc a) = nrows (doc_topic a)"
    by (simp_all add: fit_inv_def)
  from e_step_shapes[OF sh, of thr] obtain P where
    P: "plsa_e_step X_rows X_cols X_vals (topic_word a) (doc_topic a) (posterior a) thr = Inr P"
    and Psh: "wf_matrix P" "ncols P = nrows (topic_word a)" "nrows P = length X_vals"
    by blast
  have sh': "em_shapes X_rows X_cols X_vals (topic_word a) (doc_topic a) P"
    using sh Psh by (simp add: em_shapes_def)
  from m_step_shapes[OF sh' ln] obtain b where
    b: "plsa_m_step X_rows X_cols X_vals (topic_word a) (doc_topic a) P
          (norm_topic a) (norm_doc a) = Inr b"
    and bsh: "wf_matrix (pwz b)" "nrows (pwz b) = nrows (topic_word a)"
      "ncols (pwz b) = ncols (topic_word a)"
      "wf_matrix (pzd b)" "nrows (pzd b) = nrows (doc_topic a)"
      "ncols (pzd b) = ncols (doc_topic a)"
      "length (npwz b) = nrows (topic_word a)" "length (npdz b) = nrows (doc_topic a)"
    by blast
  show ?thesis
    using P b sh Psh bsh by (simp add: em_step_def fit_inv_def em_shapes_def)
qed

lemma mat_div_shapes:
  assumes "wf_matrix M" "i < nrows M" "j < ncols M" "d \<noteq> 0"
  shows "\<exists>M'. mat_div M i j d = Inr M' \<and> wf_matrix M' \<and> nrows M' = nrows M \<and>
           ncols M' = ncols M"
  using assms wf_matrix_row[OF assms(1,2)]
  by (simp add: mat_div_ok wf_matrix_update nrows_def)

lemma mat_add_shapes:
  assumes "wf_matrix M" "i < nrows M" "j < ncols M"
  shows "\<exists>M'. mat_add M i j s = Inr M' \<and> wf_matrix M' \<and> nrows M' = nrows M \<and>
           ncols M' = ncols M"
  using assms wf_matrix_row[OF assms(1,2)]
  by (simp add: mat_add_ok wf_matrix_update nrows_def)

lemma refit_accumulate_inv:
  assumes "refit_buf_inv topics k n b" "i < nrows P" "ncols P = k" "z < k" "d < n"
  shows "\<exists>b'. refit_accumulate P i d x z b = Inr b' \<and> refit_buf_inv topics k n b'"
proof -
  from assms(1) have sh: "rb_pwz b = topics" "wf_matrix (rb_pzd b)" "nrows (rb_pzd b) = n"
    "ncols (rb_pzd b) = k" "length (rb_npdz b) = n"
    by (simp_all add: refit_buf_inv_def)
  from mat_add_shapes[of "rb_pzd b" d z "x * rws P ! i ! z"] sh assms(4,5)
  obtain M' where "mat_add (rb_pzd b) d z (x * rws P ! i ! z) = Inr M'"
    "wf_matrix M'" "nrows M' = n" "ncols M' = k" by auto
  then show ?thesis
    using assms(2-5) sh
    by (simp add: refit_accumulate_def Let_def vec_add_ok refit_buf_inv_def)
qed

lemma refit_entry_inv:
  assumes "refit_buf_inv topics k n b" "i < nrows P" "ncols P = k"
    and "i < length X_rows" "i < length X_cols" "i < length X_vals" "X_rows ! i < n"
  shows "\<exists>b'. refit_entry X_rows X_cols X_vals P k i b = Inr b' \<and> refit_buf_inv topics k n b'"
  using assms
  by (simp add: refit_entry_def) (rule for_each_inv, auto intro: refit_accumulate_inv)

lemma refit_div_doc_inv:
  assumes "refit_buf_inv topics k n b" "z < k" "d < n"
  shows "\<exists>b'. refit_div_doc z d b = Inr b' \<and> refit_buf_inv topics k n b'"
proof -
  from assms(1) have sh: "rb_pwz b = topics" "wf_matrix (rb_pzd b)" "nrows (rb_pzd b) = n"
    "ncols (rb_pzd b) = k" "length (rb_npdz b) = n"
    by (simp_all add: refit_buf_inv_def)
  show ?thesis
  proof (cases "rb_npdz b ! d > 0")
    case True
    from mat_div_shapes[of "rb_pzd b" d z "rb_npdz b ! d"] sh assms(2,3) True
    obtain M' where "mat_div (rb_pzd b) d z (rb_npdz b ! d) = Inr M'"
      "wf_matrix M'" "nrows M' = n" "ncols M' = k" by auto
    then show ?thesis
      using True sh assms(2,3) by (simp add: refit_div_doc_def refit_buf_inv_def)
  next
    case False
    then show ?thesis
      using sh assms by (simp add: refit_div_doc_def)
  qed
qed

lemma refit_m_step_shapes:
  assumes "em_shapes X_rows X_cols X_vals W D P" and "length nd = nrows D"
  shows "\<exists>b. plsa_refit_m_step X_rows X_cols X_vals W D P nd = Inr b \<and>
           refit_buf_inv W (nrows W) (nrows D) b"
proof -
  let ?k = "nrows W" and ?n = "nrows D"
  have sh: "length X_rows = length X_vals" "length X_cols = length X_vals"
    "\<And>i. i < length X_vals \<Longrightarrow> X_rows ! i < ?n"
    "ncols D = ?k" "ncols P = ?k" "nrows P = length X_vals" "wf_matrix D"
    using assms(1) by (auto simp: em_shapes_def list_all_length)
  let ?b0 = "\<lparr>rb_pwz = W, rb_pzd = fill_zero D, rb_npdz = replicate (length nd) 0\<rparr>"
  have b0: "refit_buf_inv W ?k ?n ?b0"
    using sh assms(2)
    by (simp add: refit_buf_inv_def fill_zero_def)
  have "\<exists>b1. for_each [0..<length X_vals] (refit_entry X_rows X_cols X_vals P ?k) ?b0 = Inr b1 \<and>
          refit_buf_inv W ?k ?n b1"
  proof (rule for_each_inv[where I = "refit_buf_inv W ?k ?n", OF b0])
    fix i s assume "i \<in> set [0..<length X_vals]" and s: "refit_buf_inv W ?k ?n s"
    then have "i < length X_vals" by simp
    with sh show "\<exists>s'. refit_entry X_rows X_cols X_vals P ?k i s = Inr s' \<and>
        refit_buf_inv W ?k ?n s'"
      by (intro refit_entry_inv[OF s]) simp_all
  qed
  then obtain b1 where acc: "for_each [0..<length X_vals]
        (refit_entry X_rows X_cols X_vals P ?k) ?b0 = Inr b1"
    and b1: "refit_buf_inv W ?k ?n b1" by blast
  have "\<exists>b. for_each [0..<?k] (\<lambda>z. for_each [0..<?n] (refit_div_doc z)) b1 = Inr b \<and>
          refit_buf_inv W ?k ?n b"
  proof (rule for_each_inv[where I = "refit_buf_inv W ?k ?n", OF b1])
    fix z s assume "z \<in> set [0..<?k]" and s: "refit_buf_inv W ?k ?n s"
    then have z: "z < ?k" by simp
    show "\<exists>s'. for_each [0..<?n] (refit_div_doc z) s = Inr s' \<and> refit_buf_inv W ?k ?n s'"
      by (rule for_each_inv[where I = "refit_buf_inv W ?k ?n", OF s])
        (use z in \<open>auto intro: refit_div_doc_inv\<close>)
  qed
  then show ?thesis
    using acc sh by (auto simp: plsa_refit_m_step_def Let_def)
qed

lemma refit_em_step_inv:
  assumes "refit_inv X_rows X_cols X_vals a"
  shows "\<exists>a'. refit_em_step X_rows X_cols X_vals thr a = Inr a' \<and>
           refit_inv X_rows X_cols X_vals a'"
proof -
  from assms have sh: "em_shapes X_rows X_cols X_vals (topic_word a) (doc_topic a) (posterior a)"
    and ln: "length (norm_doc a) = nrows (doc_topic a)"
    by (simp_all add: refit_inv_def)
  from e_step_shapes[OF sh, of thr] obtain P where
    P: "plsa_e_step X_rows X_cols X_vals (topic_word a) (doc_topic a) (posterior a) thr = Inr P"
    and Psh: "wf_matrix P" "ncols P = nrows (topic_word a)" "nrows P = length X_vals"
    by blast
  have sh': "em_shapes X_rows X_cols X_vals (topic_word a) (doc_topic a) P"
    using sh Psh by (simp add: em_shapes_def)
  from refit_m_step_shapes[OF sh' ln] obtain b where
    b: "plsa_refit_m_step X_rows X_cols X_vals (topic_word a) (doc_topic a) P (norm_doc a) = Inr b"
    and bsh: "refit_buf_inv (topic_word a) (nrows (topic_word a)) (nrows (doc_topic a)) b"
    by blast
  show ?thesis
    using P b sh Psh bsh
    by (simp add: refit_em_step_def refit_inv_def em_shapes_def refit_buf_inv_def)
qed

lemma for_each_break_returns:
  assumes "I s"
    and "\<And>i s. i \<in> set xs \<Longrightarrow> I s \<Longrightarrow>
           (\<exists>c. body i s = Inr c \<and> I (ctl_state c)) \<or> body i s = Inl e"
  shows "(\<exists>r. for_each_break xs body s = Inr r) \<or> for_each_break xs body s = Inl e"
  using assms
proof (induction xs arbitrary: s)
  case Nil
  then show ?case by simp
next
  case (Cons i xs)
  from Cons.prems(2)[of i s] Cons.prems(1)
  consider c where "body i s = Inr c" "I (ctl_state c)" | "body i s = Inl e" by auto
  then show ?case
  proof cases
    case 1
    show ?thesis
    proof (cases c)
      case (Continue s1)
      with 1 Cons.IH[of s1] Cons.prems(2) show ?thesis by simp
    next
      case (Break s1)
      with 1 show ?thesis by simp
    qed
  next
    case 2
    then show ?thesis by simp
  qed
qed

lemma fit_iteration_returns:
  assumes "fit_inv X_rows X_cols X_vals (arrays s)" "npt \<noteq> 0"
  shows "(\<exists>c. fit_iteration X_rows X_cols X_vals npt tol thr i s = Inr c \<and>
            fit_inv X_rows X_cols X_vals (arrays (ctl_state c))) \<or>
         fit_iteration X_rows X_cols X_vals npt tol thr i s = Inl ZeroDivisionError"
proof -
  from em_step_inv[OF assms(1), of thr] obtain a where
    a: "em_step X_rows X_cols X_vals thr (arrays s) = Inr a"
    and inv: "fit_inv X_rows X_cols X_vals a" by blast
  let ?s1 = "s\<lparr>arrays := a, iterations := Suc (iterations s)\<rparr>"
  show ?thesis
  proof (cases "int i mod npt = 0")
    case False
    with a inv assms(2) show ?thesis
      by (simp add: fit_iteration_def py_mod_def Let_def)
  next
    case True
    from inv log_likelihood_returns obtain L where
      L: "model_ll X_rows X_cols X_vals (arrays ?s1) = Inr L"
      unfolding fit_inv_def model_ll_def by fastforce
    show ?thesis
    proof (cases "L = Finite 0")
      case z: True
      with L fit_test_zero[of X_rows X_cols X_vals ?s1 tol i] a True assms(2)
      show ?thesis by (simp add: fit_iteration_def py_mod_def Let_def)
    next
      case nz: False
      from fit_test_value[OF L nz, of tol i] a True assms(2) inv
      show ?thesis by (simp add: fit_iteration_def py_mod_def Let_def)
    qed
  qed
qed

lemma refit_test_returns:
  assumes "model_ll X_rows X_cols X_vals (arrays s) = Inr L"
  shows "\<exists>c. refit_test X_rows X_cols X_vals tol i s = Inr c \<and> arrays (ctl_state c) = arrays s"
proof (cases "f_less (Finite 0) L")
  case True
  from f_div_Inr[of "f_abs L" "f_abs (f_sub L (previous_log_likelihood s))"]
    f_less_zero_nonzero[OF True]
  obtain q where "f_div (f_abs (f_sub L (previous_log_likelihood s))) (f_abs L) = Inr q"
    by auto
  with True assms show ?thesis
    by (simp add: refit_test_def model_ll_def Let_def)
next
  case False
  with assms show ?thesis by (simp add: refit_test_def model_ll_def)
qed

lemma refit_iteration_returns:
  assumes "refit_inv X_rows X_cols X_vals (arrays s)" "npt \<noteq> 0"
  shows "\<exists>c. refit_iteration X_rows X_cols X_vals npt tol thr i s = Inr c \<and>
            refit_inv X_rows X_cols X_vals (arrays (ctl_state c))"
proof -
  from refit_em_step_inv[OF assms(1), of thr] obtain a where
    a: "refit_em_step X_rows X_cols X_vals thr (arrays s) = Inr a"
    and inv: "refit_inv X_rows X_cols X_vals a" by blast
  let ?s1 = "s\<lparr>arrays := a, iterations := Suc (iterations s)\<rparr>"
  from inv log_likelihood_returns obtain L where
    L: "model_ll X_rows X_cols X_vals (arrays ?s1) = Inr L"
    unfolding refit_inv_def model_ll_def by fastforce
  from refit_test_returns[OF L, of tol i] obtain c where
    c: "refit_test X_rows X_cols X_vals tol i ?s1 = Inr c" "arrays (ctl_state c) = a" by auto
  show ?thesis
    using a inv assms(2) c by (simp add: refit_iteration_def py_mod_def Let_def)
qed

lemma plsa_fit_inner_run_returns:
  assumes "em_shapes X_rows X_cols X_vals W D (zeros (length X_vals) (ncols D))" "npt \<noteq> 0"
  shows "(\<exists>r. plsa_fit_inner_run X_rows X_cols X_vals W D n_iter npt tol thr = Inr r) \<or>
         plsa_fit_inner_run X_rows X_cols X_vals W D n_iter npt tol thr = Inl ZeroDivisionError"
proof -
  from log_likelihood_returns[OF assms(1)] obtain L0 where
    L0: "log_likelihood X_rows X_cols X_vals W D = Inr L0" by blast
  let ?s0 = "\<lparr>arrays = fit_initial_arrays X_vals W D, previous_log_likelihood = L0,
      iterations = 0, checkpoints = [], converged = False\<rparr>"
  have inv0: "fit_inv X_rows X_cols X_vals (arrays ?s0)"
    using assms(1) by (simp add: fit_inv_def fit_initial_arrays_def em_shapes_def)
  have "(\<exists>r. for_each_break [0..<nat n_iter]
            (fit_iteration X_rows X_cols X_vals npt tol thr) ?s0 = Inr r) \<or>
        for_each_break [0..<nat n_iter]
            (fit_iteration X_rows X_cols X_vals npt tol thr) ?s0 = Inl ZeroDivisionError"
    by (rule for_each_break_returns[where I = "\<lambda>s. fit_inv X_rows X_cols X_vals (arrays s)",
          OF inv0]) (rule fit_iteration_returns[OF _ assms(2)])
  then show ?thesis
    by (simp add: plsa_fit_inner_run_def Let_def L0 fit_initial_arrays_def)
qed

lemma plsa_refit_run_returns:
  assumes "normalize_fn (random_draw n_documents (nrows topics)) = Inr D"
    and "em_shapes X_rows X_cols X_vals topics D (zeros (length X_vals) (nrows topics))"
    and "nrows D = n_documents" and "npt \<noteq> 0"
  shows "\<exists>r. plsa_refit_run normalize_fn random_draw X_rows X_cols X_vals topics n_documents
               n_iter npt tol thr = Inr r"
proof -
  from log_likelihood_returns[OF assms(2)] obtain L0 where
    L0: "log_likelihood X_rows X_cols X_vals topics D = Inr L0" by blast
  let ?s0 = "\<lparr>arrays = refit_initial_arrays X_vals topics D n_documents,
      previous_log_likelihood = L0, iterations = 0, checkpoints = [], converged = False\<rparr>"
  have inv0: "refit_inv X_rows X_cols X_vals (arrays ?s0)"
    using assms(2,3) by (simp add: refit_inv_def refit_initial_arrays_def)
  have "(\<exists>r. for_each_break [0..<nat n_iter]
            (refit_iteration X_rows X_cols X_vals npt tol thr) ?s0 = Inr r) \<or>
        for_each_break [0..<nat n_iter]
            (refit_iteration X_rows X_cols X_vals npt tol thr) ?s0 = Inl e" for e
    by (rule for_each_break_returns[where I = "\<lambda>s. refit_inv X_rows X_cols X_vals (arrays s)",
          OF inv0]) (use refit_iteration_returns[OF _ assms(4)] in blast)
  from this[of IndexError] this[of ZeroDivisionError]
  have "\<exists>r. for_each_break [0..<nat n_iter]
            (refit_iteration X_rows X_cols X_vals npt tol thr) ?s0 = Inr r"
    by auto
  then show ?thesis
    by (simp add: plsa_refit_run_def Let_def L0 assms(1) refit_initial_arrays_def)
qed

lemma fit_returning_run:
  assumes "plsa_fit_inner_run X_rows X_cols X_vals W D n_iter n_iter_per_test tolerance
             e_step_thresh = Inr r"
  shows "iterations r \<le> nat n_iter \<and>
         em_iterate (em_step X_rows X_cols X_vals e_step_thresh) (iterations r)
           (fit_initial_arrays X_vals W D) = Inr (arrays r) \<and>
         map at_iter (checkpoints r) =
           filter (\<lambda>i. int i mod n_iter_per_test = 0) [0..<iterations r] \<and>
         (\<forall>c\<in>set (checkpoints r).
            \<exists>a. em_iterate (em_step X_rows X_cols X_vals e_step_thresh) (Suc (at_iter c))
                   (fit_initial_arrays X_vals W D) = Inr a \<and>
                log_likelihood X_rows X_cols X_vals (topic_word a) (doc_topic a) =
                  Inr (current_ll c)) \<and>
         (\<exists>L0. log_likelihood X_rows X_cols X_vals W D = Inr L0 \<and>
               map previous_ll (checkpoints r) = butlast (L0 # map current_ll (checkpoints r))) \<and>
         (\<forall>c\<in>set (checkpoints r). \<exists>q. rel_change c = Inr q) \<and>
         (converged r \<longleftrightarrow> (\<exists>c\<in>set (checkpoints r). test_passes tolerance c)) \<and>
         (\<forall>c\<in>set (checkpoints r). test_passes tolerance c \<longrightarrow> Suc (at_iter c) = iterations r) \<and>
         (\<not> converged r \<longrightarrow> iterations r = nat n_iter) \<and>
         plsa_fit_inner X_rows X_cols X_vals W D n_iter n_iter_per_test tolerance e_step_thresh
           = Inr (doc_topic (arrays r), topic_word (arrays r))"
proof -
  let ?step = "em_step X_rows X_cols X_vals e_step_thresh"
  let ?ll = "model_ll X_rows X_cols X_vals"
  let ?a0 = "fit_initial_arrays X_vals W D"
  from assms obtain L0 where L0: "log_likelihood X_rows X_cols X_vals W D = Inr L0"
    and fin: "fit_head ?step ?ll n_iter_per_test tolerance ?a0 L0 (nat n_iter) r \<or>
         (\<exists>i<nat n_iter. fit_broke ?step ?ll n_iter_per_test tolerance ?a0 L0 i r)"
    by (rule fit_run_final)
  from fin have ok: "run_ok ?step ?ll n_iter_per_test ?a0 r"
    and chain: "ll_chain L0 (checkpoints r)"
    by (auto simp: fit_head_def fit_broke_def)
  have 1678: "iterations r \<le> nat n_iter \<and>
      (converged r \<longleftrightarrow> (\<exists>c\<in>set (checkpoints r). test_passes tolerance c)) \<and>
      (\<forall>c\<in>set (checkpoints r). test_passes tolerance c \<longrightarrow> Suc (at_iter c) = iterations r) \<and>
      (\<not> converged r \<longrightarrow> iterations r = nat n_iter)"
    using fin
  proof
    assume "fit_head ?step ?ll n_iter_per_test tolerance ?a0 L0 (nat n_iter) r"
    then show ?thesis by (simp add: fit_head_def)
  next
    assume "\<exists>i<nat n_iter. fit_broke ?step ?ll n_iter_per_test tolerance ?a0 L0 i r"
    then obtain i where i: "i < nat n_iter"
      and b: "fit_broke ?step ?ll n_iter_per_test tolerance ?a0 L0 i r" by blast
    then have ne: "checkpoints r \<noteq> []" and it: "iterations r = Suc i"
      and conv: "converged r"
      and last: "at_iter (last (checkpoints r)) = i"
        "test_passes tolerance (last (checkpoints r))"
      and others: "\<forall>c\<in>set (butlast (checkpoints r)). \<not> test_passes tolerance c"
      by (simp_all add: fit_broke_def)
    have "Suc (at_iter c) = iterations r"
      if c: "c \<in> set (checkpoints r)" "test_passes tolerance c" for c
    proof -
      from c(1) have "c \<in> set (butlast (checkpoints r) @ [last (checkpoints r)])"
        unfolding append_butlast_last_id[OF ne] .
      then have "c \<in> set (butlast (checkpoints r)) \<or> c = last (checkpoints r)"
        by (simp only: set_append set_simps Un_iff insert_iff empty_iff) blast
      with c(2) others have "c = last (checkpoints r)" by blast
      with last it show ?thesis by simp
    qed
    moreover have "\<exists>c\<in>set (checkpoints r). test_passes tolerance c"
      using ne last(2) last_in_set by blast
    ultimately show ?thesis using i it conv by simp
  qed
  have 9: "plsa_fit_inner X_rows X_cols X_vals W D n_iter n_iter_per_test tolerance e_step_thresh
           = Inr (doc_topic (arrays r), topic_word (arrays r))"
    using assms by (simp add: plsa_fit_inner_def)
  from ok have 2: "em_iterate ?step (iterations r) ?a0 = Inr (arrays r)"
    and 3: "map at_iter (checkpoints r) =
           filter (\<lambda>i. int i mod n_iter_per_test = 0) [0..<iterations r]"
    and 4: "\<forall>c\<in>set (checkpoints r).
            \<exists>a. em_iterate ?step (Suc (at_iter c)) ?a0 = Inr a \<and>
                log_likelihood X_rows X_cols X_vals (topic_word a) (doc_topic a) =
                  Inr (current_ll c)"
    by (simp_all add: run_ok_def model_ll_def)
  from L0 chain have 5: "\<exists>L0. log_likelihood X_rows X_cols X_vals W D = Inr L0 \<and>
               map previous_ll (checkpoints r) = butlast (L0 # map current_ll (checkpoints r))"
    by (simp add: ll_chain_def)
  from fin have "\<forall>c\<in>set (checkpoints r). current_ll c \<noteq> Finite 0"
    by (auto simp: fit_head_def fit_broke_def)
  then have 6: "\<forall>c\<in>set (checkpoints r). \<exists>q. rel_change c = Inr q"
    using rel_change_Inr by blast
  from 1678 2 3 4 5 6 9 show ?thesis by blast
qed

text \<open>
  Claim C5. On arrays of consistent shape and with \<^verbatim>\<open>n_iter_per_test\<close> other than 0,
  \<^verbatim>\<open>plsa_fit_inner\<close> returns, unless a log-likelihood of exactly 0 makes the divisor of
  the stopping test zero (\<^verbatim>\<open>ZeroDivisionError\<close>); a log-likelihood of \<^verbatim>\<open>-inf\<close> or \<^verbatim>\<open>nan\<close>
  does not stop it. For every run that returns:
  \<^item> at most \<^verbatim>\<open>n_iter\<close> EM iterations were performed, and the arrays returned are those
    obtained from the initial ones by that many iterations (E-step, then M-step);
  \<^item> the log-likelihood was recomputed exactly at the performed iterations \<open>i\<close> with
    \<open>i mod n_iter_per_test = 0\<close>, and the value \<open>L\<^sub>i\<close> recorded there is the log-likelihood
    of the model after iteration \<open>i\<close>;
  \<^item> the previous value used at a checkpoint is the baseline \<open>L\<^sub>0\<close> at the first
    checkpoint and the current value of the preceding checkpoint afterwards;
  \<^item> at every checkpoint the quotient \<open>|L\<^sub>i - L\<^sub>p\<^sub>r\<^sub>e\<^sub>v| / |L\<^sub>i|\<close> was computed; the loop left
    through \<^verbatim>\<open>break\<close> if and only if at some checkpoint it was below the tolerance, and
    such a checkpoint is the last iteration performed; otherwise all \<^verbatim>\<open>n_iter\<close>
    iterations were performed;
  \<^item> in both cases the function returns the current pair \<open>(doc_topic, topic_word)\<close>.
\<close>

theorem fit_loop_characterisation:
  "(em_shapes X_rows X_cols X_vals W D (zeros (length X_vals) (ncols D)) \<and>
    n_iter_per_test \<noteq> 0 \<longrightarrow>
      (\<exists>r. plsa_fit_inner_run X_rows X_cols X_vals W D n_iter n_iter_per_test tolerance
              e_step_thresh = Inr r) \<or>
      plsa_fit_inner_run X_rows X_cols X_vals W D n_iter n_iter_per_test tolerance
        e_step_thresh = Inl ZeroDivisionError) \<and>
   (\<forall>r. plsa_fit_inner_run X_rows X_cols X_vals W D n_iter n_iter_per_test tolerance
          e_step_thresh = Inr r \<longrightarrow>
      iterations r \<le> nat n_iter \<and>
      em_iterate (em_step X_rows X_cols X_vals e_step_thresh) (iterations r)
        (fit_initial_arrays X_vals W D) = Inr (arrays r) \<and>
      map at_iter (checkpoints r) =
        filter (\<lambda>i. int i mod n_iter_per_test = 0) [0..<iterations r] \<and>
      (\<forall>c\<in>set (checkpoints r).
         \<exists>a. em_iterate (em_step X_rows X_cols X_vals e_step_thresh) (Suc (at_iter c))
                (fit_initial_arrays X_vals W D) = Inr a \<and>
             log_likelihood X_rows X_cols X_vals (topic_word a) (doc_topic a) =
               Inr (current_ll c)) \<and>
      (\<exists>L0. log_likelihood X_rows X_cols X_vals W D = Inr L0 \<and>
            map previous_ll (checkpoints r) = butlast (L0 # map current_ll (checkpoints r))) \<and>
      (\<forall>c\<in>set (checkpoints r). \<exists>q. rel_change c = Inr q) \<and>
      (converged r \<longleftrightarrow> (\<exists>c\<in>set (checkpoints r). test_passes tolerance c)) \<and>
      (\<forall>c\<in>set (checkpoints r). test_passes tolerance c \<longrightarrow> Suc (at_iter c) = iterations r) \<and>
      (\<not> converged r \<longrightarrow> iterations r = nat n_iter) \<and>
      plsa_fit_inner X_rows X_cols X_vals W D n_iter n_iter_per_test tolerance e_step_thresh
        = Inr (doc_topic (arrays r), topic_word (arrays r)))"
proof (intro conjI impI allI)
  assume "em_shapes X_rows X_cols X_vals W D (zeros (length X_vals) (ncols D)) \<and>
    n_iter_per_test \<noteq> 0"
  then show "(\<exists>r. plsa_fit_inner_run X_rows X_cols X_vals W D n_iter n_iter_per_test tolerance
              e_step_thresh = Inr r) \<or>
      plsa_fit_inner_run X_rows X_cols X_vals W D n_iter n_iter_per_test tolerance
        e_step_thresh = Inl ZeroDivisionError"
    using plsa_fit_inner_run_returns by blast
qed (use fit_returning_run in blast)+

lemma refit_test_Inr:
  assumes "refit_test X_rows X_cols X_vals tol i s = Inr c"
  obtains L where "model_ll X_rows X_cols X_vals (arrays s) = Inr L"
    "c = (if f_less (Finite 0) L
          then if test_passes tol \<lparr>at_iter = i, current_ll = L,
                         previous_ll = previous_log_likelihood s, tested = True\<rparr>
               then Break (s\<lparr>checkpoints := checkpoints s @
                      [\<lparr>at_iter = i, current_ll = L,
                        previous_ll = previous_log_likelihood s, tested = True\<rparr>],
                      converged := True\<rparr>)
               else Continue (s\<lparr>checkpoints := checkpoints s @
                      [\<lparr>at_iter = i, current_ll = L,
                        previous_ll = previous_log_likelihood s, tested = True\<rparr>],
                      previous_log_likelihood := L\<rparr>)
          else Continue (s\<lparr>checkpoints := checkpoints s @
                      [\<lparr>at_iter = i, current_ll = L,
                        previous_ll = previous_log_likelihood s, tested = False\<rparr>]\<rparr>))"
proof (cases "model_ll X_rows X_cols X_vals (arrays s)")
  case (Inl e)
  with assms show ?thesis by (simp add: refit_test_def model_ll_def)
next
  case (Inr L)
  show ?thesis
  proof (cases "f_less (Finite 0) L")
    case True
    from f_div_Inr[of "f_abs L" "f_abs (f_sub L (previous_log_likelihood s))"]
      f_less_zero_nonzero[OF True]
    obtain q where "f_div (f_abs (f_sub L (previous_log_likelihood s))) (f_abs L) = Inr q"
      by auto
    with True Inr assms that[OF Inr] show ?thesis
      by (simp add: refit_test_def model_ll_def test_passes_def rel_change_def Let_def
          split: if_splits)
  next
    case False
    with Inr assms that[OF Inr] show ?thesis
      by (simp add: refit_test_def model_ll_def)
  qed
qed

lemma refit_checks_snoc:
  "refit_checks tol cs \<Longrightarrow> (tested c \<longleftrightarrow> f_less (Finite 0) (current_ll c)) \<Longrightarrow>
   (tested c \<longrightarrow> \<not> test_passes tol c) \<Longrightarrow> refit_checks tol (cs @ [c])"
  by (simp add: refit_checks_def)

lemma refit_iteration_step:
  assumes head: "refit_head (refit_em_step X_rows X_cols X_vals thr)
                   (model_ll X_rows X_cols X_vals) npt tol a0 i s"
    and it: "refit_iteration X_rows X_cols X_vals npt tol thr i s = Inr c"
  shows "case c of
           Continue s' \<Rightarrow> refit_head (refit_em_step X_rows X_cols X_vals thr)
                            (model_ll X_rows X_cols X_vals) npt tol a0 (Suc i) s'
         | Break s' \<Rightarrow> refit_broke (refit_em_step X_rows X_cols X_vals thr)
                         (model_ll X_rows X_cols X_vals) npt tol a0 i s'"
proof -
  let ?step = "refit_em_step X_rows X_cols X_vals thr" and ?ll = "model_ll X_rows X_cols X_vals"
  from head have ok: "run_ok ?step ?ll npt a0 s" and i: "iterations s = i"
    and nc: "\<not> converged s" and cs: "refit_checks tol (checkpoints s)"
    by (simp_all add: refit_head_def)
  from it obtain a where a: "?step (arrays s) = Inr a"
    and c: "if int i mod npt = 0
            then refit_test X_rows X_cols X_vals tol i
                   (s\<lparr>arrays := a, iterations := Suc (iterations s)\<rparr>) = Inr c
            else c = Continue (s\<lparr>arrays := a, iterations := Suc (iterations s)\<rparr>)"
    unfolding refit_iteration_Inr by blast
  let ?s1 = "s\<lparr>arrays := a, iterations := Suc (iterations s)\<rparr>"
  show ?thesis
  proof (cases "int i mod npt = 0")
    case False
    with c have c': "c = Continue ?s1" by simp
    have ok1: "run_ok ?step ?ll npt a0 ?s1"
      by (rule run_ok_plain[OF ok a]) (use False i in simp_all)
    have "refit_head ?step ?ll npt tol a0 (Suc i) ?s1"
      unfolding refit_head_def using ok1 i nc cs by simp
    with c' show ?thesis by simp
  next
    case True
    with c have "refit_test X_rows X_cols X_vals tol i ?s1 = Inr c" by simp
    then obtain L where L: "?ll (arrays ?s1) = Inr L"
      and c': "c = (if f_less (Finite 0) L
          then if test_passes tol \<lparr>at_iter = i, current_ll = L,
                         previous_ll = previous_log_likelihood ?s1, tested = True\<rparr>
               then Break (?s1\<lparr>checkpoints := checkpoints ?s1 @
                      [\<lparr>at_iter = i, current_ll = L,
                        previous_ll = previous_log_likelihood ?s1, tested = True\<rparr>],
                      converged := True\<rparr>)
               else Continue (?s1\<lparr>checkpoints := checkpoints ?s1 @
                      [\<lparr>at_iter = i, current_ll = L,
                        previous_ll = previous_log_likelihood ?s1, tested = True\<rparr>],
                      previous_log_likelihood := L\<rparr>)
          else Continue (?s1\<lparr>checkpoints := checkpoints ?s1 @
                      [\<lparr>at_iter = i, current_ll = L,
                        previous_ll = previous_log_likelihood ?s1, tested = False\<rparr>]\<rparr>))"
      by (rule refit_test_Inr)
    have La: "?ll a = Inr L" using L by simp
    define ck where "ck t = \<lparr>at_iter = i, current_ll = L,
        previous_ll = previous_log_likelihood s, tested = t\<rparr>" for t
    have ck: "at_iter (ck t) = i" "current_ll (ck t) = L" "tested (ck t) = t" for t
      by (simp_all add: ck_def)
    show ?thesis
    proof (cases "f_less (Finite 0) L")
      case pos: True
      show ?thesis
      proof (cases "test_passes tol (ck True)")
        case brk: True
        define r where "r = ?s1\<lparr>checkpoints := checkpoints s @ [ck True], converged := True\<rparr>"
        have r: "arrays r = a" "iterations r = Suc (iterations s)"
          "checkpoints r = checkpoints s @ [ck True]" "converged r"
          by (simp_all add: r_def)
        have cr: "c = Break r" using c' pos brk by (simp add: r_def ck_def)
        have "run_ok ?step ?ll npt a0 r"
          by (rule run_ok_check[OF ok a _ La, of r "ck True"]) (use True i r ck in simp_all)
        then have "refit_broke ?step ?ll npt tol a0 i r"
          unfolding refit_broke_def using r i ck pos brk cs by simp
        with cr show ?thesis by simp
      next
        case cont: False
        define r where "r = ?s1\<lparr>checkpoints := checkpoints s @ [ck True],
            previous_log_likelihood := L\<rparr>"
        have r: "arrays r = a" "iterations r = Suc (iterations s)"
          "checkpoints r = checkpoints s @ [ck True]" "\<not> converged r"
          using nc by (simp_all add: r_def)
        have cr: "c = Continue r" using c' pos cont by (simp add: r_def ck_def)
        have "run_ok ?step ?ll npt a0 r"
          by (rule run_ok_check[OF ok a _ La, of r "ck True"]) (use True i r ck in simp_all)
        moreover have "refit_checks tol (checkpoints r)"
          unfolding r(3) using cs ck pos cont by (intro refit_checks_snoc) simp_all
        ultimately have "refit_head ?step ?ll npt tol a0 (Suc i) r"
          unfolding refit_head_def using r i by simp
        with cr show ?thesis by simp
      qed
    next
      case npos: False
      define r where "r = ?s1\<lparr>checkpoints := checkpoints s @ [ck False]\<rparr>"
      have r: "arrays r = a" "iterations r = Suc (iterations s)"
        "checkpoints r = checkpoints s @ [ck False]" "\<not> converged r"
        using nc by (simp_all add: r_def)
      have cr: "c = Continue r" using c' npos by (simp add: r_def ck_def)
      have "run_ok ?step ?ll npt a0 r"
        by (rule run_ok_check[OF ok a _ La, of r "ck False"]) (use True i r ck in simp_all)
      moreover have "refit_checks tol (checkpoints r)"
        unfolding r(3) using cs ck npos by (intro refit_checks_snoc) simp_all
      ultimately have "refit_head ?step ?ll npt tol a0 (Suc i) r"
        unfolding refit_head_def using r i by simp
      with cr show ?thesis by simp
    qed
  qed
qed

lemma refit_run_final:
  assumes "plsa_refit_run normalize_fn random_draw X_rows X_cols X_vals topics n_documents
             n_iter npt tol thr = Inr r"
  obtains D where "normalize_fn (random_draw n_documents (nrows topics)) = Inr D"
    and "refit_head (refit_em_step X_rows X_cols X_vals thr) (model_ll X_rows X_cols X_vals)
           npt tol (refit_initial_arrays X_vals topics D n_documents) (nat n_iter) r \<or>
         (\<exists>i<nat n_iter. refit_broke (refit_em_step X_rows X_cols X_vals thr)
           (model_ll X_rows X_cols X_vals) npt tol
           (refit_initial_arrays X_vals topics D n_documents) i r)"
proof -
  let ?step = "refit_em_step X_rows X_cols X_vals thr" and ?ll = "model_ll X_rows X_cols X_vals"
  from assms obtain D L0 where D: "normalize_fn (random_draw n_documents (nrows topics)) = Inr D"
    and run: "for_each_break [0..<nat n_iter]
        (refit_iteration X_rows X_cols X_vals npt tol thr)
        \<lparr>arrays = refit_initial_arrays X_vals topics D n_documents,
         previous_log_likelihood = L0, iterations = 0, checkpoints = [],
         converged = False\<rparr> = Inr r"
    by (auto simp: plsa_refit_run_def Let_def and_then_eq_Inr refit_initial_arrays_def)
  let ?a0 = "refit_initial_arrays X_vals topics D n_documents"
  let ?s0 = "\<lparr>arrays = ?a0, previous_log_likelihood = L0, iterations = 0, checkpoints = [],
         converged = False\<rparr>"
  have head0: "refit_head ?step ?ll npt tol ?a0 0 ?s0"
    by (simp add: refit_head_def run_ok_def refit_checks_def)
  have "refit_head ?step ?ll npt tol ?a0 (nat n_iter) r \<or>
      (\<exists>i. 0 \<le> i \<and> i < nat n_iter \<and> refit_broke ?step ?ll npt tol ?a0 i r)"
    by (rule for_each_break_upt[where I = "refit_head ?step ?ll npt tol ?a0"
          and B = "refit_broke ?step ?ll npt tol ?a0", OF run _ head0])
      (simp, rule refit_iteration_step)
  then show ?thesis using that[OF D] by auto
qed

lemma refit_returning_run:
  assumes "plsa_refit_run normalize_fn random_draw X_rows X_cols X_vals topics n_documents
             n_iter n_iter_per_test tolerance e_step_thresh = Inr r"
  shows "iterations r \<le> nat n_iter \<and>
         map at_iter (checkpoints r) =
           filter (\<lambda>i. int i mod n_iter_per_test = 0) [0..<iterations r] \<and>
         (\<exists>D. normalize_fn (random_draw n_documents (nrows topics)) = Inr D \<and>
            (\<forall>c\<in>set (checkpoints r).
               \<exists>a. em_iterate (refit_em_step X_rows X_cols X_vals e_step_thresh)
                      (Suc (at_iter c)) (refit_initial_arrays X_vals topics D n_documents)
                      = Inr a \<and>
                   log_likelihood X_rows X_cols X_vals (topic_word a) (doc_topic a) =
                     Inr (current_ll c))) \<and>
         (\<forall>c\<in>set (checkpoints r). tested c \<longleftrightarrow> f_less (Finite 0) (current_ll c)) \<and>
         (converged r \<longleftrightarrow> (\<exists>c\<in>set (checkpoints r). tested c \<and> test_passes tolerance c)) \<and>
         ((\<forall>c\<in>set (checkpoints r). \<not> f_less (Finite 0) (current_ll c)) \<longrightarrow>
            \<not> converged r \<and> iterations r = nat n_iter)"
proof -
  let ?step = "refit_em_step X_rows X_cols X_vals e_step_thresh"
  let ?ll = "model_ll X_rows X_cols X_vals"
  from assms obtain D where D: "normalize_fn (random_draw n_documents (nrows topics)) = Inr D"
    and fin: "refit_head ?step ?ll n_iter_per_test tolerance
                (refit_initial_arrays X_vals topics D n_documents) (nat n_iter) r \<or>
         (\<exists>i<nat n_iter. refit_broke ?step ?ll n_iter_per_test tolerance
                (refit_initial_arrays X_vals topics D n_documents) i r)"
    by (rule refit_run_final)
  let ?a0 = "refit_initial_arrays X_vals topics D n_documents"
  from fin have ok: "run_ok ?step ?ll n_iter_per_test ?a0 r"
    by (auto simp: refit_head_def refit_broke_def)
  have rest: "iterations r \<le> nat n_iter \<and>
      (\<forall>c\<in>set (checkpoints r). tested c \<longleftrightarrow> f_less (Finite 0) (current_ll c)) \<and>
      (converged r \<longleftrightarrow> (\<exists>c\<in>set (checkpoints r). tested c \<and> test_passes tolerance c)) \<and>
      ((\<forall>c\<in>set (checkpoints r). \<not> f_less (Finite 0) (current_ll c)) \<longrightarrow>
            \<not> converged r \<and> iterations r = nat n_iter)"
    using fin
  proof
    assume "refit_head ?step ?ll n_iter_per_test tolerance ?a0 (nat n_iter) r"
    then show ?thesis by (simp add: refit_head_def refit_checks_def)
  next
    assume "\<exists>i<nat n_iter. refit_broke ?step ?ll n_iter_per_test tolerance ?a0 i r"
    then obtain i where i: "i < nat n_iter"
      and b: "refit_broke ?step ?ll n_iter_per_test tolerance ?a0 i r" by blast
    then have ne: "checkpoints r \<noteq> []" and it: "iterations r = Suc i"
      and conv: "converged r"
      and last: "tested (last (checkpoints r))" "f_less (Finite 0) (current_ll (last (checkpoints r)))"
        "test_passes tolerance (last (checkpoints r))"
      and others: "refit_checks tolerance (butlast (checkpoints r))"
      by (simp_all add: refit_broke_def)
    have mem: "c \<in> set (butlast (checkpoints r)) \<or> c = last (checkpoints r)"
      if "c \<in> set (checkpoints r)" for c
    proof -
      from that have "c \<in> set (butlast (checkpoints r) @ [last (checkpoints r)])"
        unfolding append_butlast_last_id[OF ne] .
      then show ?thesis
        by (simp only: set_append set_simps Un_iff insert_iff empty_iff) blast
    qed
    have lin: "last (checkpoints r) \<in> set (checkpoints r)" using ne by simp
    have t: "tested c \<longleftrightarrow> f_less (Finite 0) (current_ll c)" if "c \<in> set (checkpoints r)" for c
      using mem[OF that] others last by (auto simp: refit_checks_def)
    have "\<exists>c\<in>set (checkpoints r). tested c \<and> test_passes tolerance c"
      using lin last by blast
    moreover have "\<not> (\<forall>c\<in>set (checkpoints r). \<not> f_less (Finite 0) (current_ll c))"
      using lin last(2) by force
    ultimately show ?thesis using i it conv t by simp
  qed
  from ok have 2: "map at_iter (checkpoints r) =
           filter (\<lambda>i. int i mod n_iter_per_test = 0) [0..<iterations r]"
    and 3: "\<forall>c\<in>set (checkpoints r).
            \<exists>a. em_iterate ?step (Suc (at_iter c)) ?a0 = Inr a \<and>
                log_likelihood X_rows X_cols X_vals (topic_word a) (doc_topic a) =
                  Inr (current_ll c)"
    by (simp_all add: run_ok_def model_ll_def)
  from rest 2 3 D show ?thesis by blast
qed

text \<open>
  Claim C4. When \<^verbatim>\<open>normalize\<close> returns a doc-topic array of the shape asked for, the
  arrays have consistent shapes and \<^verbatim>\<open>n_iter_per_test\<close> is not 0, \<^verbatim>\<open>plsa_refit\<close> returns,
  also when the log-likelihood is \<^verbatim>\<open>-inf\<close> or \<^verbatim>\<open>nan\<close>. For every run that returns: the
  log-likelihood is recomputed at the iterations \<open>i\<close> with \<open>i mod n_iter_per_test = 0\<close>;
  the relative-change test is evaluated at such a checkpoint exactly when the current
  log-likelihood is strictly positive; the loop leaves through \<^verbatim>\<open>break\<close> only at a
  checkpoint where the test was evaluated and succeeded; so when the log-likelihood is
  not positive at any checkpoint (negative, zero, \<^verbatim>\<open>-inf\<close> or \<^verbatim>\<open>nan\<close>) the loop never
  breaks and performs all \<^verbatim>\<open>n_iter\<close> iterations.
\<close>

theorem refit_test_needs_positive_likelihood:
  "(normalize_fn (random_draw n_documents (nrows topics)) = Inr D \<and>
    em_shapes X_rows X_cols X_vals topics D (zeros (length X_vals) (nrows topics)) \<and>
    nrows D = n_documents \<and> n_iter_per_test \<noteq> 0 \<longrightarrow>
      (\<exists>r. plsa_refit_run normalize_fn random_draw X_rows X_cols X_vals topics n_documents
              n_iter n_iter_per_test tolerance e_step_thresh = Inr r)) \<and>
   (\<forall>r. plsa_refit_run normalize_fn random_draw X_rows X_cols X_vals topics n_documents
          n_iter n_iter_per_test tolerance e_step_thresh = Inr r \<longrightarrow>
      iterations r \<le> nat n_iter \<and>
      map at_iter (checkpoints r) =
        filter (\<lambda>i. int i mod n_iter_per_test = 0) [0..<iterations r] \<and>
      (\<exists>D. normalize_fn (random_draw n_documents (nrows topics)) = Inr D \<and>
         (\<forall>c\<in>set (checkpoints r).
            \<exists>a. em_iterate (refit_em_step X_rows X_cols X_vals e_step_thresh)
                   (Suc (at_iter c)) (refit_initial_arrays X_vals topics D n_documents)
                   = Inr a \<and>
                log_likelihood X_rows X_cols X_vals (topic_word a) (doc_topic a) =
                  Inr (current_ll c))) \<and>
      (\<forall>c\<in>set (checkpoints r). tested c \<longleftrightarrow> f_less (Finite 0) (current_ll c)) \<and>
      (converged r \<longleftrightarrow> (\<exists>c\<in>set (checkpoints r). tested c \<and> test_passes tolerance c)) \<and>
      ((\<forall>c\<in>set (checkpoints r). \<not> f_less (Finite 0) (current_ll c)) \<longrightarrow>
         \<not> converged r \<and> iterations r = nat n_iter))"
proof (intro conjI impI allI)
  assume "normalize_fn (random_draw n_documents (nrows topics)) = Inr D \<and>
    em_shapes X_rows X_cols X_vals topics D (zeros (length X_vals) (nrows topics)) \<and>
    nrows D = n_documents \<and> n_iter_per_test \<noteq> 0"
  then show "\<exists>r. plsa_refit_run normalize_fn random_draw X_rows X_cols X_vals topics
      n_documents n_iter n_iter_per_test tolerance e_step_thresh = Inr r"
    using plsa_refit_run_returns by blast
qed (use refit_returning_run in blast)+

lemma refit_run_topics:
  assumes "plsa_refit_run normalize_fn random_draw X_rows X_cols X_vals topics n_documents
             n_iter n_iter_per_test tolerance e_step_thresh = Inr r"
  shows "topic_word (arrays r) = topics"
proof -
  from assms obtain D L where run: "for_each_break [0..<nat n_iter]
        (refit_iteration X_rows X_cols X_vals n_iter_per_test tolerance e_step_thresh)
        \<lparr>arrays = \<lparr>topic_word = topics, doc_topic = D,
                   posterior = zeros (length X_vals) (nrows topics), norm_topic = [],
                   norm_doc = replicate n_documents 0\<rparr>,
         previous_log_likelihood = L, iterations = 0, checkpoints = [],
         converged = False\<rparr> = Inr r"
    by (auto simp: plsa_refit_run_def Let_def and_then_eq_Inr)
  have "topic_word (arrays r) = topics"
    using for_each_break_preserves[where f = "\<lambda>s. topic_word (arrays s)", OF _ run]
      refit_iteration_topics by simp
  then show ?thesis .
qed

text \<open>
  Claim C9. When \<^verbatim>\<open>normalize\<close> returns a doc-topic array of the shape asked for, the
  arrays have consistent shapes and \<^verbatim>\<open>n_iter_per_test\<close> is not 0, \<^verbatim>\<open>plsa_refit\<close> returns,
  whatever the values in the arrays and the number of iterations. Whenever it returns, the
  \<^verbatim>\<open>topics\<close> array is the one it was given: \<^verbatim>\<open>plsa_e_step\<close> and \<^verbatim>\<open>log_likelihood\<close> only
  read it, and \<^verbatim>\<open>plsa_refit_m_step\<close> hands it back unchanged.
\<close>

theorem refit_never_writes_topics:
  "(normalize_fn (random_draw n_documents (nrows topics)) = Inr D \<and>
    em_shapes X_rows X_cols X_vals topics D (zeros (length X_vals) (nrows topics)) \<and>
    nrows D = n_documents \<and> n_iter_per_test \<noteq> 0 \<longrightarrow>
      (\<exists>r. plsa_refit_run normalize_fn random_draw X_rows X_cols X_vals topics n_documents
              n_iter n_iter_per_test tolerance e_step_thresh = Inr r)) \<and>
   (\<forall>r. plsa_refit_run normalize_fn random_draw X_rows X_cols X_vals topics n_documents
          n_iter n_iter_per_test tolerance e_step_thresh = Inr r \<longrightarrow>
      topic_word (arrays r) = topics)"
proof (intro conjI impI allI)
  assume "normalize_fn (random_draw n_documents (nrows topics)) = Inr D \<and>
    em_shapes X_rows X_cols X_vals topics D (zeros (length X_vals) (nrows topics)) \<and>
    nrows D = n_documents \<and> n_iter_per_test \<noteq> 0"
  then show "\<exists>r. plsa_refit_run normalize_fn random_draw X_rows X_cols X_vals topics
      n_documents n_iter n_iter_per_test tolerance e_step_thresh = Inr r"
    using plsa_refit_run_returns by blast
qed (use refit_run_topics in blast)

section \<open>The loops on the example corpus\<close>

lemma ex_ll_neg: "ex_ll < 0"
proof -
  have "ln (3/4 :: real) < 0" "ln (1/4 :: real) < 0" by simp_all
  then show ?thesis unfolding ex_ll_def by linarith
qed

lemma ex_log_likelihood:
  "log_likelihood ex_rows ex_cols ex_vals ex_topic_word ex_doc_topic = Inr (Finite ex_ll)"
  by (simp add: log_likelihood_def ll_entry_def ll_mix_def np_log_def mat_get_def vec_get_def
      nrows_def ex_topic_word_def ex_doc_topic_def ex_ll_def upt_rec[of 0] upt_rec[of 1]
      numeral_2_eq_2 ex_rows_def ex_cols_def ex_vals_def)

lemma ex_em_step_first:
  "em_step ex_rows ex_cols ex_vals 0 (fit_initial_arrays ex_vals ex_topic_word ex_doc_topic) =
     Inr ex_arrays"
  by code_simp

lemma ex_em_step_fixpoint: "em_step ex_rows ex_cols ex_vals 0 ex_arrays = Inr ex_arrays"
  by code_simp

lemma plsa_fit_inner_run_unfold:
  "plsa_fit_inner_run X_rows X_cols X_vals W D n_iter npt tol thr =
     and_then (log_likelihood X_rows X_cols X_vals W D) (\<lambda>previous.
       for_each_break [0..<nat n_iter] (fit_iteration X_rows X_cols X_vals npt tol thr)
         \<lparr>arrays = fit_initial_arrays X_vals W D, previous_log_likelihood = previous,
          iterations = 0, checkpoints = [], converged = False\<rparr>)"
  by (simp add: plsa_fit_inner_run_def Let_def fit_initial_arrays_def)

lemma ex_arrays_ll:
  "arrays s = ex_arrays \<Longrightarrow> model_ll ex_rows ex_cols ex_vals (arrays s) = Inr (Finite ex_ll)"
  by (simp add: model_ll_def ex_arrays_def ex_log_likelihood)

lemma ex_fit_iteration:
  assumes "arrays s = fit_initial_arrays ex_vals ex_topic_word ex_doc_topic \<or> arrays s = ex_arrays"
  shows "fit_iteration ex_rows ex_cols ex_vals 1 tol 0 i s =
     Inr (if test_passes tol \<lparr>at_iter = i, current_ll = Finite ex_ll,
                         previous_ll = previous_log_likelihood s, tested = True\<rparr>
          then Break (s\<lparr>arrays := ex_arrays, iterations := Suc (iterations s),
                 checkpoints := checkpoints s @
                 [\<lparr>at_iter = i, current_ll = Finite ex_ll,
                   previous_ll = previous_log_likelihood s, tested = True\<rparr>],
                 converged := True\<rparr>)
          else Continue (s\<lparr>arrays := ex_arrays, iterations := Suc (iterations s),
                 checkpoints := checkpoints s @
                 [\<lparr>at_iter = i, current_ll = Finite ex_ll,
                   previous_ll = previous_log_likelihood s, tested = True\<rparr>],
                 previous_log_likelihood := Finite ex_ll\<rparr>))"
proof -
  have ne: "Finite ex_ll \<noteq> Finite 0" using ex_ll_neg by simp
  have em: "em_step ex_rows ex_cols ex_vals 0 (arrays s) = Inr ex_arrays"
    using assms ex_em_step_first ex_em_step_fixpoint by auto
  let ?s1 = "s\<lparr>arrays := ex_arrays, iterations := Suc (iterations s)\<rparr>"
  have ll: "model_ll ex_rows ex_cols ex_vals (arrays ?s1) = Inr (Finite ex_ll)"
    by (rule ex_arrays_ll) simp
  show ?thesis
    by (simp add: fit_iteration_def em py_mod_def fit_test_value[OF ll ne])
qed

lemma ex_test_passes:
  "test_passes tol \<lparr>at_iter = i, current_ll = Finite ex_ll, previous_ll = Finite ex_ll,
     tested = t\<rparr> \<longleftrightarrow> 0 < tol"
  using ex_ll_neg by (simp add: test_passes_def rel_change_def f_sub_def)

lemma ex_fit_run_converged:
  "plsa_fit_inner_run ex_rows ex_cols ex_vals ex_topic_word ex_doc_topic 2 1 (1/1000) 0 =
     Inr ex_fit_converged"
  by (simp add: ex_fit_converged_def plsa_fit_inner_run_unfold ex_log_likelihood
      upt_rec[of 0] ex_fit_iteration ex_test_passes)

lemma ex_fit_run_exhausted:
  "plsa_fit_inner_run ex_rows ex_cols ex_vals ex_topic_word ex_doc_topic 2 1 0 0 =
     Inr ex_fit_exhausted"
  by (simp add: ex_fit_exhausted_def plsa_fit_inner_run_unfold ex_log_likelihood
      upt_rec[of 0] upt_rec[of 1] upt_rec[of "Suc 0"] numeral_2_eq_2 ex_fit_iteration
      ex_test_passes)

lemma plsa_refit_run_unfold:
  "plsa_refit_run normalize_fn random_draw X_rows X_cols X_vals topics n_documents n_iter
       npt tol thr =
     and_then (normalize_fn (random_draw n_documents (nrows topics))) (\<lambda>D.
     and_then (log_likelihood X_rows X_cols X_vals topics D) (\<lambda>previous.
       for_each_break [0..<nat n_iter] (refit_iteration X_rows X_cols X_vals npt tol thr)
         \<lparr>arrays = refit_initial_arrays X_vals topics D n_documents,
          previous_log_likelihood = previous,
          iterations = 0, checkpoints = [], converged = False\<rparr>))"
  by (simp add: plsa_refit_run_def Let_def refit_initial_arrays_def)

lemma ex_inf_log_likelihood:
  "log_likelihood ex_rows ex_cols ex_vals ex_inf_topics ex_doc_topic = Inr NegInf"
  by (simp add: log_likelihood_def ll_entry_def ll_mix_def np_log_def mat_get_def vec_get_def
      nrows_def ex_inf_topics_def ex_doc_topic_def upt_rec[of 0] upt_rec[of 1]
      numeral_2_eq_2 ex_rows_def ex_cols_def ex_vals_def)

lemma ex_inf_em_step_first:
  "em_step ex_rows ex_cols ex_vals 0 (fit_initial_arrays ex_vals ex_inf_topics ex_doc_topic) =
     Inr ex_inf_arrays"
  by code_simp

lemma ex_inf_em_step_fixpoint: "em_step ex_rows ex_cols ex_vals 0 ex_inf_arrays = Inr ex_inf_arrays"
  by code_simp

lemma ex_inf_fit_iteration:
  assumes "arrays s = fit_initial_arrays ex_vals ex_inf_topics ex_doc_topic \<or>
           arrays s = ex_inf_arrays"
    and "previous_log_likelihood s = NegInf"
  shows "fit_iteration ex_rows ex_cols ex_vals 1 tol 0 i s =
     Inr (Continue (s\<lparr>arrays := ex_inf_arrays, iterations := Suc (iterations s),
            checkpoints := checkpoints s @
              [\<lparr>at_iter = i, current_ll = NegInf, previous_ll = NegInf, tested = True\<rparr>],
            previous_log_likelihood := NegInf\<rparr>))"
proof -
  have em: "em_step ex_rows ex_cols ex_vals 0 (arrays s) = Inr ex_inf_arrays"
    using assms(1) ex_inf_em_step_first ex_inf_em_step_fixpoint by auto
  have ll: "log_likelihood ex_rows ex_cols ex_vals (topic_word ex_inf_arrays)
      (doc_topic ex_inf_arrays) = Inr NegInf"
    by (simp add: ex_inf_arrays_def ex_inf_log_likelihood)
  show ?thesis
    using assms(2)
    by (simp add: fit_iteration_def em py_mod_def fit_test_def ll f_sub_def)
qed

text \<open>
  On this model \<^verbatim>\<open>plsa_fit_inner\<close> returns: at both checkpoints the log-likelihood is
  \<^verbatim>\<open>-inf\<close>, the quotient of the stopping test is \<^verbatim>\<open>nan\<close>, the comparison with the tolerance
  is false, and both iterations run.
\<close>

lemma ex_inf_fit_run:
  "plsa_fit_inner_run ex_rows ex_cols ex_vals ex_inf_topics ex_doc_topic 2 1 (1/1000) 0 =
     Inr ex_inf_fit_result"
  by (simp add: ex_inf_fit_result_def plsa_fit_inner_run_unfold ex_inf_log_likelihood
      upt_rec[of 0] upt_rec[of 1] upt_rec[of "Suc 0"] numeral_2_eq_2 ex_inf_fit_iteration)

lemma ex_inf_refit_em_step_first:
  "refit_em_step ex_rows ex_cols ex_vals 0
     (refit_initial_arrays ex_vals ex_inf_topics ex_doc_topic 1) = Inr ex_inf_refit_arrays"
  by code_simp

lemma ex_inf_refit_em_step_fixpoint:
  "refit_em_step ex_rows ex_cols ex_vals 0 ex_inf_refit_arrays = Inr ex_inf_refit_arrays"
  by code_simp

lemma ex_inf_refit_iteration:
  assumes "arrays s = refit_initial_arrays ex_vals ex_inf_topics ex_doc_topic 1 \<or>
           arrays s = ex_inf_refit_arrays"
  shows "refit_iteration ex_rows ex_cols ex_vals 1 tol 0 i s =
     Inr (Continue (s\<lparr>arrays := ex_inf_refit_arrays, iterations := Suc (iterations s),
            checkpoints := checkpoints s @
              [\<lparr>at_iter = i, current_ll = NegInf,
                previous_ll = previous_log_likelihood s, tested = False\<rparr>]\<rparr>))"
proof -
  have em: "refit_em_step ex_rows ex_cols ex_vals 0 (arrays s) = Inr ex_inf_refit_arrays"
    using assms ex_inf_refit_em_step_first ex_inf_refit_em_step_fixpoint by auto
  have ll: "log_likelihood ex_rows ex_cols ex_vals (topic_word ex_inf_refit_arrays)
      (doc_topic ex_inf_refit_arrays) = Inr NegInf"
    by (simp add: ex_inf_refit_arrays_def ex_inf_log_likelihood)
  show ?thesis
    by (simp add: refit_iteration_def em py_mod_def refit_test_def ll)
qed

lemma ex_inf_refit_run:
  "plsa_refit_run Inr (\<lambda>n k. ex_doc_topic) ex_rows ex_cols ex_vals ex_inf_topics 1 2 1
     (1/1000) 0 = Inr ex_inf_refit_result"
  by (simp add: ex_inf_refit_result_def plsa_refit_run_unfold ex_inf_log_likelihood
      upt_rec[of 0] upt_rec[of 1] upt_rec[of "Suc 0"] numeral_2_eq_2 ex_inf_refit_iteration)

lemma ex_shapes:
  "em_shapes ex_rows ex_cols ex_vals ex_topic_word ex_doc_topic
     (zeros (length ex_vals) (ncols ex_doc_topic))"
  by (simp add: em_shapes_def wf_matrix_def nrows_def zeros_def ex_rows_def ex_cols_def
      ex_vals_def ex_topic_word_def ex_doc_topic_def)

lemma ex_inf_shapes:
  "em_shapes ex_rows ex_cols ex_vals ex_inf_topics ex_doc_topic
     (zeros (length ex_vals) (nrows ex_inf_topics)) \<and>
   nrows ex_doc_topic = 1"
  by (simp add: em_shapes_def wf_matrix_def nrows_def zeros_def ex_rows_def ex_cols_def
      ex_vals_def ex_inf_topics_def ex_doc_topic_def)

text \<open>
  Claim C5 at two concrete runs with two topics, two words, one document, \<^verbatim>\<open>n_iter = 2\<close>,
  \<^verbatim>\<open>n_iter_per_test = 1\<close> and tolerance \<open>1/1000\<close>, on arrays of consistent shape. The first
  model is a fixed point of the EM iteration with a finite log-likelihood, and the loop
  stops at the checkpoint of iteration 0. In the second no topic covers word 1, the
  log-likelihood is \<^verbatim>\<open>-inf\<close>, and the loop runs to the end.
\<close>

theorem fit_loop_characterisation_witness:
  "em_shapes ex_rows ex_cols ex_vals ex_topic_word ex_doc_topic
     (zeros (length ex_vals) (ncols ex_doc_topic)) \<and>
   (\<exists>r. plsa_fit_inner_run ex_rows ex_cols ex_vals ex_topic_word ex_doc_topic 2 1 (1/1000) 0
          = Inr r \<and>
    (iterations r \<le> nat 2 \<and>
     em_iterate (em_step ex_rows ex_cols ex_vals 0) (iterations r)
       (fit_initial_arrays ex_vals ex_topic_word ex_doc_topic) = Inr (arrays r) \<and>
     map at_iter (checkpoints r) = filter (\<lambda>i. int i mod 1 = 0) [0..<iterations r] \<and>
     (\<forall>c\<in>set (checkpoints r).
        \<exists>a. em_iterate (em_step ex_rows ex_cols ex_vals 0) (Suc (at_iter c))
               (fit_initial_arrays ex_vals ex_topic_word ex_doc_topic) = Inr a \<and>
            log_likelihood ex_rows ex_cols ex_vals (topic_word a) (doc_topic a) =
              Inr (current_ll c)) \<and>
     (\<exists>L0. log_likelihood ex_rows ex_cols ex_vals ex_topic_word ex_doc_topic = Inr L0 \<and>
           map previous_ll (checkpoints r) = butlast (L0 # map current_ll (checkpoints r))) \<and>
     (\<forall>c\<in>set (checkpoints r). \<exists>q. rel_change c = Inr q) \<and>
     (converged r \<longleftrightarrow> (\<exists>c\<in>set (checkpoints r). test_passes (1/1000) c)) \<and>
     (\<forall>c\<in>set (checkpoints r). test_passes (1/1000) c \<longrightarrow> Suc (at_iter c) = iterations r) \<and>
     (\<not> converged r \<longrightarrow> iterations r = nat 2) \<and>
     plsa_fit_inner ex_rows ex_cols ex_vals ex_topic_word ex_doc_topic 2 1 (1/1000) 0
       = Inr (doc_topic (arrays r), topic_word (arrays r)))) \<and>
   (\<exists>r. plsa_fit_inner_run ex_rows ex_cols ex_vals ex_inf_topics ex_doc_topic 2 1 (1/1000) 0
          = Inr r \<and>
    (iterations r \<le> nat 2 \<and>
     em_iterate (em_step ex_rows ex_cols ex_vals 0) (iterations r)
       (fit_initial_arrays ex_vals ex_inf_topics ex_doc_topic) = Inr (arrays r) \<and>
     map at_iter (checkpoints r) = filter (\<lambda>i. int i mod 1 = 0) [0..<iterations r] \<and>
     (\<forall>c\<in>set (checkpoints r).
        \<exists>a. em_iterate (em_step ex_rows ex_cols ex_vals 0) (Suc (at_iter c))
               (fit_initial_arrays ex_vals ex_inf_topics ex_doc_topic) = Inr a \<and>
            log_likelihood ex_rows ex_cols ex_vals (topic_word a) (doc_topic a) =
              Inr (current_ll c)) \<and>
     (\<exists>L0. log_likelihood ex_rows ex_cols ex_vals ex_inf_topics ex_doc_topic = Inr L0 \<and>
           map previous_ll (checkpoints r) = butlast (L0 # map current_ll (checkpoints r))) \<and>
     (\<forall>c\<in>set (checkpoints r). \<exists>q. rel_change c = Inr q) \<and>
     (converged r \<longleftrightarrow> (\<exists>c\<in>set (checkpoints r). test_passes (1/1000) c)) \<and>
     (\<forall>c\<in>set (checkpoints r). test_passes (1/1000) c \<longrightarrow> Suc (at_iter c) = iterations r) \<and>
     (\<not> converged r \<longrightarrow> iterations r = nat 2) \<and>
     plsa_fit_inner ex_rows ex_cols ex_vals ex_inf_topics ex_doc_topic 2 1 (1/1000) 0
       = Inr (doc_topic (arrays r), topic_word (arrays r))))"
  by (rule conjI[OF ex_shapes], rule conjI,
      rule exI[of _ ex_fit_converged],
      rule conjI[OF ex_fit_run_converged
        fit_loop_characterisation[THEN conjunct2, rule_format, OF ex_fit_run_converged]],
      rule exI[of _ ex_inf_fit_result],
      rule conjI[OF ex_inf_fit_run
        fit_loop_characterisation[THEN conjunct2, rule_format, OF ex_inf_fit_run]])

text \<open>
  Claim C4 at a concrete run: a model in which no topic covers word 1, refitted for one
  document with \<^verbatim>\<open>n_iter = 2\<close> and \<^verbatim>\<open>n_iter_per_test = 1\<close>; \<^verbatim>\<open>normalize\<close> returns the
  draw as it is. The shapes are consistent, the
  log-likelihood is \<^verbatim>\<open>-inf\<close> at both checkpoints, the test is never evaluated, and both
  iterations run.
\<close>

theorem refit_test_needs_positive_likelihood_witness:
  "(em_shapes ex_rows ex_cols ex_vals ex_inf_topics ex_doc_topic
      (zeros (length ex_vals) (nrows ex_inf_topics)) \<and>
    nrows ex_doc_topic = 1) \<and>
   (\<exists>r. plsa_refit_run Inr (\<lambda>n k. ex_doc_topic) ex_rows ex_cols ex_vals ex_inf_topics 1 2 1
          (1/1000) 0 = Inr r \<and>
    (iterations r \<le> nat 2 \<and>
     map at_iter (checkpoints r) = filter (\<lambda>i. int i mod 1 = 0) [0..<iterations r] \<and>
     (\<exists>D. (Inr ex_doc_topic :: error + matrix) = Inr D \<and>
        (\<forall>c\<in>set (checkpoints r).
           \<exists>a. em_iterate (refit_em_step ex_rows ex_cols ex_vals 0)
                  (Suc (at_iter c)) (refit_initial_arrays ex_vals ex_inf_topics D 1)
                  = Inr a \<and>
               log_likelihood ex_rows ex_cols ex_vals (topic_word a) (doc_topic a) =
                 Inr (current_ll c))) \<and>
     (\<forall>c\<in>set (checkpoints r). tested c \<longleftrightarrow> f_less (Finite 0) (current_ll c)) \<and>
     (converged r \<longleftrightarrow> (\<exists>c\<in>set (checkpoints r). tested c \<and> test_passes (1/1000) c)) \<and>
     ((\<forall>c\<in>set (checkpoints r). \<not> f_less (Finite 0) (current_ll c)) \<longrightarrow>
        \<not> converged r \<and> iterations r = nat 2)))"
  by (rule conjI[OF ex_inf_shapes], rule exI[of _ ex_inf_refit_result],
      rule conjI[OF ex_inf_refit_run
        refit_test_needs_positive_likelihood[THEN conjunct2, rule_format, OF ex_inf_refit_run]])

text \<open>Claim C9 at the same refit run, whose log-likelihood is \<^verbatim>\<open>-inf\<close> throughout.\<close>

theorem refit_never_writes_topics_witness:
  "(em_shapes ex_rows ex_cols ex_vals ex_inf_topics ex_doc_topic
      (zeros (length ex_vals) (nrows ex_inf_topics)) \<and>
    nrows ex_doc_topic = 1) \<and>
   (\<exists>r. plsa_refit_run Inr (\<lambda>n k. ex_doc_topic) ex_rows ex_cols ex_vals ex_inf_topics 1 2 1
          (1/1000) 0 = Inr r \<and>
        topic_word (arrays r) = ex_inf_topics)"
  by (rule conjI[OF ex_inf_shapes], rule exI[of _ ex_inf_refit_result],
      rule conjI[OF ex_inf_refit_run
        refit_never_writes_topics[THEN conjunct2, rule_format, OF ex_inf_refit_run]])

section \<open>Initialisation\<close>

lemma foldl_sum_squares:
  fixes xs :: "real list"
  shows "foldl (\<lambda>result v. result + v ^ 2) a xs = a + sum_list (map (\<lambda>v. v ^ 2) xs)"
  by (induction xs arbitrary: a) simp_all

lemma norm_l2_euclidean: "norm_l2 x = euclidean_norm x"
  by (simp add: norm_l2_def euclidean_norm_def foldl_sum_squares)

lemma abs_min_negative_part: "map (\<lambda>v. \<bar>min v 0\<bar>) x = negative_part (x :: real list)"
  by (auto simp: negative_part_def min_def max_def)

lemma array_div_Inr: "array_div xs c = Inr u \<Longrightarrow> u = map (\<lambda>v. v / c) xs"
  by (auto simp: array_div_def split: if_splits)

lemma nndsvd_choose_eq:
  "nndsvd_choose x y =
     (if euclidean_norm (negative_part x) * euclidean_norm (negative_part y)
         < euclidean_norm (positive_part x) * euclidean_norm (positive_part y)
      then and_then (array_div (positive_part x) (euclidean_norm (positive_part x))) (\<lambda>u.
           and_then (array_div (positive_part y) (euclidean_norm (positive_part y))) (\<lambda>v.
             Inr (u, v, euclidean_norm (positive_part x) * euclidean_norm (positive_part y))))
      else and_then (array_div (negative_part x) (euclidean_norm (negative_part x))) (\<lambda>u.
           and_then (array_div (negative_part y) (euclidean_norm (negative_part y))) (\<lambda>v.
             Inr (u, v, euclidean_norm (negative_part x) * euclidean_norm (negative_part y)))))"
  by (simp only: nndsvd_choose_def Let_def norm_l2_euclidean abs_min_negative_part
      positive_part_def[symmetric])

lemma nndsvd_choose_Inr:
  assumes "nndsvd_choose x y = Inr (u, v, sigma)"
  shows "sigma = max (euclidean_norm (positive_part x) * euclidean_norm (positive_part y))
                     (euclidean_norm (negative_part x) * euclidean_norm (negative_part y)) \<and>
         u = unit_vector
               (if euclidean_norm (negative_part x) * euclidean_norm (negative_part y)
                   < euclidean_norm (positive_part x) * euclidean_norm (positive_part y)
                then positive_part x else negative_part x) \<and>
         v = unit_vector
               (if euclidean_norm (negative_part x) * euclidean_norm (negative_part y)
                   < euclidean_norm (positive_part x) * euclidean_norm (positive_part y)
                then positive_part y else negative_part y)"
proof (cases "euclidean_norm (negative_part x) * euclidean_norm (negative_part y)
                < euclidean_norm (positive_part x) * euclidean_norm (positive_part y)")
  case True
  with assms show ?thesis
    by (auto simp: nndsvd_choose_eq and_then_eq_Inr unit_vector_def dest!: array_div_Inr)
next
  case False
  with assms show ?thesis
    by (auto simp: nndsvd_choose_eq and_then_eq_Inr unit_vector_def dest!: array_div_Inr)
qed

lemma for_each_slots:
  assumes "for_each xs body s = Inr r" "distinct xs" "j \<in> set xs" "I s"
    and est: "\<And>i s s'. body i s = Inr s' \<Longrightarrow> I s \<Longrightarrow> I s' \<and> Q i s'"
    and pres: "\<And>i i' s s'. body i s = Inr s' \<Longrightarrow> I s \<Longrightarrow> i \<noteq> i' \<Longrightarrow> Q i' s \<Longrightarrow> Q i' s'"
  shows "Q j r"
proof -
  have keep: "for_each xs body s = Inr r \<Longrightarrow> I s \<Longrightarrow> j \<notin> set xs \<Longrightarrow> Q j s \<Longrightarrow> Q j r"
    for xs s
  proof (induction xs arbitrary: s)
    case Nil
    then show ?case by simp
  next
    case (Cons i xs)
    then obtain s1 where s1: "body i s = Inr s1" "for_each xs body s1 = Inr r"
      by (auto split: sum.splits)
    from est[OF s1(1) Cons.prems(2)] have "I s1" by simp
    moreover from pres[OF s1(1) Cons.prems(2), of j] Cons.prems(3,4) have "Q j s1" by auto
    ultimately show ?case using Cons.IH[OF s1(2)] Cons.prems(3) by simp
  qed
  show ?thesis
    using assms(1-4)
  proof (induction xs arbitrary: s)
    case Nil
    then show ?case by simp
  next
    case (Cons i xs)
    then obtain s1 where s1: "body i s = Inr s1" "for_each xs body s1 = Inr r"
      by (auto split: sum.splits)
    from est[OF s1(1) Cons.prems(4)] have I1: "I s1" and Qi: "Q i s1" by simp_all
    show ?case
    proof (cases "j = i")
      case True
      with Cons.prems(2) have "j \<notin> set xs" by simp
      from keep[OF s1(2) I1 this] Qi True show ?thesis by simp
    next
      case False
      with Cons.prems have "j \<in> set xs" "distinct xs" by simp_all
      from Cons.IH[OF s1(2) this(2,1) I1] show ?thesis .
    qed
  qed
qed

lemma set_column_Inr:
  assumes "set_column M j xs = Inr M'" "wf_matrix M"
  shows "wf_matrix M' \<and> nrows M' = nrows M \<and> ncols M' = ncols M \<and>
         get_column M' j = Inr xs \<and>
         (\<forall>j'. j' \<noteq> j \<longrightarrow> get_column M' j' = get_column M j') \<and>
         j < ncols M"
proof -
  from assms(1) have j: "j < ncols M" and len: "length xs = nrows M"
    and M': "M' = M\<lparr>rws := map (\<lambda>(r, v). r[j := v]) (zip (rws M) xs)\<rparr>"
    by (auto simp: set_column_def split: if_splits)
  have rows: "\<And>i. i < nrows M \<Longrightarrow> length (rws M ! i) = ncols M"
    using assms(2) by (rule wf_matrix_row)
  have "wf_matrix M'"
    using assms(2) len unfolding M' wf_matrix_def list_all_length
    by (auto simp: nrows_def)
  moreover have "map (\<lambda>r. r ! j) (rws M') = xs"
    unfolding M' using len j rows
    by (intro nth_equalityI) (auto simp: nrows_def)
  moreover have "map (\<lambda>r. r ! j') (rws M') = map (\<lambda>r. r ! j') (rws M)" if "j' \<noteq> j" for j'
    unfolding M' using len that
    by (intro nth_equalityI) (auto simp: nrows_def)
  ultimately show ?thesis
    using j len by (auto simp: get_column_def M' nrows_def)
qed

lemma set_row_Inr:
  assumes "set_row M j xs = Inr M'" "wf_matrix M"
  shows "wf_matrix M' \<and> nrows M' = nrows M \<and> ncols M' = ncols M \<and>
         get_row M' j = Inr xs \<and>
         (\<forall>j'. j' \<noteq> j \<longrightarrow> get_row M' j' = get_row M j') \<and>
         j < nrows M"
proof -
  from assms(1) have j: "j < nrows M" and len: "length xs = ncols M"
    and M': "M' = M\<lparr>rws := (rws M)[j := xs]\<rparr>"
    by (auto simp: set_row_def split: if_splits)
  have "wf_matrix M'" unfolding M' using assms(2) len by (simp add: wf_matrix_update)
  then show ?thesis
    using j by (auto simp: get_row_def M' nrows_def)
qed

lemma nndsvd_component_Inr:
  assumes "nndsvd_component U S V j (D, W) = Inr (D', W')"
  obtains x y u v sigma where
    "get_column U j = Inr x" "get_row V j = Inr y" "nndsvd_choose x y = Inr (u, v, sigma)"
    "j < length S" "0 \<le> S ! j * sigma"
    "set_column D j (scale (sqrt (S ! j * sigma)) u) = Inr D'"
    "set_row W j (scale (sqrt (S ! j * sigma)) v) = Inr W'"
  using assms
  by (auto simp: nndsvd_component_def and_then_eq_Inr vec_get_def np_sqrt_def
      split: if_splits)

lemma nndsvd_component_establishes:
  assumes "nndsvd_component U S V j (D, W) = Inr (D', W')" "wf_matrix D" "wf_matrix W"
  shows "wf_matrix D' \<and> wf_matrix W' \<and> nndsvd_assigned U S V j (D', W')"
proof -
  from assms(1) obtain x y u v sigma where
    x: "get_column U j = Inr x" and y: "get_row V j = Inr y"
    and ch: "nndsvd_choose x y = Inr (u, v, sigma)"
    and D': "set_column D j (scale (sqrt (S ! j * sigma)) u) = Inr D'"
    and W': "set_row W j (scale (sqrt (S ! j * sigma)) v) = Inr W'"
    by (rule nndsvd_component_Inr)
  from set_column_Inr[OF D' assms(2)] have d: "wf_matrix D'"
    "get_column D' j = Inr (scale (sqrt (S ! j * sigma)) u)" by simp_all
  from set_row_Inr[OF W' assms(3)] have w: "wf_matrix W'"
    "get_row W' j = Inr (scale (sqrt (S ! j * sigma)) v)" by simp_all
  from nndsvd_choose_Inr[OF ch] d w x y show ?thesis
    by (simp add: nndsvd_assigned_def Let_def)
qed

lemma nndsvd_component_preserves:
  assumes "nndsvd_component U S V i (D, W) = Inr (D', W')" "wf_matrix D" "wf_matrix W"
    and "i \<noteq> j" "nndsvd_assigned U S V j (D, W)"
  shows "nndsvd_assigned U S V j (D', W')"
proof -
  from assms(1) obtain u v sigma where
    D': "set_column D i (scale (sqrt (S ! i * sigma)) u) = Inr D'"
    and W': "set_row W i (scale (sqrt (S ! i * sigma)) v) = Inr W'"
    by (rule nndsvd_component_Inr)
  from set_column_Inr[OF D' assms(2)] assms(4) have "get_column D' j = get_column D j" by simp
  moreover from set_row_Inr[OF W' assms(3)] assms(4) have "get_row W' j = get_row W j" by simp
  ultimately show ?thesis using assms(5) by (simp add: nndsvd_assigned_def)
qed

text \<open>
  Claim C8. When the \<^verbatim>\<open>nndsvd\<close> branch completes, then for every component \<open>j\<close> with
  \<open>1 \<le> j < k\<close>: with \<open>x\<close> the \<open>j\<close>-th left singular vector (column \<open>j\<close> of \<open>U\<close>) and
  \<open>y\<close> the \<open>j\<close>-th right singular vector (row \<open>j\<close> of \<open>V\<close>), \<open>m\<^sub>p\<close> the product of
  the Euclidean norms of their positive parts and \<open>m\<^sub>n\<close> that of their negative parts,
  column \<open>j\<close> of the doc-topic matrix and row \<open>j\<close> of the topic-word matrix hold the unit
  vectors of the selected parts (the positive ones when \<open>m\<^sub>p > m\<^sub>n\<close>, the negative ones
  otherwise) scaled by \<open>sqrt (S\<^sub>j * max m\<^sub>p m\<^sub>n)\<close>. These are the matrices before the final
  row normalisation of \<^verbatim>\<open>plsa_init\<close>.
\<close>

theorem nndsvd_component_assigned:
  assumes "nndsvd U S V k = Inr (D, W)" and "1 \<le> j" and "j < k"
  shows "\<exists>x y. get_column U j = Inr x \<and> get_row V j = Inr y \<and>
          (let m_p = euclidean_norm (positive_part x) * euclidean_norm (positive_part y);
               m_n = euclidean_norm (negative_part x) * euclidean_norm (negative_part y);
               lbd = sqrt (S ! j * max m_p m_n)
           in get_column D j =
                Inr (scale lbd (unit_vector (if m_p > m_n then positive_part x
                                             else negative_part x))) \<and>
              get_row W j =
                Inr (scale lbd (unit_vector (if m_p > m_n then positive_part y
                                             else negative_part y))))"
proof -
  from assms(1) obtain D1 W1 c x0 y0 where
    D1: "set_column (zeros (nrows U) (ncols U)) 0 (scale c (map abs x0)) = Inr D1"
    and W1: "set_row (zeros (nrows V) (ncols V)) 0 (scale c (map abs y0)) = Inr W1"
    and loop: "for_each [1..<k] (nndsvd_component U S V) (D1, W1) = Inr (D, W)"
    by (auto simp: nndsvd_def Let_def and_then_eq_Inr)
  from set_column_Inr[OF D1] set_row_Inr[OF W1] have wf1: "wf_matrix D1" "wf_matrix W1"
    by simp_all
  have "nndsvd_assigned U S V j (D, W)"
  proof (rule for_each_slots[where I = "\<lambda>(D, W). wf_matrix D \<and> wf_matrix W"
        and Q = "nndsvd_assigned U S V", OF loop])
    show "distinct [1..<k]" by simp
    show "j \<in> set [1..<k]" using assms(2,3) by simp
    show "case (D1, W1) of (D, W) \<Rightarrow> wf_matrix D \<and> wf_matrix W" using wf1 by simp
  next
    fix i s s'
    assume "nndsvd_component U S V i s = Inr s'"
      "case s of (D, W) \<Rightarrow> wf_matrix D \<and> wf_matrix W"
    then show "(case s' of (D, W) \<Rightarrow> wf_matrix D \<and> wf_matrix W) \<and>
        nndsvd_assigned U S V i s'"
      using nndsvd_component_establishes[of U S V i "fst s" "snd s" "fst s'" "snd s'"]
      by (cases s, cases s') simp
  next
    fix i i' s s'
    assume "nndsvd_component U S V i s = Inr s'"
      "case s of (D, W) \<Rightarrow> wf_matrix D \<and> wf_matrix W" "i \<noteq> i'" "nndsvd_assigned U S V i' s"
    then show "nndsvd_assigned U S V i' s'"
      using nndsvd_component_preserves[of U S V i "fst s" "snd s" "fst s'" "snd s'" i']
      by (cases s, cases s') simp
  qed
  then show ?thesis by (simp add: nndsvd_assigned_def)
qed

lemma raises_simps [simp]:
  "raises (Inr x) = False" "raises (Inl e) = (e \<noteq> NonFinite)"
  by (simp_all add: raises_def)

lemma not_raises_and_then:
  "\<not> raises m \<Longrightarrow> (\<And>x. m = Inr x \<Longrightarrow> \<not> raises (f x)) \<Longrightarrow> \<not> raises (and_then m f)"
  by (cases m) simp_all

lemma for_each_no_raise:
  assumes "I s"
    and "\<And>i s. i \<in> set xs \<Longrightarrow> I s \<Longrightarrow>
           (\<exists>s'. body i s = Inr s' \<and> I s') \<or> body i s = Inl NonFinite"
  shows "(\<exists>r. for_each xs body s = Inr r \<and> I r) \<or> for_each xs body s = Inl NonFinite"
  using assms
proof (induction xs arbitrary: s)
  case Nil
  then show ?case by simp
next
  case (Cons i xs)
  from Cons.prems(2)[of i s] Cons.prems(1)
  consider s1 where "body i s = Inr s1" "I s1" | "body i s = Inl NonFinite" by auto
  then show ?case
  proof cases
    case 1
    from Cons.IH[OF 1(2)] Cons.prems(2) 1(1) show ?thesis by simp
  next
    case 2
    then show ?thesis by simp
  qed
qed

lemma array_div_cases:
  "(\<exists>u. array_div xs c = Inr u \<and> length u = length xs) \<or> array_div xs c = Inl NonFinite"
  by (simp add: array_div_def)

lemma length_parts [simp]:
  "length (positive_part x) = length x" "length (negative_part x) = length x"
  by (simp_all add: positive_part_def negative_part_def)

lemma nndsvd_choose_cases:
  "(\<exists>u v sigma. nndsvd_choose x y = Inr (u, v, sigma) \<and> length u = length x \<and>
       length v = length y) \<or> nndsvd_choose x y = Inl NonFinite"
proof -
  have *: "(\<exists>u v. and_then (array_div a c) (\<lambda>u. and_then (array_div b d) (\<lambda>v. Inr (u, v, m)))
               = Inr (u, v, m) \<and> length u = length a \<and> length v = length b) \<or>
           and_then (array_div a c) (\<lambda>u. and_then (array_div b d) (\<lambda>v. Inr (u, v, m)))
               = Inl NonFinite" for a b :: "real list" and c d m :: real
    using array_div_cases[of a c] array_div_cases[of b d] by auto
  show ?thesis
  proof (cases "euclidean_norm (negative_part x) * euclidean_norm (negative_part y)
                < euclidean_norm (positive_part x) * euclidean_norm (positive_part y)")
    case True
    have "nndsvd_choose x y =
        and_then (array_div (positive_part x) (euclidean_norm (positive_part x))) (\<lambda>u.
           and_then (array_div (positive_part y) (euclidean_norm (positive_part y))) (\<lambda>v.
             Inr (u, v, euclidean_norm (positive_part x) * euclidean_norm (positive_part y))))"
      using True by (simp add: nndsvd_choose_eq)
    with *[of "positive_part x" "euclidean_norm (positive_part x)" "positive_part y"
        "euclidean_norm (positive_part y)"
        "euclidean_norm (positive_part x) * euclidean_norm (positive_part y)"]
    show ?thesis by (simp only: length_parts) blast
  next
    case False
    have "nndsvd_choose x y =
        and_then (array_div (negative_part x) (euclidean_norm (negative_part x))) (\<lambda>u.
           and_then (array_div (negative_part y) (euclidean_norm (negative_part y))) (\<lambda>v.
             Inr (u, v, euclidean_norm (negative_part x) * euclidean_norm (negative_part y))))"
      using False by (simp add: nndsvd_choose_eq)
    with *[of "negative_part x" "euclidean_norm (negative_part x)" "negative_part y"
        "euclidean_norm (negative_part y)"
        "euclidean_norm (negative_part x) * euclidean_norm (negative_part y)"]
    show ?thesis by (simp only: length_parts) blast
  qed
qed

lemma get_column_length: "get_column M j = Inr x \<Longrightarrow> length x = nrows M"
  by (auto simp: get_column_def nrows_def split: if_splits)

lemma nndsvd_component_cases:
  assumes "nndsvd_shapes U V (D, W)" "wf_matrix V" "j < ncols U" "j < nrows V" "j < length S"
  shows "(\<exists>D' W'. nndsvd_component U S V j (D, W) = Inr (D', W') \<and> nndsvd_shapes U V (D', W'))
         \<or> nndsvd_component U S V j (D, W) = Inl NonFinite"
proof -
  from assms(1) have sh: "wf_matrix D" "nrows D = nrows U" "ncols D = ncols U"
    "wf_matrix W" "nrows W = nrows V" "ncols W = ncols V"
    by (simp_all add: nndsvd_shapes_def)
  let ?x = "map (\<lambda>r. r ! j) (rws U)" and ?y = "rws V ! j"
  have x: "get_column U j = Inr ?x" using assms(3) by (simp add: get_column_def)
  have y: "get_row V j = Inr ?y" using assms(4) by (simp add: get_row_def)
  have ly: "length ?y = ncols V" using assms(2,4) by (rule wf_matrix_row)
  from nndsvd_choose_cases[of ?x ?y]
  consider u v sigma where "nndsvd_choose ?x ?y = Inr (u, v, sigma)"
      "length u = length ?x" "length v = length ?y"
    | "nndsvd_choose ?x ?y = Inl NonFinite" by blast
  then show ?thesis
  proof cases
    case 1
    show ?thesis
    proof (cases "0 \<le> S ! j * sigma")
      case True
      let ?lbd = "sqrt (S ! j * sigma)"
      let ?D' = "D\<lparr>rws := map (\<lambda>(r, v). r[j := v]) (zip (rws D) (scale ?lbd u))\<rparr>"
      let ?W' = "W\<lparr>rws := (rws W)[j := scale ?lbd v]\<rparr>"
      have D': "set_column D j (scale ?lbd u) = Inr ?D'"
        using assms(3) sh 1(2) by (simp add: set_column_def scale_def nrows_def)
      have W': "set_row W j (scale ?lbd v) = Inr ?W'"
        using assms(4) sh 1(3) ly by (simp add: set_row_def scale_def)
      have "nndsvd_component U S V j (D, W) = Inr (?D', ?W')"
        using x y 1(1) assms(5) True D' W'
        by (simp add: nndsvd_component_def np_sqrt_def)
      moreover have "nndsvd_shapes U V (?D', ?W')"
        using set_column_Inr[OF D' sh(1)] set_row_Inr[OF W' sh(4)] sh
        by (simp add: nndsvd_shapes_def)
      ultimately show ?thesis by blast
    next
      case False
      then show ?thesis
        using x y 1(1) assms(5) by (simp add: nndsvd_component_def np_sqrt_def)
    qed
  next
    case 2
    then show ?thesis using x y by (simp add: nndsvd_component_def)
  qed
qed

lemma nndsvd_no_raise:
  assumes "wf_matrix V" "ncols U = k" "length S = k" "nrows V = k" "1 \<le> k"
  shows "\<not> raises (nndsvd U S V k)"
proof -
  let ?D0 = "zeros (nrows U) (ncols U)" and ?W0 = "zeros (nrows V) (ncols V)"
  let ?x = "map (\<lambda>r. r ! 0) (rws U)" and ?y = "rws V ! 0"
  have x: "get_column U 0 = Inr ?x" using assms(2,5) by (simp add: get_column_def)
  have y: "get_row V 0 = Inr ?y" using assms(4,5) by (simp add: get_row_def)
  have ly: "length ?y = ncols V" using assms(1,4,5) by (intro wf_matrix_row) simp_all
  have S0: "vec_get S 0 = Inr (S ! 0)" using assms(3,5) by simp
  show ?thesis
  proof (cases "0 \<le> S ! 0")
    case False
    then show ?thesis by (simp add: nndsvd_def Let_def S0 np_sqrt_def)
  next
    case True
    let ?c = "sqrt (S ! 0)"
    let ?D1 = "?D0\<lparr>rws := map (\<lambda>(r, v). r[0 := v]) (zip (rws ?D0) (scale ?c (map abs ?x)))\<rparr>"
    let ?W1 = "?W0\<lparr>rws := (rws ?W0)[0 := scale ?c (map abs ?y)]\<rparr>"
    have lx: "length (scale ?c (map abs ?x)) = nrows U" by (simp add: scale_def nrows_def)
    have D1: "set_column ?D0 0 (scale ?c (map abs ?x)) = Inr ?D1"
      using assms(2,5) lx by (simp add: set_column_def)
    have W1: "set_row ?W0 0 (scale ?c (map abs ?y)) = Inr ?W1"
      using assms(4,5) ly by (simp add: set_row_def scale_def)
    have sh1: "nndsvd_shapes U V (?D1, ?W1)"
      using set_column_Inr[OF D1] set_row_Inr[OF W1] by (simp add: nndsvd_shapes_def)
    have run: "nndsvd U S V k = for_each [1..<k] (nndsvd_component U S V) (?D1, ?W1)"
      using True x y D1 W1 by (simp add: nndsvd_def Let_def S0 np_sqrt_def)
    have "(\<exists>r. for_each [1..<k] (nndsvd_component U S V) (?D1, ?W1) = Inr r \<and>
              nndsvd_shapes U V r) \<or>
          for_each [1..<k] (nndsvd_component U S V) (?D1, ?W1) = Inl NonFinite"
    proof (rule for_each_no_raise[where I = "nndsvd_shapes U V", OF sh1])
      fix i s assume i: "i \<in> set [1..<k]" and s: "nndsvd_shapes U V s"
      obtain D W where [simp]: "s = (D, W)" by (cases s)
      from nndsvd_component_cases[of U V D W i S] s i assms
      show "(\<exists>s'. nndsvd_component U S V i s = Inr s' \<and> nndsvd_shapes U V s') \<or>
            nndsvd_component U S V i s = Inl NonFinite"
        by auto
    qed
    then show ?thesis unfolding run by auto
  qed
qed

lemma ex_nndsvd:
  "nndsvd ex_U ex_S ex_V 2 =
     Inr (\<lparr>ncols = 2, rws = [[1, 2], [0, 0]]\<rparr>, \<lparr>ncols = 2, rws = [[1, 0], [0, 2]]\<rparr>)"
  by (simp add: nndsvd_def nndsvd_component_def nndsvd_choose_def Let_def norm_l2_def
      array_div_def np_sqrt_def scale_def get_column_def get_row_def set_column_def
      set_row_def vec_get_def zeros_def nrows_def ex_U_def ex_S_def ex_V_def
      upt_rec[of 1] numeral_2_eq_2)

text \<open>
  Claim C8 at concrete SVD factors with two components: column 1 of \<open>U\<close> is \<open>[1, -1]\<close>,
  row 1 of \<open>V\<close> is \<open>[0, 1]\<close>, \<open>S\<^sub>1 = 4\<close>; the positive parts are selected and scaled by 2.
\<close>

theorem nndsvd_component_assigned_witness:
  "\<exists>x y. get_column ex_U 1 = Inr x \<and> get_row ex_V 1 = Inr y \<and>
          (let m_p = euclidean_norm (positive_part x) * euclidean_norm (positive_part y);
               m_n = euclidean_norm (negative_part x) * euclidean_norm (negative_part y);
               lbd = sqrt (ex_S ! 1 * max m_p m_n)
           in get_column \<lparr>ncols = 2, rws = [[1, 2], [0, 0]]\<rparr> 1 =
                Inr (scale lbd (unit_vector (if m_p > m_n then positive_part x
                                             else negative_part x))) \<and>
              get_row \<lparr>ncols = 2, rws = [[1, 0], [0, 2]]\<rparr> 1 =
                Inr (scale lbd (unit_vector (if m_p > m_n then positive_part y
                                             else negative_part y))))"
proof -
  have j: "(1::nat) \<le> 1" "(1::nat) < 2" by simp_all
  show ?thesis by (rule nndsvd_component_assigned[OF ex_nndsvd j])
qed

section \<open>The dispatch of \<^verbatim>\<open>plsa_init\<close> on its \<^verbatim>\<open>init\<close> argument\<close>

lemma then_do_calling_Inr [simp]: "then_do (calling cs (Inr x)) rest t = rest x (t @ cs)"
  by (simp add: then_do_def calling_def)

lemma then_do_calling_Inl [simp]: "then_do (calling cs (Inl e)) rest t = (Inl e, t @ cs)"
  by (simp add: then_do_def calling_def)

lemma then_do_evaluate_Inr [simp]: "then_do (evaluate (Inr x)) rest t = rest x t"
  by (simp add: then_do_def evaluate_def)

lemma then_do_evaluate_Inl [simp]: "then_do (evaluate (Inl e)) rest t = (Inl e, t)"
  by (simp add: then_do_def evaluate_def)

lemma evaluate_apply [simp]: "evaluate outcome t = (outcome, t)"
  by (simp add: evaluate_def)

lemma init_finish_arrays:
  assumes "\<forall>M. \<exists>M'. normalize_rows lib (VArray M) = Inr (VArray M')"
  shows "\<exists>D' W'. init_finish lib (VArray D) (VArray W) t =
           (Inr (VArray D', VArray W'), t @ [Normalize, Normalize])"
proof -
  from assms obtain W' where W': "normalize_rows lib (VArray W) = Inr (VArray W')" by blast
  from assms obtain D' where D': "normalize_rows lib (VArray D) = Inr (VArray D')" by blast
  show ?thesis by (simp add: init_finish_def W' D')
qed

lemma plsa_init_unrecognized:
  assumes "\<not> mode_string init" "\<not> is_sequence init"
  shows "plsa_init lib X k init t = (Inl ValueError, t)"
  using assms by (cases init) (simp_all add: plsa_init_def mode_string_def Let_def)

lemma plsa_init_sequence:
  assumes "is_sequence init"
  shows "plsa_init lib X k init t =
           (case items init of [a, b] \<Rightarrow> init_finish lib a b t | _ \<Rightarrow> (Inl ValueError, t))"
  using assms
  by (cases init) (simp_all add: plsa_init_def Let_def unpack_pair_def split: list.splits)

lemma array_pair_items:
  assumes "array_pair init"
  obtains D W where "items init = [VArray D, VArray W]"
proof -
  from assms have len: "length (items init) = 2" and arr: "list_all is_array (items init)"
    by (simp_all add: array_pair_def)
  from len obtain a b where ab: "items init = [a, b]"
    by (cases "items init"; cases "tl (items init)") auto
  with arr obtain D W where "a = VArray D" "b = VArray W"
    by (cases a; cases b) auto
  with ab that show ?thesis by simp
qed

lemma plsa_init_recognized:
  assumes "mode_string init \<or> array_pair init" "library_returns lib X k" "1 \<le> k"
  shows "(\<exists>D W. fst (plsa_init lib X k init t) = Inr (VArray D, VArray W)) \<or>
         fst (plsa_init lib X k init t) = Inl NonFinite"
proof -
  from assms(2) have n: "\<forall>M. \<exists>M'. normalize_rows lib (VArray M) = Inr (VArray M')"
    by (simp add: library_returns_def)
  from assms(2) obtain U S V where svd: "randomized_svd lib X k = Inr (U, S, V)"
    and sh: "wf_matrix V" "ncols U = k" "length S = k" "nrows V = k"
    by (auto simp: library_returns_def)
  from assms(2) obtain D0 W0 where nmf: "non_negative_factorization lib X k = Inr (D0, W0)"
    by (auto simp: library_returns_def)
  have fin: "\<exists>D' W'. fst (init_finish lib (VArray D) (VArray W) t) = Inr (VArray D', VArray W')"
    for D W t
    using init_finish_arrays[OF n, of D W t] by auto
  from assms(1) consider "init = VStr ''random''" | "init = VStr ''nndsvd''"
    | "init = VStr ''nmf''" | "array_pair init"
    by (auto simp: mode_string_def)
  then show ?thesis
  proof cases
    case 1
    then show ?thesis using fin by (simp add: plsa_init_def Let_def)
  next
    case 2
    from nndsvd_no_raise[OF sh assms(3)]
    consider D W where "nndsvd U S V k = Inr (D, W)" | "nndsvd U S V k = Inl NonFinite"
      by (cases "nndsvd U S V k") auto
    then show ?thesis
    proof cases
      case (1 D W)
      with 2 svd fin show ?thesis by (simp add: plsa_init_def Let_def)
    next
      case 2
      with \<open>init = VStr ''nndsvd''\<close> svd show ?thesis by (simp add: plsa_init_def Let_def)
    qed
  next
    case 3
    with nmf fin show ?thesis by (simp add: plsa_init_def Let_def)
  next
    case 4
    then obtain D W where it: "items init = [VArray D, VArray W]" by (rule array_pair_items)
    from 4 have "is_sequence init" by (simp add: array_pair_def)
    from plsa_init_sequence[OF this, of lib X k t] it fin show ?thesis by simp
  qed
qed

text \<open>
  Claim C7, as the code has it.
  \<^item> An \<^verbatim>\<open>init\<close> argument that is none of the strings \<^verbatim>\<open>"random"\<close>, \<^verbatim>\<open>"nndsvd"\<close>,
    \<^verbatim>\<open>"nmf"\<close> and neither a tuple nor a list makes \<^verbatim>\<open>plsa_init\<close> raise \<^verbatim>\<open>ValueError\<close> with
    the trace as it was: no array was created and no library routine called. So does
    \<^verbatim>\<open>plsa_fit\<close>.
  \<^item> A tuple or list is never rejected as unrecognized, whatever it holds: one with two
    items is unpacked and the two items go to \<^verbatim>\<open>normalize\<close>; one of another length fails
    at the unpacking.
  \<^item> For one of the three strings or a tuple or list of two arrays, at least one topic,
    and library routines that return (an SVD with the \<open>k\<close> components asked for),
    \<^verbatim>\<open>plsa_init\<close> returns two arrays, or, in the \<^verbatim>\<open>nndsvd\<close> branch only, computes
    non-finite entries.
\<close>

theorem plsa_init_dispatch:
  "(\<not> mode_string init \<and> \<not> is_sequence init \<longrightarrow>
      plsa_init lib X k init t = (Inl ValueError, t) \<and>
      plsa_fit lib X k init n_iter n_iter_per_test tolerance e_step_thresh t
        = (Inl ValueError, t)) \<and>
   (is_sequence init \<longrightarrow>
      plsa_init lib X k init t =
        (case items init of [a, b] \<Rightarrow> init_finish lib a b t | _ \<Rightarrow> (Inl ValueError, t))) \<and>
   ((mode_string init \<or> array_pair init) \<and> library_returns lib X k \<and> 1 \<le> k \<longrightarrow>
      (\<exists>D W. fst (plsa_init lib X k init t) = Inr (VArray D, VArray W)) \<or>
      fst (plsa_init lib X k init t) = Inl NonFinite)"
  using plsa_init_unrecognized[of init lib X k t] plsa_init_sequence[of init lib X k t]
    plsa_init_recognized[of init lib X k t]
  by (simp add: plsa_fit_def then_do_def)

lemma ex_nndsvd_short:
  "nndsvd ex_U ex_S ex_V 3 = Inl IndexError"
  by (simp add: nndsvd_def nndsvd_component_def nndsvd_choose_def Let_def norm_l2_def
      array_div_def np_sqrt_def scale_def get_column_def get_row_def set_column_def
      set_row_def vec_get_def zeros_def nrows_def ex_U_def ex_S_def ex_V_def
      upt_rec[of 1] upt_rec[of 2] numeral_2_eq_2 numeral_3_eq_3)

text \<open>
  Claim C7 as stated fails twice. A tuple of two values that are not arrays is not one of
  the three strings and not a pair of matrices, yet it is not rejected: \<^verbatim>\<open>normalize\<close> is
  called on its items, and the exception is the one \<^verbatim>\<open>normalize\<close> raises. And the
  recognized mode \<^verbatim>\<open>"nndsvd"\<close> raises \<^verbatim>\<open>IndexError\<close>, after creating both arrays, when
  three topics are asked for and the SVD of the \<open>2 \<times> 2\<close> matrix has two components.
\<close>

theorem plsa_init_tuple_not_rejected:
  "plsa_init ex_lib ex_X 2 (VTuple [VOther, VOther]) [] = (Inl TypeError, [Normalize]) \<and>
   plsa_init ex_lib ex_X 3 (VStr ''nndsvd'') [] =
     (Inl IndexError, [RandomizedSvd, NpZeros 2 2, NpZeros 2 2])"
proof -
  have sh: "nrows ex_U = 2" "ncols ex_U = 2" "nrows ex_V = 2" "ncols ex_V = 2"
    by (simp_all add: ex_U_def ex_V_def nrows_def)
  have "plsa_init ex_lib ex_X 2 (VTuple [VOther, VOther]) [] = (Inl TypeError, [Normalize])"
    by (simp add: plsa_init_def Let_def unpack_pair_def init_finish_def ex_lib_def
        ex_normalize_def)
  moreover have "plsa_init ex_lib ex_X 3 (VStr ''nndsvd'') [] =
     (Inl IndexError, [RandomizedSvd, NpZeros 2 2, NpZeros 2 2])"
    by (simp add: plsa_init_def Let_def ex_lib_def ex_nndsvd_short sh)
  ultimately show ?thesis by (rule conjI)
qed

lemma ex_library_returns: "library_returns ex_lib ex_X 2"
  by (simp add: library_returns_def ex_lib_def ex_normalize_def ex_X_def ex_U_def ex_V_def
      ex_S_def wf_matrix_def nrows_def)

text \<open>
  Claim C7, amended, at concrete arguments: an unknown mode string and a value that is
  neither string nor sequence are rejected on the empty trace; a list of two arrays is
  handed to \<^verbatim>\<open>normalize\<close>; and each of the three modes and the list of two arrays, with
  two topics, gives two arrays or non-finite entries.
\<close>

theorem plsa_init_dispatch_witness:
  "plsa_init ex_lib ex_X 2 (VStr ''kmeans'') [] = (Inl ValueError, []) \<and>
   plsa_fit ex_lib ex_X 2 (VStr ''kmeans'') 100 10 (1/1000) 0 [] = (Inl ValueError, []) \<and>
   plsa_init ex_lib ex_X 2 VOther [] = (Inl ValueError, []) \<and>
   plsa_init ex_lib ex_X 2 (VList [VArray ex_doc_topic, VArray ex_topic_word]) [] =
     init_finish ex_lib (VArray ex_doc_topic) (VArray ex_topic_word) [] \<and>
   ((\<exists>D W. fst (plsa_init ex_lib ex_X 2 (VStr ''random'') []) = Inr (VArray D, VArray W)) \<or>
    fst (plsa_init ex_lib ex_X 2 (VStr ''random'') []) = Inl NonFinite) \<and>
   ((\<exists>D W. fst (plsa_init ex_lib ex_X 2 (VStr ''nndsvd'') []) = Inr (VArray D, VArray W)) \<or>
    fst (plsa_init ex_lib ex_X 2 (VStr ''nndsvd'') []) = Inl NonFinite) \<and>
   ((\<exists>D W. fst (plsa_init ex_lib ex_X 2 (VStr ''nmf'') []) = Inr (VArray D, VArray W)) \<or>
    fst (plsa_init ex_lib ex_X 2 (VStr ''nmf'') []) = Inl NonFinite) \<and>
   ((\<exists>D W. fst (plsa_init ex_lib ex_X 2
               (VList [VArray ex_doc_topic, VArray ex_topic_word]) [])
            = Inr (VArray D, VArray W)) \<or>
    fst (plsa_init ex_lib ex_X 2 (VList [VArray ex_doc_topic, VArray ex_topic_word]) [])
      = Inl NonFinite)"
proof -
  have a: "\<not> mode_string (VStr ''kmeans'') \<and> \<not> is_sequence (VStr ''kmeans'')"
    and b: "\<not> mode_string VOther \<and> \<not> is_sequence VOther"
    and c: "is_sequence (VList [VArray ex_doc_topic, VArray ex_topic_word])"
    by (simp_all add: mode_string_def)
  have two: "(1::nat) \<le> 2" by simp
  have r: "(mode_string (VStr ''random'') \<or> array_pair (VStr ''random'')) \<and>
        library_returns ex_lib ex_X 2 \<and> 1 \<le> (2::nat)"
    and n: "(mode_string (VStr ''nndsvd'') \<or> array_pair (VStr ''nndsvd'')) \<and>
        library_returns ex_lib ex_X 2 \<and> 1 \<le> (2::nat)"
    and f: "(mode_string (VStr ''nmf'') \<or> array_pair (VStr ''nmf'')) \<and>
        library_returns ex_lib ex_X 2 \<and> 1 \<le> (2::nat)"
    and p: "(mode_string (VList [VArray ex_doc_topic, VArray ex_topic_word]) \<or>
         array_pair (VList [VArray ex_doc_topic, VArray ex_topic_word])) \<and>
        library_returns ex_lib ex_X 2 \<and> 1 \<le> (2::nat)"
    using ex_library_returns by (simp_all add: mode_string_def array_pair_def)
  note K = plsa_init_dispatch[of "VStr ''kmeans''" ex_lib ex_X 2 "[]" 100 10 "1/1000" 0,
      THEN conjunct1, rule_format, OF a]
  note O = plsa_init_dispatch[of VOther ex_lib ex_X 2 "[]" 0 0 0 0,
      THEN conjunct1, rule_format, OF b, THEN conjunct1]
  note L = plsa_init_dispatch[of "VList [VArray ex_doc_topic, VArray ex_topic_word]"
      ex_lib ex_X 2 "[]" 0 0 0 0, THEN conjunct2, THEN conjunct1, rule_format, OF c,
      simplified]
  note R = plsa_init_dispatch[of "VStr ''random''" ex_lib ex_X 2 "[]" 0 0 0 0,
      THEN conjunct2, THEN conjunct2, rule_format, OF r]
  note N = plsa_init_dispatch[of "VStr ''nndsvd''" ex_lib ex_X 2 "[]" 0 0 0 0,
      THEN conjunct2, THEN conjunct2, rule_format, OF n]
  note F = plsa_init_dispatch[of "VStr ''nmf''" ex_lib ex_X 2 "[]" 0 0 0 0,
      THEN conjunct2, THEN conjunct2, rule_format, OF f]
  note P = plsa_init_dispatch[of "VList [VArray ex_doc_topic, VArray ex_topic_word]"
      ex_lib ex_X 2 "[]" 0 0 0 0, THEN conjunct2, THEN conjunct2, rule_format, OF p]
  show ?thesis
    by (intro conjI) (rule K[THEN conjunct1] K[THEN conjunct2] O L R N F P)+
qed

section \<open>The \<^verbatim>\<open>transform\<close> method\<close>

lemma transform_args_fail:
  "eval_all (eval_arg X self) transform_args = Inl AttributeError"
  by (simp add: transform_args_def eval_arg_def coo_getattr_def)

text \<open>
  Claim C10, as the code has it. \<^verbatim>\<open>PLSA.transform\<close> never returns a matrix: when the
  input validation raises, so does the method, and otherwise evaluating the third
  argument \<^verbatim>\<open>X.vals\<close> raises \<^verbatim>\<open>AttributeError\<close> before \<^verbatim>\<open>plsa_refit\<close> is entered. In
  the call, \<^verbatim>\<open>X.vals\<close> stands in the position of \<^verbatim>\<open>X_vals\<close>, the dimensions \<^verbatim>\<open>n\<close> and
  \<^verbatim>\<open>m\<close> stand in the positions of \<^verbatim>\<open>topics\<close> and \<^verbatim>\<open>n_documents\<close>, and
  \<^verbatim>\<open>self.components_\<close> stands in the position of \<^verbatim>\<open>n_iter\<close>, which the call also gives by
  keyword: six positional values with these keywords cannot be bound whatever they are.
\<close>

theorem transform_never_returns:
  "transform validate normalize_fn random_draw self X =
     (case validate X of Inl e \<Rightarrow> Inl e | Inr X' \<Rightarrow> Inl AttributeError) \<and>
   map_of (zip transform_args plsa_refit_params) (Attr ''vals'') = Some ''X_vals'' \<and>
   map_of (zip transform_args plsa_refit_params) Dim_n = Some ''topics'' \<and>
   map_of (zip transform_args plsa_refit_params) Dim_m = Some ''n_documents'' \<and>
   map_of (zip transform_args plsa_refit_params) Components = Some ''n_iter'' \<and>
   bind_arguments plsa_refit_params [v1, v2, v3, v4, v5, v6]
     [(''n_iter'', k1), (''n_iter_per_test'', k2), (''tolerance'', k3)] = Inl TypeError"
proof -
  have "transform validate normalize_fn random_draw self X =
     (case validate X of Inl e \<Rightarrow> Inl e | Inr X' \<Rightarrow> Inl AttributeError)"
    by (cases "validate X") (simp_all add: transform_def transform_args_fail)
  moreover have "map_of (zip transform_args plsa_refit_params) (Attr ''vals'') = Some ''X_vals''"
    "map_of (zip transform_args plsa_refit_params) Dim_n = Some ''topics''"
    "map_of (zip transform_args plsa_refit_params) Dim_m = Some ''n_documents''"
    "map_of (zip transform_args plsa_refit_params) Components = Some ''n_iter''"
    by (simp_all add: transform_args_def plsa_refit_params_def)
  moreover have "bind_arguments plsa_refit_params [v1, v2, v3, v4, v5, v6]
     [(''n_iter'', k1), (''n_iter_per_test'', k2), (''tolerance'', k3)] = Inl TypeError"
    by (simp add: bind_arguments_def plsa_refit_params_def)
  ultimately show ?thesis by simp
qed

text \<open>
  Claim C10 as stated places \<^verbatim>\<open>n\<close> and \<^verbatim>\<open>m\<close> in the positions of the entry values and of
  the fixed topics. They are not there: the position of \<^verbatim>\<open>X_vals\<close> holds \<^verbatim>\<open>X.vals\<close>, and
  \<^verbatim>\<open>m\<close> is bound to \<^verbatim>\<open>n_documents\<close>.
\<close>

theorem transform_dimension_positions:
  "map_of (zip transform_args plsa_refit_params) Dim_n \<noteq> Some ''X_vals'' \<and>
   map_of (zip transform_args plsa_refit_params) Dim_m \<noteq> Some ''topics''"
  by (simp add: transform_args_def plsa_refit_params_def)

text \<open>
  Claim C10 at a fitted estimator and a valid input: the method raises \<^verbatim>\<open>AttributeError\<close>.
\<close>

theorem transform_never_returns_witness:
  "transform Inr Inr (\<lambda>n k. ex_doc_topic) \<lparr>components = Some ex_topic_word\<rparr> ex_X
     = Inl AttributeError"
  using transform_never_returns[of Inr Inr "\<lambda>n k. ex_doc_topic"
      "\<lparr>components = Some ex_topic_word\<rparr>" ex_X]
  by simp

end
